(* ===== verification/Prelude.thy ===== *)
theory Prelude
  imports Main "HOL-Library.Word"
begin

text \<open>
  The shared vocabulary of the development: names for the fixed-width C types, the view of a
  32-bit word as four bytes that the cipher, the packet builders and the readers of big-endian
  fields share, and generic facts on lists and loops.  The target of the build is 32-bit Android
  (\<^verbatim>\<open>armeabi\<close>), so \<open>unsigned long\<close> and pointers have 32 bits and \<open>char\<close> is a byte.
\<close>

unbundle bit_operations_syntax

type_synonym u8 = "8 word"
type_synonym u16 = "16 word"
type_synonym u32 = "32 word"
type_synonym u64 = "64 word"
type_synonym bytes = "u8 list"

named_theorems byte_simps \<open>extraction of bytes from packed words\<close>

subsection \<open>Four bytes in a 32-bit word\<close>

text \<open>\<open>pack a b c d\<close> is the word whose big-endian bytes are \<open>a b c d\<close>; \<open>byte_of k w\<close> is the C
  expression \<open>(uint8) (w >> k)\<close>.\<close>

definition pack :: "u8 \<Rightarrow> u8 \<Rightarrow> u8 \<Rightarrow> u8 \<Rightarrow> u32" where
  "pack a b c d = push_bit 24 (ucast a) OR push_bit 16 (ucast b) OR push_bit 8 (ucast c) OR ucast d"

definition byte_of :: "nat \<Rightarrow> u32 \<Rightarrow> u8" where
  "byte_of k w = ucast (drop_bit k w)"

lemma bit_pack:
  "bit (pack a b c d) n \<longleftrightarrow>
     (if n < 8 then bit d n else if n < 16 then bit c (n - 8)
      else if n < 24 then bit b (n - 16) else bit a (n - 24))"
  unfolding pack_def
  by (auto simp: bit_simps not_less dest: bit_imp_le_length)

lemma bit_byte_of: "bit (byte_of k w) n \<longleftrightarrow> n < 8 \<and> bit w (k + n)"
  by (auto simp: byte_of_def bit_simps)

lemma byte_of_pack [byte_simps, simp]:
  "byte_of 24 (pack a b c d) = a"
  "byte_of 16 (pack a b c d) = b"
  "byte_of 8 (pack a b c d) = c"
  "byte_of 0 (pack a b c d) = d"
  by (auto intro!: bit_word_eqI simp: bit_byte_of bit_pack)

lemma pack_bytes [byte_simps, simp]:
  "pack (byte_of 24 w) (byte_of 16 w) (byte_of 8 w) (byte_of 0 w) = w"
  by (rule bit_word_eqI) (auto simp: bit_byte_of bit_pack not_less)

lemma pack_xor [byte_simps]:
  "pack a b c d XOR pack a' b' c' d' = pack (a XOR a') (b XOR b') (c XOR c') (d XOR d')"
  by (rule bit_word_eqI) (auto simp: bit_pack bit_simps)

lemma byte_of_xor [byte_simps]: "byte_of k (v XOR w) = byte_of k v XOR byte_of k w"
  by (rule bit_word_eqI) (auto simp: bit_byte_of bit_simps)

lemma pack_eq_iff [simp]:
  "pack a b c d = pack a' b' c' d' \<longleftrightarrow> a = a' \<and> b = b' \<and> c = c' \<and> d = d'"
  by (metis byte_of_pack)

lemma pack_cases: obtains a b c d where "w = pack a b c d"
  by (metis pack_bytes)

subsection \<open>Words as numbers\<close>

lemma unat_u32_less: "unat (c :: u32) < 4294967296"
proof -
  have "unat c < 2 ^ LENGTH(32)" by (rule unsigned_less)
  then show ?thesis by simp
qed

lemma unat_u8_less: "unat (a :: u8) < 256"
proof -
  have "unat a < 2 ^ LENGTH(8)" by (rule unsigned_less)
  then show ?thesis by simp
qed

lemma unat_ucast_u8 [simp]: "unat (ucast (a :: u8) :: u32) = unat a"
  using unat_u8_less [of a] by (simp add: unsigned_ucast_eq take_bit_eq_mod)

lemma pack_sum: "pack a b c d = ((ucast a * 256 + ucast b) * 256 + ucast c) * 256 + ucast d"
proof -
  let ?a = "push_bit 24 (ucast a) :: u32" and ?b = "push_bit 16 (ucast b) :: u32"
    and ?c = "push_bit 8 (ucast c) :: u32" and ?d = "ucast d :: u32"
  have "?c OR ?d = ?c + ?d" "?b OR (?c + ?d) = ?b + (?c + ?d)"
    "?a OR (?b + (?c + ?d)) = ?a + (?b + (?c + ?d))"
    subgoal c
      by (rule disjunctive_add_eq_or [symmetric])
        (auto simp: bit_eq_iff bit_simps dest: bit_imp_le_length)
    subgoal b
      unfolding c [symmetric] by (rule disjunctive_add_eq_or [symmetric])
        (auto simp: bit_eq_iff bit_simps dest: bit_imp_le_length)
    subgoal
      unfolding b [symmetric] unfolding c [symmetric] by (rule disjunctive_add_eq_or [symmetric])
        (auto simp: bit_eq_iff bit_simps dest: bit_imp_le_length)
    done
  then show ?thesis
    by (simp add: pack_def push_bit_eq_mult algebra_simps)
qed

lemma unat_pack: "unat (pack a b c d) = unat a * 16777216 + unat b * 65536 + unat c * 256 + unat d"
proof -
  let ?n = "unat a * 16777216 + unat b * 65536 + unat c * 256 + unat d"
  have "pack a b c d = of_nat ?n"
    by (simp add: pack_sum algebra_simps)
  moreover have "?n < 4294967296"
    using unat_u8_less [of a] unat_u8_less [of b] unat_u8_less [of c] unat_u8_less [of d] by linarith
  ultimately show ?thesis by (simp only: unat_of_nat) simp
qed

lemma u8_mask: "(0xff :: 'a::len word) = mask 8"
  by (simp add: mask_eq_exp_minus_1)

lemma ucast_and_ff: "(ucast (drop_bit k w AND 0xff) :: u8) = byte_of k w"
  unfolding u8_mask by (rule bit_word_eqI) (auto simp: bit_simps bit_byte_of)

lemmas xor_ac = xor.assoc xor.commute xor.left_commute

lemma xor_cancel_left: "x XOR (x XOR y) = (y :: 'a :: len word)"
  by (simp flip: xor.assoc)

subsection \<open>Loops over arrays\<close>

text \<open>\<open>for (i = 0; i < n; i++) A[i] = f(i);\<close> overwrites the whole array.\<close>

lemma length_fold_update [simp]: "length (fold (\<lambda>i A. A[f i := g i]) is A) = length A"
  by (induction "is" arbitrary: A) auto

lemma nth_fold_update_last:
  assumes "j \<in> {m..<n}" and "f j < length A" and "\<forall>k. j < k \<and> k < n \<longrightarrow> f k \<noteq> f j"
  shows "fold (\<lambda>i A. A[f i := g i]) [m..<n] A ! f j = g j"
  using assms
proof (induction n)
  case (Suc n)
  show ?case
  proof (cases "j = n")
    case True
    then show ?thesis using Suc.prems by simp
  next
    case False
    then show ?thesis using Suc by (simp add: nth_list_update)
  qed
qed simp

lemma nth_fold_update_other:
  "\<forall>i \<in> set is. f i \<noteq> p \<Longrightarrow> fold (\<lambda>i A. A[f i := g i]) is A ! p = A ! p"
  by (induction "is" arbitrary: A) auto

lemma fold_update_upt:
  assumes "n \<le> length A"
  shows "fold (\<lambda>i A. A[i := f i]) [0..<n] A = map f [0..<n] @ drop n A"
  using assms
proof (induction n)
  case 0
  show ?case by simp
next
  case (Suc n)
  then have "drop n A = A ! n # drop (Suc n) A"
    by (simp add: Cons_nth_drop_Suc)
  with Suc show ?case
    by (simp add: list_update_append)
qed

lemma fold_update_all:
  "length A = n \<Longrightarrow> fold (\<lambda>i A. A[i := f i]) [0..<n] A = map f [0..<n]"
  by (simp add: fold_update_upt)

subsection \<open>Lists\<close>

lemma list_length_3_induct [case_names Nil One Two Three]:
  assumes "P []" and "\<And>a. P [a]" and "\<And>a b. P [a, b]"
    and "\<And>a b c xs. P xs \<Longrightarrow> P (a # b # c # xs)"
  shows "P xs"
proof (induction xs rule: length_induct)
  case (1 xs)
  show ?case
  proof (cases xs rule: remdups_adj.cases)
    case (3 a b ys)
    then show ?thesis
      using assms "1" by (cases ys) auto
  qed (use assms in auto)
qed

lemma filter_upt_unique:
  "k < n \<Longrightarrow> \<forall>x < n. P x = (x = k) \<Longrightarrow> filter P [0..<n] = [k]"
proof (induction n)
  case (Suc n)
  then show ?case
    by (cases "k = n") (auto simp: filter_empty_conv)
qed simp

lemma upt_4: "[0..<4] = [0, 1, 2, 3 :: nat]"
  by code_simp

lemma upt_16: "[0..<16] = [0, 1, 2, 3, 4, 5, 6, 7, 8, 9, 10, 11, 12, 13, 14, 15 :: nat]"
  by code_simp

lemma list_16E:
  assumes "length s = 16"
  obtains a0 a1 a2 a3 b0 b1 b2 b3 c0 c1 c2 c3 d0 d1 d2 d3 where
    "s = [a0, a1, a2, a3, b0, b1, b2, b3, c0, c1, c2, c3, d0, d1, d2, d3]"
  using assms by (auto simp: length_Suc_conv eval_nat_numeral)

lemma map_upt_nth: "i < n \<Longrightarrow> map f [0..<n] ! i = f i"
  by simp

lemma all_less_4: "(\<forall>k < 4. P k) \<longleftrightarrow> P 0 \<and> P 1 \<and> P 2 \<and> P (3 :: nat)"
  by (simp add: eval_nat_numeral All_less_Suc conj_ac)

lemma all_less_6: "(\<forall>k < 6. P k) \<longleftrightarrow> P 0 \<and> P 1 \<and> P 2 \<and> P 3 \<and> P 4 \<and> P (5 :: nat)"
  by (simp add: eval_nat_numeral All_less_Suc conj_ac)

lemma all_less_8:
  "(\<forall>k < 8. P k) \<longleftrightarrow> P 0 \<and> P 1 \<and> P 2 \<and> P 3 \<and> P 4 \<and> P 5 \<and> P 6 \<and> P (7 :: nat)"
  by (simp add: eval_nat_numeral All_less_Suc conj_ac)

lemma funpow_4: "(f ^^ 4) x = f (f (f (f x)))"
  by (simp add: eval_nat_numeral)

end
