(* ===== verification/OsWorld.thy ===== *)
theory OsWorld
  imports Prelude "HOL-Library.State_Monad"
begin

text \<open>
  The operating system as the C code sees it.  A system call is an event appended to a trace, and its
  result is taken from what the environment supplies: a queue of integer results, a queue of byte
  strings for the calls that deliver data, a queue of clock readings, and two functions for name
  lookup.  Theorems quantify over all of these, so they hold whatever the system answers; a queue that
  has run out answers with an error.  A routine that calls the system is a computation of the state
  monad over a record that extends \<open>os\<close>.
\<close>

type_synonym fd = int

datatype event =
    Socket_call bool                        \<comment> \<open>\<open>True\<close> for a datagram socket\<close>
  | Bind_call fd u32 u16
  | Connect_call fd u32 u16
  | Getsockname_call fd
  | Getpeername_call fd
  | Close_call fd
  | Sleep_call nat                          \<comment> \<open>microseconds\<close>
  | Poll_call fd int
  | Read_call fd nat
  | Write_call fd bytes
  | Malloc_call nat
  | Realloc_call int int
  | Free_call int
  | Free_kd_call nat                        \<comment> \<open>a table of so many blocks\<close>
  | Free_text_call string
  | Rand_call nat
  | Thread_call string
  | Pipe_call
  | Fork_call
  | Dup2_call fd fd
  | Exec_call string
  | Open_call string
  | Listen_call fd
  | Accept_call fd
  | Fcntl_call fd
  | Notify_call bool
  | Active_call string
  | Select_call "fd list" "fd list" "int \<times> int"
  | Print_call string

record os =
  answers :: "int list"
  inputs :: "bytes option list"
  clock :: "(u32 \<times> u32) list"
  hosts :: "string \<Rightarrow> u32 option"
  inet_addr :: "string \<Rightarrow> u32"
  trace :: "event list"

definition emit :: "event \<Rightarrow> ('a os_scheme, unit) state" where
  "emit e = State (\<lambda>w. ((), w\<lparr>trace := trace w @ [e]\<rparr>))"

text \<open>A call whose result is an \<^verbatim>\<open>int\<close>.\<close>

definition sys :: "event \<Rightarrow> ('a os_scheme, int) state" where
  "sys e = State (\<lambda>w. case answers w of
       [] \<Rightarrow> (-1, w\<lparr>trace := trace w @ [e]\<rparr>)
     | a # as \<Rightarrow> (a, w\<lparr>answers := as, trace := trace w @ [e]\<rparr>))"

text \<open>\<open>read (fd, buf, n)\<close>: the number of bytes delivered, which is at most \<open>n\<close> and zero at the end of
  the stream, or -1, and the bytes.\<close>

definition sys_read :: "fd \<Rightarrow> nat \<Rightarrow> ('a os_scheme, int \<times> bytes) state" where
  "sys_read fd n = State (\<lambda>w. case inputs w of
       [] \<Rightarrow> ((0, []), w\<lparr>trace := trace w @ [Read_call fd n]\<rparr>)
     | None # rest \<Rightarrow> ((-1, []), w\<lparr>inputs := rest, trace := trace w @ [Read_call fd n]\<rparr>)
     | Some bs # rest \<Rightarrow>
         ((int (length (take n bs)), take n bs),
          w\<lparr>inputs := rest, trace := trace w @ [Read_call fd n]\<rparr>))"

text \<open>\<open>RAND_bytes (buf, n)\<close>: one or zero, and the contents of the buffer afterwards.\<close>

definition rand_bytes :: "nat \<Rightarrow> ('a os_scheme, int \<times> bytes) state" where
  "rand_bytes n = do {
     r \<leftarrow> sys (Rand_call n);
     bs \<leftarrow> State (\<lambda>w. case inputs w of
         Some bs # rest \<Rightarrow> (bs, w\<lparr>inputs := rest\<rparr>)
       | None # rest \<Rightarrow> ([], w\<lparr>inputs := rest\<rparr>)
       | [] \<Rightarrow> ([], w));
     State_Monad.return (r, take n (bs @ replicate n 0))
   }"

text \<open>Further results of the last call: \<^verbatim>\<open>errno\<close>, or the second descriptor of a pipe.\<close>

definition result2 :: "('a os_scheme, int) state" where
  "result2 = State (\<lambda>w. case answers w of [] \<Rightarrow> (-1, w) | a # as \<Rightarrow> (a, w\<lparr>answers := as\<rparr>))"

definition gettimeofday :: "('a os_scheme, u32 \<times> u32) state" where
  "gettimeofday = State (\<lambda>w. case clock w of [] \<Rightarrow> ((0, 0), w) | t # ts \<Rightarrow> (t, w\<lparr>clock := ts\<rparr>))"

definition gethostbyname :: "string \<Rightarrow> ('a os_scheme, u32 option) state" where
  "gethostbyname h = State (\<lambda>w. (hosts w h, w))"

definition inet_addr_of :: "string \<Rightarrow> ('a os_scheme, u32) state" where
  "inet_addr_of h = State (\<lambda>w. (inet_addr w h, w))"

text \<open>Text is a list of characters, a byte of a stream is read as a character, and a character array holds
  the string up to its first null.\<close>

abbreviation NUL :: char where
  "NUL \<equiv> CHR 0x00"

definition chr8 :: "u8 \<Rightarrow> char" where
  "chr8 b = char_of (unat b)"

definition ord8 :: "char \<Rightarrow> u8" where
  "ord8 c = of_nat (of_char c)"

definition cstr :: "string \<Rightarrow> string" where
  "cstr buf = takeWhile (\<lambda>c. c \<noteq> NUL) buf"

text \<open>The descriptors closed in a part of the trace.\<close>

definition closed_fds :: "event list \<Rightarrow> fd list" where
  "closed_fds es = concat (map (\<lambda>e. case e of Close_call c \<Rightarrow> [c] | _ \<Rightarrow> []) es)"

text \<open>A system with given answers and inputs, and a stream delivered one byte at a time.\<close>

definition quiet_os :: "int list \<Rightarrow> bytes option list \<Rightarrow> os" where
  "quiet_os as ins = \<lparr>answers = as, inputs = ins, clock = [], hosts = (\<lambda>_. None),
     inet_addr = (\<lambda>_. 0xFFFFFFFF), trace = []\<rparr>"

text \<open>Every call answered from the queue succeeds: a poll finds data, an allocation finds memory.\<close>

definition benign :: "'a os_scheme \<Rightarrow> bool" where
  "benign w \<longleftrightarrow> 0 \<notin> set (answers w)"

abbreviation feed :: "string \<Rightarrow> bytes option list" where
  "feed s \<equiv> map (\<lambda>c. Some [ord8 c]) s"

lemma chr8_ord8 [simp]: "chr8 (ord8 c) = c"
  by (simp add: chr8_def ord8_def unat_of_nat char_of_take_bit_eq)

lemma ord8_chr8 [simp]: "ord8 (chr8 b) = b"
  using unat_u8_less [of b] by (simp add: chr8_def ord8_def)

lemma cstr_cut: "NUL \<notin> set s \<Longrightarrow> cstr (s @ NUL # t) = s"
  by (induction s) (auto simp: cstr_def)

subsection \<open>Running the calls\<close>

named_theorems os_simps \<open>running the primitive calls\<close>

lemma run_emit [os_simps, simp]: "run_state (emit e) w = ((), w\<lparr>trace := trace w @ [e]\<rparr>)"
  by (simp add: emit_def)

lemma run_gettimeofday [os_simps]:
  "run_state gettimeofday w = (case clock w of [] \<Rightarrow> ((0, 0), w) | t # ts \<Rightarrow> (t, w\<lparr>clock := ts\<rparr>))"
  by (simp add: gettimeofday_def)

lemma run_gethostbyname [os_simps, simp]: "run_state (gethostbyname h) w = (hosts w h, w)"
  by (simp add: gethostbyname_def)

lemma run_inet_addr_of [os_simps, simp]: "run_state (inet_addr_of h) w = (inet_addr w h, w)"
  by (simp add: inet_addr_of_def)

text \<open>A call appends its event to the trace and touches nothing else but the queue it reads.\<close>

lemma run_sys_cases:
  obtains r w' where "run_state (sys e) w = (r, w')" and "trace w' = trace w @ [e]"
    and "inputs w' = inputs w" and "hosts w' = hosts w" and "inet_addr w' = inet_addr w"
    and "clock w' = clock w" and "os.more w' = os.more w"
proof
  let ?p = "run_state (sys e) w"
  show "?p = (fst ?p, snd ?p)" by simp
qed (simp_all add: sys_def split: list.split)

lemma run_sys_read_cases:
  obtains r bs w' where "run_state (sys_read fd n) w = ((r, bs), w')"
    and "trace w' = trace w @ [Read_call fd n]" and "r = -1 \<and> bs = [] \<or> r = int (length bs)"
    and "length bs \<le> n" and "answers w' = answers w" and "os.more w' = os.more w"
proof
  let ?p = "run_state (sys_read fd n) w"
  show "?p = ((fst (fst ?p), snd (fst ?p)), snd ?p)" by simp
qed (auto simp: sys_read_def split: list.split option.split)

lemma run_sys_benign:
  assumes "benign w"
  obtains r w' where "run_state (sys e) w = (r, w')" and "r \<noteq> 0" and "benign w'"
    and "inputs w' = inputs w"
proof
  let ?p = "run_state (sys e) w"
  show "?p = (fst ?p, snd ?p)" by simp
qed (use assms in \<open>auto simp: benign_def sys_def split: list.split\<close>)

end
