(* ===== verification/AexclLib.thy ===== *)
theory AexclLib
  imports OsWorld
begin

text \<open>
  The helper library \<^verbatim>\<open>src/jni/raop_play/aexcl_lib.c\<close> and \<^verbatim>\<open>aexcl_lib.h\<close>: sockets, the line reader,
  key/data tables, string clean-up, buffer growth and process start.  A character buffer is a list the
  size of the array, written in place, so that a routine that does not terminate its string shows.
\<close>

definition EAGAIN :: int where
  "EAGAIN = 11"

definition htons :: "u16 \<Rightarrow> u16" where
  "htons p = push_bit 8 p OR drop_bit 8 p"

subsection \<open>Sockets\<close>

text \<open>\<open>connect\<close> is tried twice, with a tenth of a second between.\<close>

definition get_tcp_connect :: "fd \<Rightarrow> u32 \<Rightarrow> u16 \<Rightarrow> ('a os_scheme, int) state" where
  "get_tcp_connect sd addr port = do {
     r \<leftarrow> sys (Connect_call sd addr port);
     if r \<noteq> 0 then do {
       emit (Sleep_call 100000);
       r \<leftarrow> sys (Connect_call sd addr port);
       if r \<noteq> 0 then State_Monad.return (-1) else State_Monad.return 0
     } else State_Monad.return 0
   }"

definition get_tcp_connect_by_host :: "fd \<Rightarrow> string \<Rightarrow> u16 \<Rightarrow> ('a os_scheme, int) state" where
  "get_tcp_connect_by_host sd host destport = do {
     h \<leftarrow> gethostbyname host;
     case h of
       Some a \<Rightarrow> get_tcp_connect sd a (htons destport)
     | None \<Rightarrow> do {
         a \<leftarrow> inet_addr_of host;
         if a = 0xFFFFFFFF then State_Monad.return (-1)
         else get_tcp_connect sd a (htons destport)
       }
   }"

definition prefix_of :: "string \<Rightarrow> string \<Rightarrow> bool" where
  "prefix_of p s \<longleftrightarrow> take (length p) s = p"

text \<open>The address part of \<open>bind_host\<close>; \<open>None\<close> is the error return.\<close>

definition bind_addr :: "string option \<Rightarrow> u32 \<Rightarrow> ('a os_scheme, u32 option) state" where
  "bind_addr hostname ulAddr = (case hostname of
       Some hn \<Rightarrow> do {
         h \<leftarrow> gethostbyname hn;
         case h of
           Some a \<Rightarrow> State_Monad.return (Some a)
         | None \<Rightarrow>
             if prefix_of ''255.255.255.255'' hn then State_Monad.return (Some (-1))
             else do {
               a \<leftarrow> inet_addr_of hn;
               State_Monad.return (if a = 0xFFFFFFFF then None else Some a)
             }
       }
     | None \<Rightarrow> State_Monad.return (Some (if ulAddr \<noteq> 0 then ulAddr else 0)))"

definition bind_host :: "fd \<Rightarrow> string option \<Rightarrow> u32 \<Rightarrow> u16 \<Rightarrow> ('a os_scheme, int \<times> u16) state" where
  "bind_host sd hostname ulAddr port = do {
     addr \<leftarrow> bind_addr hostname ulAddr;
     case addr of
       None \<Rightarrow> State_Monad.return (-1, port)
     | Some a \<Rightarrow> do {
         r \<leftarrow> sys (Bind_call sd a (htons port));
         if r < 0 then State_Monad.return (-1, port)
         else if port = 0 then do {
           p \<leftarrow> sys (Getsockname_call sd);
           State_Monad.return (0, htons (of_int p))
         } else State_Monad.return (0, port)
       }
   }"

definition open_tcp_socket :: "string option \<Rightarrow> u16 \<Rightarrow> ('a os_scheme, fd \<times> u16) state" where
  "open_tcp_socket hostname port = do {
     sd \<leftarrow> sys (Socket_call False);
     if sd < 0 then State_Monad.return (-1, port)
     else do {
       (r, port) \<leftarrow> bind_host sd hostname 0 port;
       if r \<noteq> 0 then do { emit (Close_call sd); State_Monad.return (-1, port) }
       else State_Monad.return (sd, port)
     }
   }"

definition open_udp_socket :: "string option \<Rightarrow> u16 \<Rightarrow> ('a os_scheme, fd \<times> u16) state" where
  "open_udp_socket hostname port = do {
     sd \<leftarrow> sys (Socket_call True);
     if sd < 0 then State_Monad.return (-1, port)
     else do {
       (r, port) \<leftarrow> bind_host sd hostname 0 port;
       if r \<noteq> 0 then do { emit (Close_call sd); State_Monad.return (-1, port) }
       else State_Monad.return (sd, port)
     }
   }"

subsection \<open>The line reader\<close>

text \<open>\<open>k\<close> counts the passes left of the loop over \<open>i\<close>; \<open>pos\<close> is how far \<open>line\<close> has advanced.\<close>

fun read_line_loop ::
  "fd \<Rightarrow> int \<Rightarrow> int \<Rightarrow> bool \<Rightarrow> nat \<Rightarrow> nat \<Rightarrow> string \<Rightarrow> ('a os_scheme, int \<times> string) state" where
  "read_line_loop fd maxlen timeout no_poll 0 pos buf =
     State_Monad.return (int pos, buf[pos := NUL])"
| "read_line_loop fd maxlen timeout no_poll (Suc k) pos buf = do {
     p \<leftarrow> (if no_poll then State_Monad.return 1 else sys (Poll_call fd timeout));
     if p = 0 then State_Monad.return (0, buf)
     else do {
       (rval, bs) \<leftarrow> sys_read fd 1;
       if rval = -1 then do {
         e \<leftarrow> result2;
         State_Monad.return (if e = EAGAIN then 0 else -1, buf)
       }
       else if rval = 0 then State_Monad.return (-1, buf)
       else
         let ch = chr8 (hd bs) in
         if ch = CHR 0x0A then State_Monad.return (int pos, buf[pos := NUL])
         else if ch = CHR 0x0D then read_line_loop fd maxlen timeout no_poll k pos buf
         else if int (pos + 1) \<ge> maxlen - 1
         then State_Monad.return (int (pos + 1), buf[pos := ch, pos + 1 := NUL])
         else read_line_loop fd maxlen timeout no_poll k (pos + 1) (buf[pos := ch])
     }
   }"

definition read_line ::
  "fd \<Rightarrow> string \<Rightarrow> int \<Rightarrow> int \<Rightarrow> bool \<Rightarrow> ('a os_scheme, int \<times> string) state" where
  "read_line fd buf maxlen timeout no_poll =
     read_line_loop fd maxlen timeout no_poll (nat maxlen) 0 (buf[0 := NUL])"

fun lf_to_null_loop :: "string \<Rightarrow> nat \<Rightarrow> nat \<Rightarrow> int \<times> string" where
  "lf_to_null_loop s i 0 = (-1, s)"
| "lf_to_null_loop s i (Suc k) =
     (if s ! i = CHR 0x0A then (int i, s[i := NUL])
      else if s ! i = NUL then (int i, s)
      else lf_to_null_loop s (Suc i) k)"

definition lf_to_null :: "string \<Rightarrow> nat \<Rightarrow> int \<times> string" where
  "lf_to_null sline linelen = lf_to_null_loop sline 0 linelen"

subsection \<open>Key/data tables\<close>

text \<open>A table is an array of entries ended by one without a key; \<open>None\<close> is the null pointer.\<close>

record key_data =
  kd_key :: string
  kd_data :: "string option"

fun kd_lookup_loop :: "key_data list \<Rightarrow> string \<Rightarrow> string option" where
  "kd_lookup_loop [] key = None"
| "kd_lookup_loop (e # kd) key = (if kd_key e = key then kd_data e else kd_lookup_loop kd key)"

definition kd_lookup :: "key_data list option \<Rightarrow> string \<Rightarrow> string option" where
  "kd_lookup kd key = (case kd of None \<Rightarrow> None | Some es \<Rightarrow> kd_lookup_loop es key)"

datatype block = Key_block string | Data_block string | Table_block

text \<open>The blocks handed to \<open>free\<close>, in order; \<open>free (NULL)\<close> frees nothing.\<close>

definition free_kd :: "key_data list option \<Rightarrow> block list" where
  "free_kd kd = (case kd of None \<Rightarrow> []
     | Some es \<Rightarrow>
         concat (map (\<lambda>e. Key_block (kd_key e) #
           (case kd_data e of None \<Rightarrow> [] | Some d \<Rightarrow> [Data_block d])) es) @ [Table_block])"

subsection \<open>Strings and buffers\<close>

text \<open>The array holds the string, its null and whatever follows; removing a character moves the rest,
  the null included, one place down.\<close>

definition shift_down :: "nat \<Rightarrow> nat \<Rightarrow> string \<Rightarrow> string" where
  "shift_down i len str = fold (\<lambda>j s. s[j := s ! (j + 1)]) [i..<len] str"

function remove_char_loop :: "char \<Rightarrow> string \<Rightarrow> nat \<Rightarrow> nat \<Rightarrow> int \<Rightarrow> int \<times> string" where
  "remove_char_loop rc str i len num =
     (if i < len then
        if str ! i = rc then remove_char_loop rc (shift_down i len str) i (len - 1) (num + 1)
        else remove_char_loop rc str (i + 1) len num
      else (num, str))"
  by pat_completeness auto

termination
  by (relation "measure (\<lambda>(rc, str, i, len, num). len - i)") auto

definition remove_char_from_string :: "string \<Rightarrow> char \<Rightarrow> int \<times> string" where
  "remove_char_from_string str rc = remove_char_loop rc str 0 (length (cstr str)) 0"

fun round_size :: "nat \<Rightarrow> int \<Rightarrow> int \<Rightarrow> int" where
  "round_size 0 n newsize = newsize"
| "round_size (Suc k) n newsize = (if newsize \<le> n then n else round_size k (2 * n) newsize)"

text \<open>The pointer is cleared before it is handed to \<open>realloc\<close>.  The first component of the result is
  the return value, the second the pointer afterwards.\<close>

definition realloc_memory :: "int \<Rightarrow> int \<Rightarrow> ('a os_scheme, int \<times> int) state" where
  "realloc_memory p newsize = do {
     np \<leftarrow> sys (Realloc_call 0 (round_size 8 16 newsize));
     if np = 0 then State_Monad.return (-1, 0) else State_Monad.return (0, np)
   }"

definition GET_BIGENDIAN_INT :: "bytes \<Rightarrow> u32" where
  "GET_BIGENDIAN_INT x = push_bit 24 (ucast (x ! 0)) OR push_bit 16 (ucast (x ! 1))
     OR push_bit 8 (ucast (x ! 2)) OR ucast (x ! 3)"

definition get_10munit_time :: "('a os_scheme, int) state" where
  "get_10munit_time = do {
     (sec, usec) \<leftarrow> gettimeofday;
     State_Monad.return (uint (sec AND 0x00FFFFFF) * 100 + uint usec div 10000)
   }"

subsection \<open>Starting a process\<close>

definition make_pipe :: "('a os_scheme, fd \<times> fd) state" where
  "make_pipe = do { r \<leftarrow> sys Pipe_call; w \<leftarrow> result2; State_Monad.return (r, w) }"

definition child_side ::
  "string \<Rightarrow> bool \<Rightarrow> bool \<Rightarrow> bool \<Rightarrow> fd \<times> fd \<Rightarrow> fd \<times> fd \<Rightarrow> fd \<times> fd \<Rightarrow> ('a os_scheme, unit) state" where
  "child_side prog infd outfd errfd infds outfds errfds = do {
     (if infd then emit (Dup2_call (snd infds) 1) else emit (Close_call (snd infds)));
     emit (Close_call (fst infds));
     (if errfd then emit (Dup2_call (snd errfds) 2) else emit (Close_call (snd errfds)));
     emit (Close_call (fst infds));
     (if outfd then emit (Dup2_call (fst outfds) 0) else emit (Close_call (fst outfds)));
     emit (Close_call (snd outfds));
     emit (Exec_call prog)
   }"

definition parent_side ::
  "bool \<Rightarrow> bool \<Rightarrow> bool \<Rightarrow> fd \<times> fd \<Rightarrow> fd \<times> fd \<Rightarrow> fd \<times> fd \<Rightarrow>
   ('a os_scheme, fd option \<times> fd option \<times> fd option) state" where
  "parent_side infd outfd errfd infds outfds errfds = do {
     (if infd then State_Monad.return () else emit (Close_call (fst infds)));
     emit (Close_call (snd infds));
     (if errfd then State_Monad.return () else emit (Close_call (fst errfds)));
     emit (Close_call (snd errfds));
     (if outfd then State_Monad.return () else emit (Close_call (snd outfds)));
     emit (Close_call (fst outfds));
     State_Monad.return
       (if infd then Some (fst infds) else None, if outfd then Some (snd outfds) else None,
        if errfd then Some (fst errfds) else None)
   }"

text \<open>In the child \<open>fork\<close> returns zero, and the call does not come back.\<close>

definition child_start ::
  "string \<Rightarrow> bool \<Rightarrow> bool \<Rightarrow> bool \<Rightarrow>
   ('a os_scheme, (int \<times> fd option \<times> fd option \<times> fd option) option) state" where
  "child_start prog infd outfd errfd = do {
     infds \<leftarrow> make_pipe;
     outfds \<leftarrow> make_pipe;
     errfds \<leftarrow> make_pipe;
     pid \<leftarrow> sys Fork_call;
     if pid = 0 then do {
       child_side prog infd outfd errfd infds outfds errfds;
       State_Monad.return None
     } else do {
       fds \<leftarrow> parent_side infd outfd errfd infds outfds errfds;
       State_Monad.return (Some (pid, fds))
     }
   }"

declare remove_char_loop.simps [simp del]

text \<open>One pass of the reading loop: it ends without touching the buffer, ends the line, or goes on.\<close>

lemma read_line_step:
  assumes "run_state (read_line_loop fd m t np (Suc k) pos buf) w = (res, w')"
  obtains (stop) "fst res \<in> {0, -1}" and "snd res = buf"
  | (eol) "res = (int pos, buf[pos := NUL])"
  | (cr) w1 where "run_state (read_line_loop fd m t np k pos buf) w1 = (res, w')"
  | (full) ch where "m - 1 \<le> int (pos + 1)" and "res = (int (pos + 1), buf[pos := ch, pos + 1 := NUL])"
  | (char) ch w1 where "int (pos + 1) < m - 1"
      and "run_state (read_line_loop fd m t np k (pos + 1) (buf[pos := ch])) w1 = (res, w')"
  using assms by (auto simp: Let_def not_le split: if_splits prod.splits)

lemma read_line_loop_frame:
  assumes "run_state (read_line_loop fd m t np k pos (buf @ rest)) w = (res, w')"
    and "int (pos + 1) < m" and "length buf = nat m"
  shows "\<exists>buf'. snd res = buf' @ rest \<and> length buf' = length buf \<and> - 1 \<le> fst res \<and> fst res < m"
  using assms
proof (induction k arbitrary: pos buf w)
  case 0
  then show ?case by (auto simp: list_update_append)
next
  case (Suc k)
  from Suc.prems(1) show ?case
  proof (cases rule: read_line_step)
    case (cr w1)
    then show ?thesis using Suc by blast
  next
    case (char ch w1)
    have "pos < length buf" using Suc.prems(2,3) by linarith
    then have "(buf @ rest)[pos := ch] = buf[pos := ch] @ rest" by (simp add: list_update_append)
    then show ?thesis
      using Suc.IH [of "pos + 1" "buf[pos := ch]" w1] char Suc.prems(2,3) by simp
  qed (use Suc.prems in \<open>auto simp: list_update_append\<close>)
qed

lemma read_line_loop_ready:
  assumes "np \<or> benign w" and "inputs w = Some [ord8 c] # later"
  shows "\<exists>w'. run_state (read_line_loop fd m t np (Suc k) pos buf) w =
      (if c = CHR 0x0A then ((int pos, buf[pos := NUL]), w')
       else if c = CHR 0x0D then run_state (read_line_loop fd m t np k pos buf) w'
       else if int (pos + 1) \<ge> m - 1 then ((int (pos + 1), buf[pos := c, pos + 1 := NUL]), w')
       else run_state (read_line_loop fd m t np k (pos + 1) (buf[pos := c])) w') \<and>
     inputs w' = later \<and> (benign w \<longrightarrow> benign w')"
proof -
  obtain p w1 where p: "run_state (if np then State_Monad.return 1 else sys (Poll_call fd t)) w = (p, w1)"
      "p \<noteq> 0" "inputs w1 = inputs w" "benign w \<longrightarrow> benign w1"
    using assms(1) by (cases np) (auto elim: run_sys_benign [of w "Poll_call fd t"])
  have "run_state (sys_read fd 1) w1 = ((1, [ord8 c]), w1\<lparr>inputs := later, trace := trace w1 @ [Read_call fd 1]\<rparr>)"
    using p(3) assms(2) by (simp add: sys_read_def)
  then show ?thesis
    using p by (intro exI [of _ "w1\<lparr>inputs := later, trace := trace w1 @ [Read_call fd 1]\<rparr>"])
      (simp add: Let_def benign_def)
qed

lemma read_line_loop_line:
  assumes "inputs w = feed (s @ [CHR 0x0A]) @ later" and "CHR 0x0A \<notin> set s" and "NUL \<notin> set (p @ s)"
    and "length s < k" and "int (length p + length (filter (\<lambda>c. c \<noteq> CHR 0x0D) s)) < m - 1"
    and "take (length p) buf = p" and "nat m \<le> length buf" and "np \<or> benign w"
  shows "\<exists>buf' w'. run_state (read_line_loop fd m t np k (length p) buf) w =
      ((int (length p + length (filter (\<lambda>c. c \<noteq> CHR 0x0D) s)), buf'), w') \<and>
     cstr buf' = p @ filter (\<lambda>c. c \<noteq> CHR 0x0D) s \<and> length buf' = length buf \<and>
     inputs w' = later \<and> (benign w \<longrightarrow> benign w')"
  using assms
proof (induction s arbitrary: p k w buf)
  case Nil
  obtain k' where k: "k = Suc k'" using Nil.prems(4) by (cases k) auto
  have l: "length p < length buf" using Nil.prems(5,7) by auto
  then have "buf[length p := NUL] = p @ NUL # drop (Suc (length p)) buf"
    using Nil.prems(6) by (metis upd_conv_take_nth_drop)
  then have "cstr (buf[length p := NUL]) = p" using Nil.prems(3) by (simp add: cstr_cut)
  then show ?case
    using read_line_loop_ready [OF Nil.prems(8), of "CHR 0x0A" later fd m t k' "length p" buf] Nil.prems(1)
    by (auto simp: k simp del: read_line_loop.simps)
next
  case (Cons c s)
  obtain k' where k: "k = Suc k'" using Cons.prems(4) by (cases k) auto
  have c: "c \<noteq> CHR 0x0A" "c \<noteq> CHR 0x0D \<Longrightarrow> \<not> m - 1 \<le> int (length p + 1)"
    using Cons.prems(2,5) by auto
  have "inputs w = Some [ord8 c] # feed (s @ [CHR 0x0A]) @ later" using Cons.prems(1) by simp
  from read_line_loop_ready [OF Cons.prems(8) this, of fd m t k' "length p" buf]
  obtain w1 where w1: "inputs w1 = feed (s @ [CHR 0x0A]) @ later" "benign w \<longrightarrow> benign w1"
    and st: "run_state (read_line_loop fd m t np (Suc k') (length p) buf) w =
      (if c = CHR 0x0A then ((int (length p), buf[length p := NUL]), w1)
       else if c = CHR 0x0D then run_state (read_line_loop fd m t np k' (length p) buf) w1
       else if int (length p + 1) \<ge> m - 1 then ((int (length p + 1), buf[length p := c, length p + 1 := NUL]), w1)
       else run_state (read_line_loop fd m t np k' (length p + 1) (buf[length p := c])) w1)"
    by (elim exE conjE) blast
  have step: "run_state (read_line_loop fd m t np k (length p) buf) w =
      (if c = CHR 0x0D then run_state (read_line_loop fd m t np k' (length p) buf) w1
       else run_state (read_line_loop fd m t np k' (length (p @ [c])) (buf[length p := c])) w1)"
    unfolding k st using c by simp
  show ?case
  proof (cases "c = CHR 0x0D")
    case True
    then show ?thesis
      unfolding step using Cons.IH [of w1 p k' buf] Cons.prems w1 by (simp add: k) blast
  next
    case False
    have "length p < length buf" using Cons.prems(5,7) by auto
    then have "take (length (p @ [c])) (buf[length p := c]) = p @ [c]"
      using Cons.prems(6) by (simp add: take_Suc_conv_app_nth)
    then show ?thesis
      unfolding step using Cons.IH [of w1 "p @ [c]" k' "buf[length p := c]"] Cons.prems w1 False
      by (simp add: k) blast
  qed
qed

lemma read_line_line:
  assumes "inputs w = feed (s @ [CHR 0x0A]) @ later" and "CHR 0x0A \<notin> set s" and "NUL \<notin> set s"
    and "int (length s) < m" and "int (length (filter (\<lambda>c. c \<noteq> CHR 0x0D) s)) < m - 1"
    and "length buf = nat m" and "np \<or> benign w"
  shows "\<exists>buf' w'. run_state (read_line fd buf m t np) w =
      ((int (length (filter (\<lambda>c. c \<noteq> CHR 0x0D) s)), buf'), w') \<and>
     cstr buf' = filter (\<lambda>c. c \<noteq> CHR 0x0D) s \<and> length buf' = length buf \<and>
     inputs w' = later \<and> (benign w \<longrightarrow> benign w')"
  using read_line_loop_line [of w s later "[]" "nat m" m "buf[0 := NUL]" np fd t] assms
  by (simp add: read_line_def)

text \<open>Each call takes from the input, and one that returns characters takes at least one element.\<close>

lemma sys_inputs [simp]: "inputs (snd (run_state (sys e) w)) = inputs w"
  by (simp add: sys_def split: list.split)

lemma read_line_loop_consumes:
  "run_state (read_line_loop fd m t np k pos buf) w = ((r, b), w') \<Longrightarrow>
   length (inputs w') \<le> length (inputs w) \<and> (int pos < r \<longrightarrow> length (inputs w') < length (inputs w))"
proof (induction k arbitrary: pos buf w)
  case (Suc k)
  obtain p w1 where p: "run_state (if np then State_Monad.return 1 else sys (Poll_call fd t)) w = (p, w1)"
    by (cases "run_state (if np then State_Monad.return 1 else sys (Poll_call fd t)) w")
  have i1: "inputs w1 = inputs w" using p sys_inputs [of "Poll_call fd t" w] by (cases np) auto
  obtain rv bs w2 where rd: "run_state (sys_read fd 1) w1 = ((rv, bs), w2)" by (metis surj_pair)
  have i2: "length (inputs w2) \<le> length (inputs w)" "rv \<noteq> 0 \<longrightarrow> length (inputs w2) < length (inputs w)"
    using rd i1 by (auto simp: sys_read_def split: list.splits option.splits)
  have i3: "inputs (snd (run_state result2 v)) = inputs v" for v :: "'a os_scheme"
    by (simp add: result2_def split: list.split)
  note IH = Suc.IH [of pos buf w2] Suc.IH [of "pos + 1" "buf[pos := chr8 (hd bs)]" w2]
  from Suc.prems p rd i1 i2 i3 [of w2] IH show ?case
    by (auto simp: Let_def split: if_splits prod.splits)
qed auto

lemma read_line_consumes:
  "run_state (read_line fd buf m t np) w = ((r, b), w') \<Longrightarrow>
   length (inputs w') \<le> length (inputs w) \<and> (0 < r \<longrightarrow> length (inputs w') < length (inputs w))"
  using read_line_loop_consumes [of fd m t np "nat m" 0] by (simp add: read_line_def)

subsection \<open>Removing characters\<close>

lemma shift_down_app:
  "shift_down (length a) (length a + length (x # b)) (a @ x # b @ y # t) = a @ b @ y # y # t"
proof (induction b arbitrary: a x)
  case Nil
  show ?case by (simp add: shift_down_def nth_append)
next
  case (Cons z b)
  have "shift_down (length a) (length a + length (x # z # b)) (a @ x # (z # b) @ y # t) =
      shift_down (length (a @ [z])) (length (a @ [z]) + length (z # b)) ((a @ [z]) @ z # b @ y # t)"
    by (simp add: shift_down_def upt_conv_Cons nth_append del: upt_Suc)
  then show ?case using Cons [of "a @ [z]" z] by simp
qed

lemma remove_char_loop_eq:
  "\<exists>t'. remove_char_loop rc (done @ todo @ NUL # t) (length done) (length done + length todo) num =
    (num + int (length (filter (\<lambda>c. c = rc) todo)), done @ filter (\<lambda>c. c \<noteq> rc) todo @ NUL # t')"
proof (induction todo arbitrary: "done" t num)
  case Nil
  show ?case by (simp add: remove_char_loop.simps)
next
  case (Cons c todo)
  let ?s = "done @ (c # todo) @ NUL # t"
  show ?case
  proof (cases "c = rc")
    case True
    have "remove_char_loop rc ?s (length done) (length done + length (c # todo)) num =
        remove_char_loop rc (done @ todo @ NUL # NUL # t) (length done) (length done + length todo) (num + 1)"
      using True shift_down_app [of "done" c todo NUL t]
      by (subst remove_char_loop.simps) (simp add: nth_append)
    then show ?thesis using Cons [of "done" "NUL # t" "num + 1"] True by (simp add: add_ac)
  next
    case False
    have "remove_char_loop rc ?s (length done) (length done + length (c # todo)) num =
        remove_char_loop rc ((done @ [c]) @ todo @ NUL # t) (length (done @ [c]))
          (length (done @ [c]) + length todo) num"
      using False by (subst remove_char_loop.simps) (simp add: nth_append)
    then show ?thesis using Cons [of "done @ [c]" t num] False by simp
  qed
qed

lemma remove_char_string:
  assumes "NUL \<notin> set s"
  shows "\<exists>t'. remove_char_from_string (s @ NUL # t) rc =
    (int (length (filter (\<lambda>c. c = rc) s)), filter (\<lambda>c. c \<noteq> rc) s @ NUL # t')"
  using remove_char_loop_eq [of rc "[]" s t 0] assms
  by (simp add: remove_char_from_string_def cstr_cut)

subsection \<open>Sizes\<close>

lemma round_size_bounds: "0 < n \<Longrightarrow> newsize \<le> round_size k n newsize"
  by (induction k n newsize rule: round_size.induct) auto

lemma round_size_power:
  "newsize \<le> n * 2 ^ k \<Longrightarrow> \<exists>j \<le> k. round_size (Suc k) n newsize = n * 2 ^ j"
proof (induction k arbitrary: n)
  case (Suc k)
  show ?case
  proof (cases "newsize \<le> n")
    case False
    have "newsize \<le> 2 * n * 2 ^ k" using Suc.prems by (simp add: mult_ac)
    from Suc.IH [OF this] obtain j where "j \<le> k" "round_size (Suc k) (2 * n) newsize = 2 * n * 2 ^ j"
      by blast
    then have "Suc j \<le> Suc k" "round_size (Suc (Suc k)) n newsize = n * 2 ^ Suc j"
      using False by (simp_all del: round_size.simps add: round_size.simps(2) [of "Suc k"])
    then show ?thesis by blast
  qed (auto intro: exI [of _ 0])
qed auto

lemma bind_host_trace:
  assumes "run_state (bind_host sd hostname ulAddr port) w = ((r, p), w')"
  shows "\<exists>es. trace w' = trace w @ es \<and> (\<forall>c. Close_call c \<notin> set es) \<and> (port = 0 \<or> p = port)"
  using assms
  by (auto simp: bind_host_def bind_addr_def sys_def split: option.splits if_splits list.splits)

subsection \<open>Properties\<close>



text \<open>A line that fits is delivered whole: when the stream brings \<open>s\<close> and a line feed and the buffer
  has room, with each poll finding data, the result is \<open>s\<close> without its carriage returns, null-terminated, its length is returned, and
  exactly the bytes of the line are consumed.\<close>

lemma read_line_delivers:
  assumes "inputs w = feed (s @ [CHR 0x0A]) @ later" and "CHR 0x0A \<notin> set s" and "NUL \<notin> set s"
    and "int (length s) < maxlen" and "int (length (filter (\<lambda>c. c \<noteq> CHR 0x0D) s)) < maxlen - 1"
    and "length buf = nat maxlen" and "no_poll \<or> benign w"
  shows "\<exists>buf' w'. run_state (read_line fd buf maxlen timeout no_poll) w =
      ((int (length (filter (\<lambda>c. c \<noteq> CHR 0x0D) s)), buf'), w') \<and>
     cstr buf' = filter (\<lambda>c. c \<noteq> CHR 0x0D) s \<and> inputs w' = later"
  using read_line_line [OF assms] by blast

text \<open>\<open>remove_char_from_string\<close> leaves the string without the character and returns how many were
  removed.\<close>

lemma remove_char_filters:
  assumes "remove_char_from_string (s @ NUL # t) rc = (num, b)" and "NUL \<notin> set s"
  shows "cstr b = filter (\<lambda>c. c \<noteq> rc) s \<and> num = int (length s) - int (length (cstr b))"
proof -
  obtain t' where "b = filter (\<lambda>c. c \<noteq> rc) s @ NUL # t'" "num = int (length (filter (\<lambda>c. c = rc) s))"
    using remove_char_string [OF assms(2), of t rc] assms(1) by auto
  moreover have "length (filter (\<lambda>c. c = rc) s) + length (filter (\<lambda>c. c \<noteq> rc) s) = length s"
    using sum_length_filter_compl [of "\<lambda>c. c = rc" s] by simp
  ultimately show ?thesis using assms(2) by (simp add: cstr_cut)
qed

text \<open>Opening a listening or datagram socket never leaks a descriptor: either the new socket is
  returned, still open, or -1 is returned and the socket is closed as the last action; and a port that was
  asked for is not changed.\<close>

lemma open_socket_no_leak:
  assumes "answers w = s # as" and "0 \<le> s" and "open_fn \<in> {open_tcp_socket, open_udp_socket}"
    and "run_state (open_fn hostname port) w = ((sd, p), w')"
  shows "(sd = s \<and> Close_call s \<notin> set (drop (length (trace w)) (trace w')) \<or>
          sd = -1 \<and> last (trace w') = Close_call s) \<and> (port = 0 \<or> p = port)"
proof -
  obtain dgram where rs: "run_state (open_fn hostname port) w =
      run_state (bind_host s hostname 0 port \<bind> (\<lambda>(r, port).
          if r \<noteq> 0 then emit (Close_call s) \<bind> (\<lambda>_. State_Monad.return (- 1, port))
          else State_Monad.return (s, port)))
        (w\<lparr>answers := as, trace := trace w @ [Socket_call dgram]\<rparr>)"
    using assms(1-3) by (auto simp: open_tcp_socket_def open_udp_socket_def sys_def)
  obtain r q w1 where b: "run_state (bind_host s hostname 0 port)
      (w\<lparr>answers := as, trace := trace w @ [Socket_call dgram]\<rparr>) = ((r, q), w1)"
    by (metis surj_pair)
  have "((sd, p), w') = (if r \<noteq> 0 then ((-1, q), w1\<lparr>trace := trace w1 @ [Close_call s]\<rparr>) else ((s, q), w1))"
    using assms(4) unfolding rs by (cases "r = 0") (simp_all add: b)
  then show ?thesis
    using bind_host_trace [OF b] by (auto split: if_splits)
qed

text \<open>In the parent, \<open>child_start\<close> closes exactly the pipe ends it does not hand out, and each once.\<close>

lemma child_start_parent_fds:
  assumes "answers w = [ir, iw, outr, outw, er, ew, pid]" and "pid \<noteq> 0"
    and "distinct [ir, iw, outr, outw, er, ew]"
    and "run_state (child_start prog infd outfd errfd) w = (res, w')"
  shows "res = Some (pid, if infd then Some ir else None, if outfd then Some outw else None,
      if errfd then Some er else None) \<and>
    distinct (closed_fds (drop (length (trace w)) (trace w'))) \<and>
    set (closed_fds (drop (length (trace w)) (trace w'))) = {ir, iw, outr, outw, er, ew} -
      ((if infd then {ir} else {}) \<union> (if outfd then {outw} else {}) \<union> (if errfd then {er} else {}))"
  using assms
  by (cases infd; cases outfd; cases errfd)
    (auto simp: child_start_def make_pipe_def parent_side_def sys_def result2_def closed_fds_def)

text \<open>\<open>realloc_memory\<close> never grows a block: whatever pointer it is given, it asks for a fresh block,
  so the old contents are lost, and it reports failure exactly when none is granted.  The size asked for is
  at least the size wanted, and a power of two up to 2048 when the size wanted is at most 2048.\<close>

lemma realloc_memory_fresh:
  assumes "run_state (realloc_memory ptr newsize) w = ((r, q), w')"
  shows "\<exists>n. trace w' = trace w @ [Realloc_call 0 n] \<and> newsize \<le> n \<and>
    (r = 0 \<and> q \<noteq> 0 \<or> r = -1 \<and> q = 0) \<and> (2048 < newsize \<or> (\<exists>j \<le> 7. n = 16 * 2 ^ j))"
proof -
  have "newsize \<le> round_size 8 16 newsize"
    by (rule round_size_bounds) simp
  moreover have "2048 < newsize \<or> (\<exists>j \<le> 7. round_size 8 16 newsize = 16 * 2 ^ j)"
    using round_size_power [of newsize 16 7] by (auto simp: numeral_eq_Suc)
  ultimately show ?thesis
    using assms by (auto simp: realloc_memory_def sys_def split: list.splits if_splits)
qed

end
