(* ===== verification/CString.thy ===== *)
theory CString
  imports OsWorld
begin

text \<open>
  The functions of the C library on strings that the clients use, and the trimming helpers of
  \<^verbatim>\<open>src/jni/raop_play/rtsp_client.c\<close>.  A string is the list of its characters without the null.
\<close>

subsection \<open>Library functions\<close>

text \<open>\<open>%d\<close> of a non-negative and of any number.\<close>

definition digit :: "nat \<Rightarrow> char" where
  "digit n = char_of (48 + n)"

function dec_nat :: "nat \<Rightarrow> string" where
  "dec_nat n = (if n < 10 then [digit n] else dec_nat (n div 10) @ [digit (n mod 10)])"
  by pat_completeness auto

termination
  by (relation "measure id") auto

definition dec_int :: "int \<Rightarrow> string" where
  "dec_int i = (if i < 0 then CHR ''-'' # dec_nat (nat (- i)) else dec_nat (nat i))"

definition is_space :: "char \<Rightarrow> bool" where
  "is_space c \<longleftrightarrow> c = CHR '' '' \<or> c \<in> set (map char_of [9, 10, 11, 12, 13 :: nat])"

definition is_digit :: "char \<Rightarrow> bool" where
  "is_digit c \<longleftrightarrow> 48 \<le> (of_char c :: nat) \<and> (of_char c :: nat) \<le> 57"

definition digits_value :: "string \<Rightarrow> int" where
  "digits_value s = fold (\<lambda>c v. 10 * v + (of_char c - 48)) s 0"

text \<open>\<open>atoi\<close>: leading white space, an optional sign, and the digits that follow.\<close>

definition atoi :: "string \<Rightarrow> int" where
  "atoi s =
     (let s = dropWhile is_space s
      in case s of
           c # t \<Rightarrow>
             if c = CHR ''-'' then - digits_value (takeWhile is_digit t)
             else if c = CHR ''+'' then digits_value (takeWhile is_digit t)
             else digits_value (takeWhile is_digit s)
         | [] \<Rightarrow> 0)"

text \<open>The tokens \<open>strtok\<close> returns one after the other: the maximal stretches without the delimiter.\<close>

function tokens :: "char \<Rightarrow> string \<Rightarrow> string list" where
  "tokens d s =
     (let s = dropWhile (\<lambda>c. c = d) s
      in if s = [] then [] else takeWhile (\<lambda>c. c \<noteq> d) s # tokens d (dropWhile (\<lambda>c. c \<noteq> d) s))"
  by pat_completeness auto

termination
proof (relation "measure (\<lambda>(d, s). length s)")
  fix d :: char and s t :: string
  assume t: "t = dropWhile (\<lambda>c. c = d) s" and "t \<noteq> []"
  then have "hd t \<noteq> d" using hd_dropWhile [of "\<lambda>c. c = d" s] by simp
  then have "dropWhile (\<lambda>c. c \<noteq> d) t = dropWhile (\<lambda>c. c \<noteq> d) (tl t)"
    using \<open>t \<noteq> []\<close> by (cases t) auto
  then have "length (dropWhile (\<lambda>c. c \<noteq> d) t) \<le> length (tl t)"
    by (simp only: length_dropWhile_le)
  also have "\<dots> < length t" using \<open>t \<noteq> []\<close> by simp
  also have "\<dots> \<le> length s" unfolding t by (rule length_dropWhile_le)
  finally show "((d, dropWhile (\<lambda>c. c \<noteq> d) t), d, s) \<in> measure (\<lambda>(d, s). length s)" by simp
qed simp

text \<open>\<open>strstr (s, c)\<close> for a single character: the text before its first occurrence and after it.\<close>

definition split_at :: "char \<Rightarrow> string \<Rightarrow> (string \<times> string) option" where
  "split_at c s =
     (if c \<in> set s then Some (takeWhile (\<lambda>x. x \<noteq> c) s, tl (dropWhile (\<lambda>x. x \<noteq> c) s)) else None)"

text \<open>\<open>strstr (s, p)\<close>: the text from the first occurrence of \<open>p\<close> on.\<close>

fun find_sub :: "string \<Rightarrow> string \<Rightarrow> string option" where
  "find_sub p [] = (if p = [] then Some [] else None)"
| "find_sub p (c # s) = (if take (length p) (c # s) = p then Some (c # s) else find_sub p s)"

subsection \<open>Trimming\<close>

definition ltrim :: "string \<Rightarrow> string" where
  "ltrim s = dropWhile is_space s"

text \<open>On a string with nothing but white space \<open>rtrim\<close> walks out of it to the left: \<open>None\<close>.\<close>

definition rtrim :: "string \<Rightarrow> string option" where
  "rtrim s = (if \<forall>c \<in> set s. is_space c then None else Some (rev (dropWhile is_space (rev s))))"

definition trim :: "string \<Rightarrow> string option" where
  "trim s = rtrim (ltrim s)"

declare dec_nat.simps [simp del] tokens.simps [simp del]

subsection \<open>Laws\<close>

lemma split_at_app [simp]: "c \<notin> set k \<Longrightarrow> split_at c (k @ c # v) = Some (k, v)"
proof -
  assume "c \<notin> set k"
  then have "takeWhile (\<lambda>x. x \<noteq> c) (k @ c # v) = k" "dropWhile (\<lambda>x. x \<noteq> c) (k @ c # v) = c # v"
    by (induction k) auto
  then show "split_at c (k @ c # v) = Some (k, v)" by (simp add: split_at_def)
qed

lemma tokens_token:
  assumes "t \<noteq> []" and "d \<notin> set t"
  shows "tokens d (t @ d # s) = t # tokens d s" and "tokens d t = [t]"
proof -
  have "dropWhile (\<lambda>c. c = d) (t @ d # s) = t @ d # s"
    "dropWhile (\<lambda>c. c = d) t = t"
    using assms by (cases t; auto)+
  moreover have tok: "takeWhile (\<lambda>c. c \<noteq> d) (t @ d # s) = t" "dropWhile (\<lambda>c. c \<noteq> d) (t @ d # s) = d # s"
    "takeWhile (\<lambda>c. c \<noteq> d) t = t" "dropWhile (\<lambda>c. c \<noteq> d) t = []"
    using assms(2) by (induction t) auto
  moreover have "tokens d (d # s) = tokens d s"
    by (subst (1 2) tokens.simps) simp
  moreover have "tokens d [] = []" by (subst tokens.simps) simp
  ultimately show "tokens d (t @ d # s) = t # tokens d s" "tokens d t = [t]"
    using assms(1) tokens.simps [of d "t @ d # s"] tokens.simps [of d t]
    by (simp_all add: Let_def tok del: dropWhile_eq_Nil_conv takeWhile_eq_all_conv)
qed

lemma digit_value:
  assumes "n < 10"
  shows "is_digit (digit n)" and "of_char (digit n) - 48 = (int n :: int)"
proof -
  have "of_char (digit n) = 48 + n" using assms by (simp add: digit_def)
  then show "is_digit (digit n)" "of_char (digit n) - 48 = (int n :: int)"
    using assms of_nat_of_char [of "digit n", where ?'a = int, symmetric] by (simp_all add: is_digit_def)
qed

lemma dec_nat_digits: "\<forall>c \<in> set (dec_nat n). is_digit c"
proof (induction n rule: dec_nat.induct)
  case (1 n)
  then show ?case
    using digit_value [of n] digit_value [of "n mod 10"] by (subst dec_nat.simps) auto
qed

lemma dec_nat_value: "digits_value (dec_nat n) = int n"
proof (induction n rule: dec_nat.induct)
  case (1 n)
  have "digits_value (s @ [c]) = 10 * digits_value s + (of_char c - 48)" for s c
    by (simp add: digits_value_def)
  then show ?case
    using 1 digit_value [of n] digit_value [of "n mod 10"]
    by (subst dec_nat.simps) (auto simp: digits_value_def zmod_int zdiv_int)
qed

lemma dec_nat_nonempty: "dec_nat n \<noteq> []"
  by (subst dec_nat.simps) simp

lemma digit_not_special: "is_digit c \<Longrightarrow> \<not> is_space c \<and> c \<noteq> CHR ''-'' \<and> c \<noteq> CHR ''+''"
  by (auto simp: is_digit_def is_space_def)

text \<open>Reading back what was printed.\<close>

lemma atoi_dec_nat: "atoi (dec_nat n @ s) = int n" if "s = [] \<or> \<not> is_digit (hd s)"
proof -
  obtain c t where t: "dec_nat n = c # t" using dec_nat_nonempty by (metis neq_Nil_conv)
  have all: "\<forall>c \<in> set (dec_nat n). is_digit c" by (rule dec_nat_digits)
  then have "is_digit c" by (simp add: t)
  then have "dropWhile is_space (dec_nat n @ s) = dec_nat n @ s" "c \<noteq> CHR ''-''" "c \<noteq> CHR ''+''"
    using digit_not_special by (auto simp: t)
  moreover have "takeWhile is_digit (dec_nat n @ s) = dec_nat n"
    using all that by (cases s) (auto simp: takeWhile_append)
  ultimately show ?thesis
    using dec_nat_value [of n] by (simp add: atoi_def t)
qed

end
