(* ===== verification/RtspClient.thy ===== *)
theory RtspClient
  imports AexclLib CString
begin

text \<open>
  The RTSP client \<^verbatim>\<open>src/jni/raop_play/rtsp_client.c\<close>: the table of extra headers, the request text, the
  reader of the response, and the requests themselves.  \<open>None\<close> as the result of an operation stands for
  undefined behaviour of the C code: a null or wild pointer, or a write past the end of an array on the
  stack.  Bytes written past the end of a block of the heap are counted in \<open>overruns\<close> instead, because
  the code goes on after them.
\<close>

subsection \<open>State\<close>

text \<open>\<open>session\<close> points into a table of the response to SETUP; \<open>session_live\<close> tells whether that table
  still exists.  \<open>open_ended\<close> tells that \<open>exthds\<close> has been left without its terminating entry.\<close>

record rtspcl =
  rfd :: fd
  rurl :: string
  cseq :: int
  rkd :: "key_data list option"
  exthds :: "key_data list option"
  session :: "string option"
  transport :: "string option"
  server_port :: u16
  control_port :: u16
  timing_port :: u16
  host_addr :: u32
  local_addr :: u32
  is_udp :: bool
  useragent :: string
  session_live :: bool
  open_ended :: bool
  overruns :: nat

definition fresh_rtspcl :: "bool \<Rightarrow> rtspcl" where
  "fresh_rtspcl udp = \<lparr>rfd = 0, rurl = [], cseq = 0, rkd = None, exthds = None, session = None,
     transport = None, server_port = 0, control_port = 0, timing_port = 0, host_addr = 0,
     local_addr = 0, is_udp = udp, useragent = ''RTSPClient'', session_live = False,
     open_ended = False, overruns = 0\<rparr>"

definition rtspcl_open :: "bool \<Rightarrow> ('a os_scheme, rtspcl option) state" where
  "rtspcl_open udp = do {
     p \<leftarrow> sys (Malloc_call 176);
     State_Monad.return (if p = 0 then None else Some (fresh_rtspcl udp))
   }"

text \<open>Every operation but \<open>rtspcl_open\<close> starts by returning -1 on a null handle.\<close>

definition if_handle ::
  "rtspcl option \<Rightarrow> (rtspcl \<Rightarrow> ('a os_scheme, (int \<times> rtspcl) option) state) \<Rightarrow>
   ('a os_scheme, (int \<times> rtspcl option) option) state" where
  "if_handle p f = (case p of
       None \<Rightarrow> State_Monad.return (Some (-1, None))
     | Some c \<Rightarrow> do { r \<leftarrow> f c; State_Monad.return (map_option (apsnd Some) r) })"

definition rtspcl_get_server_port :: "rtspcl option \<Rightarrow> u16" where
  "rtspcl_get_server_port p = (case p of None \<Rightarrow> -1 | Some c \<Rightarrow> server_port c)"

definition rtspcl_get_timing_port :: "rtspcl option \<Rightarrow> u16" where
  "rtspcl_get_timing_port p = (case p of None \<Rightarrow> -1 | Some c \<Rightarrow> timing_port c)"

definition rtspcl_get_control_port :: "rtspcl option \<Rightarrow> u16" where
  "rtspcl_get_control_port p = (case p of None \<Rightarrow> -1 | Some c \<Rightarrow> control_port c)"

definition rtspcl_set_useragent :: "rtspcl option \<Rightarrow> string \<Rightarrow> int \<times> rtspcl option" where
  "rtspcl_set_useragent p name = (case p of
       None \<Rightarrow> (-1, None)
     | Some c \<Rightarrow> (0, Some (c\<lparr>useragent := name\<rparr>)))"

subsection \<open>Extra headers\<close>

abbreviation DELETED :: char where
  "DELETED \<equiv> CHR 0xFF"

definition deleted :: "key_data \<Rightarrow> bool" where
  "deleted e \<longleftrightarrow> kd_key e \<noteq> [] \<and> hd (kd_key e) = DELETED"

text \<open>The first entry that is marked, or the terminating one.\<close>

definition free_index :: "key_data list \<Rightarrow> nat" where
  "free_index es = length (takeWhile (\<lambda>e. \<not> deleted e) es)"

text \<open>Bytes that \<open>strcpy\<close> writes past a block that was allocated for \<open>strlen (s)\<close>.\<close>

definition overrun :: "string \<Rightarrow> nat" where
  "overrun s = nat (int (length s) + 1 - round_size 8 16 (int (length s)))"

definition place_header :: "nat \<Rightarrow> key_data list \<Rightarrow> string \<Rightarrow> string \<Rightarrow> key_data list" where
  "place_header i es key data = take i es @ [\<lparr>kd_key = key, kd_data = Some data\<rparr>]"

text \<open>Both copies, and the terminating entry written behind the new one.  When the second allocation
  fails the new entry has no data and nothing is written behind it.\<close>

definition put_exthd ::
  "rtspcl \<Rightarrow> key_data list \<Rightarrow> nat \<Rightarrow> string \<Rightarrow> string \<Rightarrow> ('a os_scheme, int \<times> rtspcl) state" where
  "put_exthd c es i key data = do {
     (r, q) \<leftarrow> realloc_memory 0 (int (length key));
     if r \<noteq> 0 then State_Monad.return (-1, c\<lparr>exthds := Some (take i es), open_ended := False\<rparr>)
     else do {
       let c = c\<lparr>overruns := overruns c + overrun key\<rparr>;
       (r, q) \<leftarrow> realloc_memory 0 (int (length data));
       if r \<noteq> 0 then
         State_Monad.return (-1, c\<lparr>
           exthds := Some (take i es @ \<lparr>kd_key = key, kd_data = None\<rparr> # drop (Suc i) es),
           open_ended := (i = length es)\<rparr>)
       else
         State_Monad.return (0, c\<lparr>overruns := overruns c + overrun data,
           exthds := Some (place_header i es key data),
           open_ended := False\<rparr>)
     }
   }"

text \<open>With sixteen entries and none of them marked the code reads the first byte of the terminating
  entry's key, which is null.\<close>

definition rtspcl_add_exthds ::
  "rtspcl option \<Rightarrow> string \<Rightarrow> string \<Rightarrow> ('a os_scheme, (int \<times> rtspcl option) option) state" where
  "rtspcl_add_exthds p key data = if_handle p (\<lambda>c. case exthds c of
       None \<Rightarrow> do {
         (r, q) \<leftarrow> realloc_memory 0 (17 * 8 * 2);
         if r \<noteq> 0 then State_Monad.return (Some (-1, c))
         else do { r \<leftarrow> put_exthd c [] 0 key data; State_Monad.return (Some r) }
       }
     | Some es \<Rightarrow>
         let i = free_index es in
         if i = length es \<and> (open_ended c \<or> i \<noteq> 0 \<and> i mod 16 = 0) then State_Monad.return None
         else do { r \<leftarrow> put_exthd c es i key data; State_Monad.return (Some r) })"

fun mark_del :: "string \<Rightarrow> key_data list \<Rightarrow> key_data list option" where
  "mark_del key [] = None"
| "mark_del key (e # es) =
     (if kd_key e = key then Some (e\<lparr>kd_key := DELETED # tl (kd_key e)\<rparr> # es)
      else map_option ((#) e) (mark_del key es))"

definition rtspcl_mark_del_exthds ::
  "rtspcl option \<Rightarrow> string \<Rightarrow> (int \<times> rtspcl option) option" where
  "rtspcl_mark_del_exthds p key = (case p of
       None \<Rightarrow> Some (-1, None)
     | Some c \<Rightarrow> (case exthds c of
         None \<Rightarrow> Some (-1, p)
       | Some es \<Rightarrow> (case mark_del key es of
           Some es' \<Rightarrow> Some (0, Some (c\<lparr>exthds := Some es'\<rparr>))
         | None \<Rightarrow> if open_ended c then None else Some (-1, p))))"

text \<open>The index of the loop that frees the entries never moves: with an entry in the table its key is
  freed again and again.\<close>

definition rtspcl_remove_all_exthds :: "rtspcl option \<Rightarrow> (int \<times> rtspcl option) option" where
  "rtspcl_remove_all_exthds p = (case p of
       None \<Rightarrow> Some (-1, None)
     | Some c \<Rightarrow> (case exthds c of
         Some (e # es) \<Rightarrow> None
       | _ \<Rightarrow> Some (0, Some (c\<lparr>exthds := None\<rparr>))))"

subsection \<open>The connection\<close>

text \<open>The four bytes of an address in network order, the first in the low byte of the word.\<close>

definition inet_ntoa :: "u32 \<Rightarrow> string" where
  "inet_ntoa a =
     dec_nat (unat (a AND 255)) @ ''.'' @ dec_nat (unat (drop_bit 8 a AND 255)) @ ''.'' @
     dec_nat (unat (drop_bit 16 a AND 255)) @ ''.'' @ dec_nat (unat (drop_bit 24 a AND 255))"

text \<open>The url is printed into 128 bytes.\<close>

definition rtspcl_connect ::
  "rtspcl option \<Rightarrow> string \<Rightarrow> u16 \<Rightarrow> string \<Rightarrow>
   ('a os_scheme, (int \<times> rtspcl option) option) state" where
  "rtspcl_connect p host destport sid = if_handle p (\<lambda>c. do {
     let c = (if is_udp c then c\<lparr>session := None\<rparr> else c);
     (sd, myport) \<leftarrow> open_tcp_socket None 0;
     let c = c\<lparr>rfd := sd\<rparr>;
     if sd = -1 then State_Monad.return (Some (-1, c))
     else do {
       r \<leftarrow> get_tcp_connect_by_host sd host destport;
       if r \<noteq> 0 then State_Monad.return (Some (-1, c))
       else do {
         la \<leftarrow> sys (Getsockname_call sd);
         let u = ''rtsp://'' @ inet_ntoa (of_int la) @ ''/'' @ sid;
         ha \<leftarrow> sys (Getpeername_call sd);
         State_Monad.return
           (if length u \<ge> 128 then None
            else Some (0, c\<lparr>local_addr := of_int la, rurl := u, host_addr := of_int ha\<rparr>))
       }
     }
   })"

definition rtspcl_local_ip :: "rtspcl option \<Rightarrow> string option" where
  "rtspcl_local_ip p = (case p of None \<Rightarrow> None | Some c \<Rightarrow> Some (inet_ntoa (local_addr c)))"

definition rtspcl_disconnect :: "rtspcl option \<Rightarrow> ('a os_scheme, int \<times> rtspcl option) state" where
  "rtspcl_disconnect p = (case p of
       None \<Rightarrow> State_Monad.return (-1, None)
     | Some c \<Rightarrow> do {
         (if rfd c > 0 then emit (Close_call (rfd c)) else State_Monad.return ());
         State_Monad.return (0, Some (c\<lparr>rfd := 0\<rparr>))
       })"

text \<open>The headers are removed through the pointer that has just been cleared, so they stay allocated.
  The second component is the handle passed on to \<open>rtspcl_remove_all_exthds\<close>.\<close>

definition rtspcl_close :: "rtspcl option \<Rightarrow> ('a os_scheme, (int \<times> rtspcl option) option) state" where
  "rtspcl_close p = (case p of
       None \<Rightarrow> State_Monad.return (Some (-1, None))
     | Some c \<Rightarrow> do {
         (r, q) \<leftarrow> rtspcl_disconnect p;
         emit (Free_call 1);
         State_Monad.return (case rtspcl_remove_all_exthds None of
             None \<Rightarrow> None
           | Some (r, q) \<Rightarrow> Some (0, q))
       })"

subsection \<open>The request\<close>

abbreviation CRLF :: string where
  "CRLF \<equiv> [CHR 0x0D, CHR 0x0A]"

definition text_of :: "string option \<Rightarrow> string" where
  "text_of d = (case d of None \<Rightarrow> ''(null)'' | Some t \<Rightarrow> t)"

definition header_text :: "string \<Rightarrow> string \<Rightarrow> string" where
  "header_text key data = key @ '': '' @ data @ CRLF"

definition request_line :: "rtspcl \<Rightarrow> string \<Rightarrow> string option \<Rightarrow> string" where
  "request_line c cmd url =
     (if is_udp c then
        case url of
          None \<Rightarrow> cmd @ '' '' @ rurl c @ '' RTSP/1.0'' @ CRLF
        | Some u \<Rightarrow> cmd @ '' '' @ u @ '' RTSP/1.0'' @ CRLF
      else cmd @ '' '' @ rurl c @ '' RTSP/1.0'' @ CRLF @ ''CSeq: '' @ dec_int (cseq c + 1) @ CRLF)"

definition session_text :: "rtspcl \<Rightarrow> string list" where
  "session_text c = (case session c of None \<Rightarrow> [] | Some s \<Rightarrow> [header_text ''Session'' s])"

definition content_text :: "string option \<Rightarrow> string option \<Rightarrow> int \<Rightarrow> string list" where
  "content_text content_type content len = (case (content_type, content) of
       (Some ct, Some b) \<Rightarrow>
         [''Content-Type: '' @ ct @ CRLF @ ''Content-Length: '' @
          dec_int (if len = 0 then int (length (cstr b)) else len) @ CRLF]
     | _ \<Rightarrow> [])"

text \<open>What is printed into \<open>reql\<close> and appended, piece by piece.\<close>

definition request_pieces ::
  "rtspcl \<Rightarrow> string option \<Rightarrow> string option \<Rightarrow> int \<Rightarrow> key_data list \<Rightarrow> string list" where
  "request_pieces c content_type content len hds =
     session_text c @
     map (\<lambda>h. header_text (kd_key h) (text_of (kd_data h))) hds @
     content_text content_type content len @
     (if is_udp c then [header_text ''CSeq'' (dec_int (cseq c + 1))] else []) @
     [header_text ''User-Agent'' (useragent c)] @
     map (\<lambda>h. header_text (kd_key h) (text_of (kd_data h)))
       (filter (\<lambda>h. \<not> deleted h) (case exthds c of None \<Rightarrow> [] | Some es \<Rightarrow> es)) @
     (if is_udp c then session_text c else [])"

definition request_body :: "string option \<Rightarrow> string option \<Rightarrow> int \<Rightarrow> string" where
  "request_body content_type content len = (case (content_type, content) of
       (Some ct, Some b) \<Rightarrow> if len = 0 then cstr b else take (nat len) b
     | _ \<Rightarrow> [])"

definition request_head ::
  "rtspcl \<Rightarrow> string \<Rightarrow> string option \<Rightarrow> string option \<Rightarrow> int \<Rightarrow> key_data list \<Rightarrow> string option \<Rightarrow> string" where
  "request_head c cmd content_type content len hds url =
     request_line c cmd url @ concat (request_pieces c content_type content len hds) @ CRLF"

text \<open>The piece buffer has 128 bytes and the request 1024, nulls included.  A length that is given
  without a content leaves the number of bytes to write unset.\<close>

definition request_fits ::
  "rtspcl \<Rightarrow> string \<Rightarrow> string option \<Rightarrow> string option \<Rightarrow> int \<Rightarrow> key_data list \<Rightarrow> string option \<Rightarrow> bool" where
  "request_fits c cmd content_type content len hds url \<longleftrightarrow>
     (\<forall>piece \<in> set (request_pieces c content_type content len hds). length piece < 128) \<and>
     (len = 0 \<or> 0 < len \<and> content_type \<noteq> None \<and>
        (case content of None \<Rightarrow> False | Some b \<Rightarrow> nat len \<le> length b)) \<and>
     length (request_head c cmd content_type content len hds url) < 1024 \<and>
     length (request_head c cmd content_type content len hds url @
       request_body content_type content len) < (if len = 0 then 1024 else 1025)"

subsection \<open>The response\<close>

definition status_ok :: "string \<Rightarrow> bool" where
  "status_ok line = (case tokens CHR '' '' line of _ # t # _ \<Rightarrow> t = ''200'' | _ \<Rightarrow> False)"

datatype header_step =
    Header_next "key_data list"
  | Header_fail "key_data list option"      \<comment> \<open>-1 is returned, and \<open>*kd\<close> is this\<close>
  | Header_undefined

text \<open>One pass of the loop over the header lines, with the entries read so far.  At the seventeenth
  entry a new table is allocated and the first sixteen places of it are left as they are.  A
  continuation line is appended to the data of the place behind the last entry, in a block that has
  just been allocated.\<close>

definition header_line :: "key_data list \<Rightarrow> string \<Rightarrow> ('a os_scheme, header_step) state" where
  "header_line es line = do {
     (r, q) \<leftarrow> (if length es mod 16 = 0
       then realloc_memory 0 (int ((16 * (length es div 16 + 1) + 1) * 8))
       else State_Monad.return (0, 1));
     if r \<noteq> 0 then State_Monad.return (Header_fail None)
     else if es \<noteq> [] \<and> length es mod 16 = 0 then State_Monad.return Header_undefined
     else if es \<noteq> [] \<and> line \<noteq> [] \<and> hd line = CHR '' '' then do {
       (r, q) \<leftarrow> realloc_memory 0 (int (length (text_of (kd_data (last es))) + 1 +
         length (dropWhile (\<lambda>ch. ch = CHR '' '') line)));
       State_Monad.return (if r \<noteq> 0 then Header_fail (Some es) else Header_undefined)
     }
     else (case split_at CHR '':'' line of
         None \<Rightarrow> do {
           emit (Free_kd_call (length (free_kd (Some es))));
           State_Monad.return (Header_fail None)
         }
       | Some (key, data) \<Rightarrow> do {
           (r, q) \<leftarrow> realloc_memory 0 (int (length key + 1));
           if r \<noteq> 0 then State_Monad.return (Header_fail (Some es))
           else do {
             (r, q) \<leftarrow> realloc_memory 0 (int (length data + 1));
             State_Monad.return
               (if r \<noteq> 0 then Header_fail (Some (es @ [\<lparr>kd_key = key, kd_data = None\<rparr>]))
                else Header_next (es @ [\<lparr>kd_key = key, kd_data = Some data\<rparr>]))
           }
         })
   }"

datatype header_result =
    Headers "key_data list" string int      \<comment> \<open>the entries, the line buffer and the timeout\<close>
  | Headers_fail "key_data list option"
  | Headers_undefined
  | Headers_stuck                           \<comment> \<open>the bound on the number of lines was too small\<close>

fun header_loop ::
  "nat \<Rightarrow> fd \<Rightarrow> string \<Rightarrow> int \<Rightarrow> key_data list \<Rightarrow> ('a os_scheme, header_result) state" where
  "header_loop 0 sd buf timeout es = State_Monad.return Headers_stuck"
| "header_loop (Suc n) sd buf timeout es = do {
     (r, buf) \<leftarrow> read_line sd buf 2048 timeout False;
     if r > 0 then do {
       s \<leftarrow> header_line es (cstr buf);
       case s of
         Header_next es' \<Rightarrow> header_loop n sd buf 1000 es'
       | Header_fail kd \<Rightarrow> State_Monad.return (Headers_fail kd)
       | Header_undefined \<Rightarrow> State_Monad.return Headers_undefined
     }
     else State_Monad.return (Headers es buf timeout)
   }"

text \<open>The lines of the body are read and dropped; \<open>False\<close> is a bound that was too small.\<close>

fun body_loop :: "nat \<Rightarrow> fd \<Rightarrow> string \<Rightarrow> int \<Rightarrow> ('a os_scheme, bool) state" where
  "body_loop 0 sd buf timeout = State_Monad.return False"
| "body_loop (Suc n) sd buf timeout = do {
     (r, buf) \<leftarrow> read_line sd buf 2048 timeout False;
     if r > 0 then body_loop n sd buf timeout else State_Monad.return True
   }"

text \<open>A line that is returned has taken input, so one pass more than there are inputs left is enough.\<close>

definition line_bound :: "('a os_scheme, nat) state" where
  "line_bound = State (\<lambda>w. (Suc (length (inputs w)), w))"

text \<open>The headers and, for the datagram protocol, the body.  The entry behind the last one is cleared
  through \<open>*kd\<close>, which is still null when no header came and there was no table before.\<close>

definition read_headers ::
  "rtspcl \<Rightarrow> string \<Rightarrow> key_data list option \<Rightarrow>
   ('a os_scheme, (int \<times> key_data list option) option) state" where
  "read_headers c buf kd = do {
     n \<leftarrow> line_bound;
     h \<leftarrow> header_loop n (rfd c) buf 5000 [];
     case h of
       Headers es buf timeout \<Rightarrow> do {
         n \<leftarrow> line_bound;
         b \<leftarrow> (if is_udp c then body_loop n (rfd c) buf timeout else State_Monad.return True);
         State_Monad.return
           (if b \<and> (es \<noteq> [] \<or> kd \<noteq> None) then Some (0, Some es) else None)
       }
     | Headers_fail kd \<Rightarrow> State_Monad.return (Some (-1, kd))
     | Headers_undefined \<Rightarrow> State_Monad.return None
     | Headers_stuck \<Rightarrow> State_Monad.return None
   }"

definition read_response ::
  "rtspcl \<Rightarrow> int \<Rightarrow> key_data list option \<Rightarrow>
   ('a os_scheme, (int \<times> key_data list option) option) state" where
  "read_response c get_response kd =
     (if get_response = 0 then State_Monad.return (Some (0, kd))
      else do {
        (r, buf) \<leftarrow> read_line (rfd c) (replicate 2048 NUL) 2048 5000 False;
        if r \<le> 0 \<or> \<not> status_ok (cstr buf)
        then State_Monad.return (Some (if get_response = 1 then -1 else 0, kd))
        else read_headers c buf kd
      })"

definition exec_request ::
  "rtspcl \<Rightarrow> string \<Rightarrow> string option \<Rightarrow> string option \<Rightarrow> int \<Rightarrow> int \<Rightarrow> key_data list \<Rightarrow>
   key_data list option \<Rightarrow> string option \<Rightarrow>
   ('a os_scheme, (int \<times> rtspcl \<times> key_data list option) option) state" where
  "exec_request c cmd content_type content len get_response hds kd url =
     (if open_ended c \<or> \<not> request_fits c cmd content_type content len hds url
      then State_Monad.return None
      else do {
        emit (Write_call (rfd c) (map ord8 (request_head c cmd content_type content len hds url @
          request_body content_type content len)));
        r \<leftarrow> read_response c get_response kd;
        State_Monad.return (case r of
            None \<Rightarrow> None
          | Some (v, kd) \<Rightarrow> Some (v, c\<lparr>cseq := cseq c + 1\<rparr>, kd))
      })"

subsection \<open>The requests\<close>

abbreviation header :: "string \<Rightarrow> string \<Rightarrow> key_data" where
  "header k d \<equiv> \<lparr>kd_key = k, kd_data = Some d\<rparr>"

text \<open>A request whose response headers go to the table of the client.\<close>

definition own_request ::
  "rtspcl \<Rightarrow> string \<Rightarrow> string option \<Rightarrow> string option \<Rightarrow> int \<Rightarrow> int \<Rightarrow> key_data list \<Rightarrow>
   string option \<Rightarrow> ('a os_scheme, (int \<times> rtspcl) option) state" where
  "own_request c cmd content_type content len get_response hds url = do {
     r \<leftarrow> exec_request c cmd content_type content len get_response hds (rkd c) url;
     State_Monad.return (case r of None \<Rightarrow> None | Some (v, c, kd) \<Rightarrow> Some (v, c\<lparr>rkd := kd\<rparr>))
   }"

definition rtspcl_annouce_sdp ::
  "rtspcl option \<Rightarrow> string \<Rightarrow> ('a os_scheme, (int \<times> rtspcl option) option) state" where
  "rtspcl_annouce_sdp p sdp = if_handle p (\<lambda>c.
     own_request c ''ANNOUNCE'' (Some ''application/sdp'') (Some sdp) 0 1 [] None)"

definition scan_port :: "string \<Rightarrow> rtspcl \<Rightarrow> rtspcl" where
  "scan_port token c = (case split_at CHR ''='' token of
       None \<Rightarrow> c
     | Some (key, val) \<Rightarrow>
         let c = (if key = ''server_port'' then c\<lparr>server_port := of_int (atoi val)\<rparr> else c)
         in if is_udp c then
              let c = (if key = ''control_port'' then c\<lparr>control_port := of_int (atoi val)\<rparr> else c)
              in (if key = ''timing_port'' then c\<lparr>timing_port := of_int (atoi val)\<rparr> else c)
            else c)"

fun replace_data :: "string \<Rightarrow> string \<Rightarrow> key_data list \<Rightarrow> key_data list" where
  "replace_data key d [] = []"
| "replace_data key d (e # es) =
     (if kd_key e = key then e\<lparr>kd_data := Some d\<rparr> # es else e # replace_data key d es)"

text \<open>\<open>trim\<close> cuts the text in the table, and the result points into it.\<close>

definition setup_response ::
  "rtspcl \<Rightarrow> key_data list \<Rightarrow> string \<Rightarrow> string \<Rightarrow>
   ('a os_scheme, int \<times> rtspcl \<times> key_data list) state" where
  "setup_response c es temp s =
     (let es = replace_data ''Session'' (takeWhile is_space temp @ s) es;
          c = c\<lparr>session := Some s, session_live := True\<rparr>
      in case kd_lookup (Some es) ''Transport'' of
           None \<Rightarrow> State_Monad.return (-1, c\<lparr>transport := None\<rparr>, es)
         | Some tr \<Rightarrow> do {
             let c = c\<lparr>transport := Some tr\<rparr>;
             (r, buf) \<leftarrow> realloc_memory 0 (int (length tr + 1));
             if r \<noteq> 0 then State_Monad.return (-1, c, es)
             else do {
               let c = fold scan_port (tokens CHR '';'' tr) (c\<lparr>server_port := 0\<rparr>);
               emit (Free_call buf);
               State_Monad.return (if server_port c = 0 then -1 else 0, c, es)
             }
           })"

definition setup_header :: "bool \<Rightarrow> key_data" where
  "setup_header udp = header ''Transport''
     (if udp
      then ''RTP/AVP/UDP;unicast;interleaved=0-1;mode=record;control_port=6001;timing_port=6002''
      else ''RTP/AVP/TCP;unicast;interleaved=0-1;mode=record'')"

text \<open>The last component is \<open>*kd\<close>: untouched when the request fails, and otherwise the table of the
  response, which is freed on an error although \<open>session\<close> and \<open>transport\<close> point into it.\<close>

definition rtspcl_setup ::
  "rtspcl option \<Rightarrow> key_data list option \<Rightarrow>
   ('a os_scheme, (int \<times> rtspcl option \<times> key_data list option) option) state" where
  "rtspcl_setup p kd = (case p of
       None \<Rightarrow> State_Monad.return (Some (-1, None, kd))
     | Some c \<Rightarrow> do {
         r \<leftarrow> exec_request c ''SETUP'' None None 0 1 [setup_header (is_udp c)] None None;
         case r of
           None \<Rightarrow> State_Monad.return None
         | Some (v, c, rk) \<Rightarrow>
             if v \<noteq> 0 then State_Monad.return (Some (-1, Some c, kd))
             else (case kd_lookup rk ''Session'' of
                 None \<Rightarrow> do {
                   emit (Free_kd_call (length (free_kd rk)));
                   State_Monad.return (Some (-1, Some c, None))
                 }
               | Some temp \<Rightarrow> (case trim temp of
                   None \<Rightarrow> State_Monad.return None
                 | Some s \<Rightarrow> do {
                     (v, c, es) \<leftarrow> setup_response c (the rk) temp s;
                     if v \<noteq> 0 then do {
                       emit (Free_kd_call (length (free_kd (Some es))));
                       State_Monad.return (Some (-1, Some (c\<lparr>session_live := False\<rparr>), None))
                     }
                     else State_Monad.return (Some (0, Some c, Some es))
                   }))
       })"

definition rtspcl_record :: "rtspcl option \<Rightarrow> ('a os_scheme, (int \<times> rtspcl option) option) state" where
  "rtspcl_record p = if_handle p (\<lambda>c.
     if session c = None then State_Monad.return (Some (-1, c))
     else own_request c ''RECORD'' None None 0 1
       [header ''Range'' ''npt=0-'', header ''RTP-Info'' ''seq=0;rtptime=0''] None)"

definition rtspcl_set_parameter ::
  "rtspcl option \<Rightarrow> string \<Rightarrow> ('a os_scheme, (int \<times> rtspcl option) option) state" where
  "rtspcl_set_parameter p para = if_handle p (\<lambda>c.
     own_request c ''SET_PARAMETER'' (Some ''text/parameters'') (Some para) 0 1 [] None)"

text \<open>The time is printed with \<^verbatim>\<open>%ld\<close> into 20 bytes.\<close>

definition rtspcl_set_daap ::
  "rtspcl option \<Rightarrow> string \<Rightarrow> u32 \<Rightarrow> int \<Rightarrow>
   ('a os_scheme, (int \<times> rtspcl option) option) state" where
  "rtspcl_set_daap p para timestamp count = if_handle p (\<lambda>c.
     own_request c ''SET_PARAMETER'' (Some ''application/x-dmap-tagged'') (Some para) count 2
       [header ''RTP-Info'' (''rtptime='' @ dec_int (sint timestamp))] None)"

definition rtspcl_options :: "rtspcl option \<Rightarrow> ('a os_scheme, (int \<times> rtspcl option) option) state" where
  "rtspcl_options p = if_handle p (\<lambda>c. own_request c ''OPTIONS'' None None 0 1 [] (Some ''*''))"

definition auth_data :: bytes where
  "auth_data = [
     0x01, 0xad, 0xb2, 0xa4, 0xc7, 0xd5, 0x5c, 0x97, 0x6c, 0x34, 0xf9,
     0x2e, 0x0e, 0x05, 0x48, 0x90, 0x3b, 0x3a, 0x2f, 0xc6, 0x72, 0x2b,
     0x88, 0x58, 0x08, 0x76, 0xd2, 0x9c, 0x61, 0x94, 0x18, 0x52, 0x50]"

definition rtspcl_auth_setup ::
  "rtspcl option \<Rightarrow> ('a os_scheme, (int \<times> rtspcl option) option) state" where
  "rtspcl_auth_setup p = if_handle p (\<lambda>c.
     own_request c ''POST'' (Some ''application/octet-stream'') (Some (map chr8 auth_data)) 33 1 []
       (Some ''/auth-setup''))"

definition rtspcl_flush :: "rtspcl option \<Rightarrow> ('a os_scheme, (int \<times> rtspcl option) option) state" where
  "rtspcl_flush p = if_handle p (\<lambda>c.
     own_request c ''FLUSH'' None None 0 1 [header ''RTP-Info'' ''seq=0;rtptime=0''] None)"

definition rtspcl_teardown ::
  "rtspcl option \<Rightarrow> ('a os_scheme, (int \<times> rtspcl option) option) state" where
  "rtspcl_teardown p = if_handle p (\<lambda>c. own_request c ''TEARDOWN'' None None 0 0 [] None)"

text \<open>A well-formed response as it arrives: header lines, then an empty line.\<close>

definition header_wire :: "string \<times> string \<Rightarrow> string" where
  "header_wire h = fst h @ CHR '':'' # snd h @ CRLF"

definition good_header :: "string \<times> string \<Rightarrow> bool" where
  "good_header h \<longleftrightarrow> fst h \<noteq> [] \<and> hd (fst h) \<noteq> CHR '' '' \<and> CHR '':'' \<notin> set (fst h) \<and>
     set (fst h @ snd h) \<inter> {NUL, CHR 0x0A, CHR 0x0D} = {} \<and> length (fst h @ snd h) < 2000"

definition table_of :: "(string \<times> string) list \<Rightarrow> key_data list" where
  "table_of hs = map (\<lambda>(k, v). header k v) hs"

text \<open>The reader's view of a request: its lines, and its headers in order.\<close>

fun crlf_lines :: "string \<Rightarrow> string list" where
  "crlf_lines [] = [[]]"
| "crlf_lines [a] = [[a]]"
| "crlf_lines (a # b # s) =
     (if a = CHR 0x0D \<and> b = CHR 0x0A then [] # crlf_lines s
      else (case crlf_lines (b # s) of [] \<Rightarrow> [[a]] | l # ls \<Rightarrow> (a # l) # ls))"

definition one_line :: "string \<Rightarrow> bool" where
  "one_line s \<longleftrightarrow> CHR 0x0D \<notin> set s"

definition live :: "rtspcl \<Rightarrow> (string \<times> string) list" where
  "live c = map (\<lambda>h. (kd_key h, text_of (kd_data h)))
     (filter (\<lambda>h. \<not> deleted h) (case exthds c of None \<Rightarrow> [] | Some es \<Rightarrow> es))"

definition header_list ::
  "rtspcl \<Rightarrow> string option \<Rightarrow> string option \<Rightarrow> int \<Rightarrow> key_data list \<Rightarrow> (string \<times> string) list" where
  "header_list c ct b len hds =
     (let ses = (case session c of None \<Rightarrow> [] | Some s \<Rightarrow> [(''Session'', s)]);
          seq = [(''CSeq'', dec_int (cseq c + 1))]
      in (if is_udp c then [] else seq) @ ses @
         map (\<lambda>h. (kd_key h, text_of (kd_data h))) hds @
         (case (ct, b) of
            (Some t, Some x) \<Rightarrow> [(''Content-Type'', t),
              (''Content-Length'', dec_int (int (length (request_body ct b len))))]
          | _ \<Rightarrow> []) @
         (if is_udp c then seq else []) @ [(''User-Agent'', useragent c)] @ live c @
         (if is_udp c then ses else []))"

definition start_line :: "rtspcl \<Rightarrow> string \<Rightarrow> string option \<Rightarrow> string" where
  "start_line c cmd url = cmd @ '' '' @
     (case url of Some u \<Rightarrow> if is_udp c then u else rurl c | None \<Rightarrow> rurl c) @ '' RTSP/1.0''"

text \<open>What a part of the trace wrote.\<close>

definition sent :: "event list \<Rightarrow> string list" where
  "sent es = concat (map (\<lambda>e. case e of Write_call f bs \<Rightarrow> [map chr8 bs] | _ \<Rightarrow> []) es)"

datatype request = Announce string | Setup | Record | Parameter string | Daap string u32 int
  | Options | Auth | Flush | Teardown

definition perform :: "request \<Rightarrow> rtspcl option \<Rightarrow> ('a os_scheme, (int \<times> rtspcl option) option) state" where
  "perform r p = (case r of
       Announce sdp \<Rightarrow> rtspcl_annouce_sdp p sdp
     | Setup \<Rightarrow> do {
         x \<leftarrow> rtspcl_setup p None;
         State_Monad.return (map_option (\<lambda>(v, p, kd). (v, p)) x)
       }
     | Record \<Rightarrow> rtspcl_record p
     | Parameter s \<Rightarrow> rtspcl_set_parameter p s
     | Daap s t n \<Rightarrow> rtspcl_set_daap p s t n
     | Options \<Rightarrow> rtspcl_options p
     | Auth \<Rightarrow> rtspcl_auth_setup p
     | Flush \<Rightarrow> rtspcl_flush p
     | Teardown \<Rightarrow> rtspcl_teardown p)"

text \<open>A session: the requests one after the other, whatever they return.\<close>

fun perform_all :: "request list \<Rightarrow> rtspcl option \<Rightarrow> ('a os_scheme, rtspcl option option) state" where
  "perform_all [] p = State_Monad.return (Some p)"
| "perform_all (r # rs) p = do {
     x \<leftarrow> perform r p;
     case x of None \<Rightarrow> State_Monad.return None | Some (v, p) \<Rightarrow> perform_all rs p
   }"

definition numbered :: "int \<Rightarrow> string \<Rightarrow> bool" where
  "numbered n m \<longleftrightarrow> (\<exists>a b. m = a @ CRLF @ ''CSeq: '' @ dec_int n @ CRLF @ b)"

definition entries_of :: "key_data list \<Rightarrow> (string \<times> string) list" where
  "entries_of es = map (\<lambda>h. (kd_key h, text_of (kd_data h))) (filter (\<lambda>h. \<not> deleted h) es)"

definition push_header :: "key_data list \<Rightarrow> string \<Rightarrow> string \<Rightarrow> key_data list" where
  "push_header es = place_header (free_index es) es"

definition good_key :: "string \<Rightarrow> bool" where
  "good_key k \<longleftrightarrow> k \<noteq> [] \<and> hd k \<noteq> DELETED"

text \<open>The marked entries are the last ones.\<close>

definition stacked :: "key_data list \<Rightarrow> bool" where
  "stacked es \<longleftrightarrow> (\<forall>e \<in> set (drop (free_index es) es). deleted e) \<and> (\<forall>e \<in> set es. kd_key e \<noteq> [])"

definition headers_of :: "rtspcl \<Rightarrow> key_data list" where
  "headers_of c = (case exthds c of None \<Rightarrow> [] | Some es \<Rightarrow> es)"

lemma realloc_inputs [simp]: "inputs (snd (run_state (realloc_memory p n) w)) = inputs w"
  by (simp add: realloc_memory_def case_prod_beta)

lemma header_line_inputs [simp]: "inputs (snd (run_state (header_line es l) w)) = inputs w"
  by (auto simp: header_line_def case_prod_beta split: option.split prod.split)

lemma header_loop_returns:
  "length (inputs w) < n \<Longrightarrow> fst (run_state (header_loop n sd buf t es) w) \<noteq> Headers_stuck"
proof (induction n arbitrary: buf t es w)
  case (Suc n)
  obtain r b w1 where rl: "run_state (read_line sd buf 2048 t False) w = ((r, b), w1)" by (metis surj_pair)
  note c = read_line_consumes [OF rl]
  obtain s w2 where h: "run_state (header_line es (cstr b)) w1 = (s, w2)" by (metis surj_pair)
  then have "inputs w2 = inputs w1" using header_line_inputs [of es "cstr b" w1] by simp
  then show ?case
    using rl c h Suc.prems Suc.IH [of w2 b 1000] by (cases s) auto
qed simp

lemma body_loop_returns:
  "length (inputs w) < n \<Longrightarrow> fst (run_state (body_loop n sd buf t) w)"
proof (induction n arbitrary: buf w)
  case (Suc n)
  obtain r b w1 where rl: "run_state (read_line sd buf 2048 t False) w = ((r, b), w1)" by (metis surj_pair)
  then show ?case using read_line_consumes [OF rl] Suc.prems Suc.IH [of w1 b] by auto
qed simp

lemma run_realloc_benign:
  assumes "benign w"
  obtains q w' where "run_state (realloc_memory p n) w = ((0, q), w')" and "benign w'"
    and "inputs w' = inputs w"
proof -
  obtain r w' where "run_state (sys (Realloc_call 0 (round_size 8 16 n))) w = (r, w')" "r \<noteq> 0" "benign w'"
    "inputs w' = inputs w" using assms by (rule run_sys_benign)
  then show thesis by (intro that [of r w']) (simp_all add: realloc_memory_def)
qed

lemma header_line_next:
  assumes "benign w" and "good_header (k, v)" and "length es < 16"
  obtains w' where "run_state (header_line es (k @ CHR '':'' # v)) w = (Header_next (es @ [header k v]), w')"
    and "benign w'" and "inputs w' = inputs w"
proof -
  have m: "length es mod 16 = 0 \<longleftrightarrow> es = []" using assms(3) by auto
  have k: "k \<noteq> []" "hd (k @ CHR '':'' # v) \<noteq> CHR '' ''" "split_at CHR '':'' (k @ CHR '':'' # v) = Some (k, v)"
    using assms(2) by (auto simp: good_header_def hd_append)
  obtain q1 w1 where 1: "run_state (if es = [] then realloc_memory 0 136 else State_Monad.return (0, 1)) w =
      ((0, q1), w1)" "benign w1" "inputs w1 = inputs w"
    using assms(1) by (cases "es = []") (auto elim: run_realloc_benign [of w 0 136])
  obtain q2 w2 where 2: "run_state (realloc_memory 0 (int (length k + 1))) w1 = ((0, q2), w2)" "benign w2"
    "inputs w2 = inputs w1" using 1(2) by (rule run_realloc_benign)
  obtain q3 w3 where 3: "run_state (realloc_memory 0 (int (length v + 1))) w2 = ((0, q3), w3)" "benign w3"
    "inputs w3 = inputs w2" using 2(2) by (rule run_realloc_benign)
  show thesis
    using that [of w3] 1 2 3 k m by (auto simp: header_line_def split: if_splits)
qed

lemma header_loop_lines:
  assumes "benign w" and "inputs w = feed (concat (map header_wire hs) @ CRLF) @ later"
    and "\<forall>h \<in> set hs. good_header h" and "length es + length hs \<le> 16" and "length hs < n"
    and "length buf = 2048"
  shows "\<exists>buf' t' w'. run_state (header_loop n sd buf t es) w = (Headers (es @ table_of hs) buf' t', w') \<and>
      inputs w' = later \<and> benign w' \<and> length buf' = 2048"
  using assms
proof (induction hs arbitrary: es w n buf t)
  case Nil
  then obtain n' where n: "n = Suc n'" by (cases n) auto
  obtain buf' w' where "run_state (read_line sd buf 2048 t False) w = ((0, buf'), w')" "inputs w' = later"
      "benign w'" "length buf' = 2048"
    using read_line_line [of w "[CHR 0x0D]" later 2048 buf False sd t] Nil.prems(1,2,6) by auto
  then show ?case by (simp add: n table_of_def)
next
  case (Cons h hs)
  obtain k v where h: "h = (k, v)" by (cases h)
  obtain n' where n: "n = Suc n'" using Cons.prems(5) by (cases n) auto
  have g: "good_header (k, v)" using Cons.prems(3) h by simp
  let ?l = "k @ CHR '':'' # v" and ?rest = "feed (concat (map header_wire hs) @ CRLF) @ later"
  have f: "filter (\<lambda>c. c \<noteq> CHR 0x0D) (?l @ [CHR 0x0D]) = ?l"
    using g by (auto simp: good_header_def intro!: arg_cong2 [where f = "(@)"] filter_True)
  have i: "inputs w = feed ((?l @ [CHR 0x0D]) @ [CHR 0x0A]) @ ?rest"
    using Cons.prems(2) by (simp add: h header_wire_def [of "(k, v)"])
  obtain buf' w1 where 1: "run_state (read_line sd buf 2048 t False) w = ((int (length ?l), buf'), w1)"
      "cstr buf' = ?l" "length buf' = 2048" "inputs w1 = ?rest" "benign w1"
    using read_line_line [OF i, of 2048 buf False sd t] Cons.prems(1,6) g
    unfolding f by (auto simp: good_header_def)
  obtain w2 where 2: "run_state (header_line es ?l) w1 = (Header_next (es @ [header k v]), w2)" "benign w2"
      "inputs w2 = inputs w1" using header_line_next [OF 1(5) g, of es] Cons.prems(4) by auto
  have "run_state (header_loop n sd buf t es) w = run_state (header_loop n' sd buf' 1000 (es @ [header k v])) w2"
    using 1 2 by (simp add: n)
  then show ?case
    using Cons.IH [of w2 "es @ [header k v]" n' buf' 1000] 1 2 Cons.prems(3-5)
    by (simp add: n h table_of_def)
qed

lemma kd_lookup_table: "kd_lookup (Some (table_of hs)) k = map_of hs k"
  by (induction hs) (auto simp: kd_lookup_def table_of_def)

lemma read_response_headers:
  assumes "benign w" and "inputs w = feed (st @ CRLF @ concat (map header_wire hs) @ CRLF) @ later"
    and "status_ok st" and "set st \<inter> {NUL, CHR 0x0A, CHR 0x0D} = {}" and "length st < 2000"
    and "\<forall>h \<in> set hs. good_header h" and "length hs \<le> 16" and "hs \<noteq> [] \<or> kd \<noteq> None"
    and "gr \<noteq> 0" and "\<not> is_udp c"
  shows "\<exists>w'. run_state (read_response c gr kd) w = (Some (0, Some (table_of hs)), w') \<and> inputs w' = later"
proof -
  have f: "filter (\<lambda>x. x \<noteq> CHR 0x0D) (st @ [CHR 0x0D]) = st"
    using assms(4) by (auto intro!: filter_True)
  have "st \<noteq> []" using assms(3) by (auto simp: status_ok_def tokens.simps)
  obtain buf w1 where 1: "run_state (read_line (rfd c) (replicate 2048 NUL) 2048 5000 False) w =
      ((int (length st), buf), w1)" "cstr buf = st" "length buf = 2048" "benign w1"
      "inputs w1 = feed (concat (map header_wire hs) @ CRLF) @ later"
    using read_line_line [of w "st @ [CHR 0x0D]" "feed (concat (map header_wire hs) @ CRLF) @ later" 2048
        "replicate 2048 NUL" False "rfd c" 5000] assms(1,2,4,5)
    unfolding f by auto
  have n: "length hs < Suc (length (inputs w1))"
  proof -
    have "length hs \<le> length (concat (map header_wire hs))"
      by (induction hs) (auto simp: header_wire_def)
    then show ?thesis using 1(5) by simp
  qed
  obtain buf' t' w' where 2: "run_state (header_loop (Suc (length (inputs w1))) (rfd c) buf 5000 []) w1 =
      (Headers (table_of hs) buf' t', w')" "inputs w' = later" "benign w'"
    using header_loop_lines [OF 1(4,5) assms(6) _ n 1(3), of "[]" "rfd c" 5000] assms(7) by auto
  have "hs = [] \<longleftrightarrow> table_of hs = []" by (simp add: table_of_def)
  then show ?thesis
    using 1 2 \<open>st \<noteq> []\<close> assms(3,8-10)
    by (auto simp: read_response_def read_headers_def line_bound_def simp del: header_loop.simps)
qed




lemma crlf_lines_Cons: "crlf_lines s \<noteq> []"
  by (induction s rule: crlf_lines.induct) (auto split: list.split)

lemma crlf_lines_line: "one_line l \<Longrightarrow> crlf_lines (l @ CRLF @ s) = l # crlf_lines s"
proof (induction l)
  case (Cons a l)
  then have IH: "crlf_lines (l @ CRLF @ s) = l # crlf_lines s" and a: "a \<noteq> CHR 0x0D"
    by (auto simp: one_line_def)
  obtain b t where "l @ CRLF @ s = b # t" by (cases l) auto
  then show ?case using IH a by simp
qed simp

lemma dec_int_one_line [simp]: "one_line (dec_int i)"
proof -
  have "CHR 0x0D \<notin> set (dec_nat n)" for n
    using dec_nat_digits [of n] by (auto simp: is_digit_def)
  then show ?thesis by (simp add: one_line_def dec_int_def)
qed

lemma crlf_lines_headers:
  "\<forall>(k, v) \<in> set hs. one_line k \<and> one_line v \<Longrightarrow>
   crlf_lines (concat (map (\<lambda>(k, v). header_text k v) hs) @ s) =
     map (\<lambda>(k, v). k @ '': '' @ v) hs @ crlf_lines s"
proof (induction hs)
  case (Cons h hs)
  obtain k v where h: "h = (k, v)" by (cases h)
  have "one_line (k @ '': '' @ v)" using Cons.prems by (simp add: h one_line_def)
  from crlf_lines_line [OF this] show ?case
    using Cons by (simp add: h header_text_def)
qed simp

lemma request_head_headers:
  assumes "len = 0 \<or> 0 < len \<and> (case b of None \<Rightarrow> False | Some x \<Rightarrow> nat len \<le> length x)"
  shows "request_head c cmd ct b len hds url =
    start_line c cmd url @ CRLF @ concat (map (\<lambda>(k, v). header_text k v) (header_list c ct b len hds)) @ CRLF"
proof -
  have body: "(if len = 0 then int (length (cstr x)) else len) = int (length (request_body (Some t) (Some x) len))"
    if "b = Some x" for t x
    using assms that by (auto simp: request_body_def)
  have ses: "session_text c = map (\<lambda>(k, v). header_text k v)
      (case session c of None \<Rightarrow> [] | Some s \<Rightarrow> [(''Session'', s)])"
    by (simp add: session_text_def split: option.split)
  have con: "concat (content_text ct b len) = concat (map (\<lambda>(k, v). header_text k v) (case (ct, b) of
      (Some t, Some x) \<Rightarrow> [(''Content-Type'', t),
        (''Content-Length'', dec_int (int (length (request_body ct b len))))] | _ \<Rightarrow> []))"
    using body by (auto simp: content_text_def header_text_def split: option.split)
  show ?thesis
    unfolding request_head_def request_pieces_def header_list_def request_line_def start_line_def Let_def
    by (simp add: ses con live_def header_text_def comp_def split: option.split)
qed

text \<open>C23. The request on the wire: a reader that splits it at the line ends finds the start line, then one line
  for each header in order, among them the sequence number and the exact length of the body, and then
  the empty line that ends the head.\<close>

theorem request_wire_format:
  assumes "request_fits c cmd ct b len hds url" and "one_line (start_line c cmd url)"
    and "\<forall>(k, v) \<in> set (header_list c ct b len hds). one_line k \<and> one_line v"
  shows "crlf_lines (request_head c cmd ct b len hds url) =
    start_line c cmd url # map (\<lambda>(k, v). k @ '': '' @ v) (header_list c ct b len hds) @ [[], []]"
proof -
  have "len = 0 \<or> 0 < len \<and> (case b of None \<Rightarrow> False | Some x \<Rightarrow> nat len \<le> length x)"
    using assms(1) by (auto simp: request_fits_def split: option.splits)
  from request_head_headers [OF this, of c cmd ct hds url]
  show ?thesis
    using crlf_lines_line [OF assms(2)] crlf_lines_headers [OF assms(3), of CRLF] by simp
qed

theorem request_wire_format_witness:
  "crlf_lines (request_head ((fresh_rtspcl False)\<lparr>rurl := ''rtsp://10.0.0.1/7''\<rparr>) ''SET_PARAMETER''
       (Some ''text/parameters'') (Some ''volume: -30'') 0 [] None) =
     [''SET_PARAMETER rtsp://10.0.0.1/7 RTSP/1.0'', ''CSeq: 1'', ''Content-Type: text/parameters'',
      ''Content-Length: 11'', ''User-Agent: RTSPClient'', [], []]"
proof -
  let ?c = "(fresh_rtspcl False)\<lparr>rurl := ''rtsp://10.0.0.1/7''\<rparr>"
  have "request_fits ?c ''SET_PARAMETER'' (Some ''text/parameters'') (Some ''volume: -30'') 0 [] None"
    by code_simp
  moreover have h: "header_list ?c (Some ''text/parameters'') (Some ''volume: -30'') 0 [] =
      [(''CSeq'', ''1''), (''Content-Type'', ''text/parameters''), (''Content-Length'', ''11''),
       (''User-Agent'', ''RTSPClient'')]" by code_simp
  moreover have "start_line ?c ''SET_PARAMETER'' None = ''SET_PARAMETER rtsp://10.0.0.1/7 RTSP/1.0''"
    by (simp add: start_line_def fresh_rtspcl_def)
  ultimately show ?thesis
    using request_wire_format [of ?c "''SET_PARAMETER''" "Some ''text/parameters''" "Some ''volume: -30''" 0 "[]" None]
    by (simp add: one_line_def)
qed

subsection \<open>The sequence of requests\<close>

lemma sent_simps [simp]:
  "sent [] = []" "sent (es @ fs) = sent es @ sent fs" "sent [Realloc_call p n] = []" "sent [Free_call p] = []"
  "sent [Free_kd_call m] = []" "sent [Poll_call f p] = []" "sent [Read_call f m] = []"
  "sent [Write_call f bs] = [map chr8 bs]"
  by (simp_all add: sent_def)

lemma sent_sys [simp]: "sent (trace (snd (run_state (sys e) w))) = sent (trace w) @ sent [e]"
  by (simp add: sys_def split: list.split)

lemma sent_result2 [simp]: "sent (trace (snd (run_state result2 w))) = sent (trace w)"
  by (simp add: result2_def split: list.split)

lemma sent_sys_read [simp]: "sent (trace (snd (run_state (sys_read f n) w))) = sent (trace w)"
  by (simp add: sys_read_def split: list.split option.split)

lemma sent_realloc [simp]: "sent (trace (snd (run_state (realloc_memory p n) w))) = sent (trace w)"
  by (simp add: realloc_memory_def case_prod_beta)

lemma sent_read_line_loop [simp]:
  "sent (trace (snd (run_state (read_line_loop fd m t np k pos buf) w))) = sent (trace w)"
proof (induction k arbitrary: pos buf w)
  case (Suc k)
  show ?case using Suc by (cases np) (auto simp: case_prod_beta Let_def)
qed simp

lemma sent_read_line [simp]: "sent (trace (snd (run_state (read_line fd buf m t np) w))) = sent (trace w)"
  by (simp add: read_line_def)

lemma sent_header_line [simp]: "sent (trace (snd (run_state (header_line es l) w))) = sent (trace w)"
  by (auto simp: header_line_def case_prod_beta split: option.split prod.split)

lemma sent_header_loop [simp]: "sent (trace (snd (run_state (header_loop n sd b t es) w))) = sent (trace w)"
proof (induction n arbitrary: b t es w)
  case (Suc n)
  show ?case
    using Suc.IH by (auto simp: case_prod_beta split: header_step.split)
qed simp

lemma sent_body_loop [simp]: "sent (trace (snd (run_state (body_loop n sd b t) w))) = sent (trace w)"
  by (induction n arbitrary: b w) (auto simp: case_prod_beta)

lemma sent_read_response [simp]: "sent (trace (snd (run_state (read_response c gr kd) w))) = sent (trace w)"
  by (auto simp: read_response_def read_headers_def line_bound_def case_prod_beta
      simp del: header_loop.simps body_loop.simps split: header_result.split)

lemma exec_request_sends:
  assumes "run_state (exec_request c cmd ct b len gr hds kd url) w = (Some (v, c', kd'), w')"
  shows "sent (trace w') = sent (trace w) @ [request_head c cmd ct b len hds url @ request_body ct b len] \<and>
    c' = c\<lparr>cseq := cseq c + 1\<rparr>"
proof -
  let ?m = "request_head c cmd ct b len hds url @ request_body ct b len"
  let ?w = "w\<lparr>trace := trace w @ [Write_call (rfd c) (map ord8 ?m)]\<rparr>"
  obtain r w2 where r: "run_state (read_response c gr kd) ?w = (r, w2)" by (metis surj_pair)
  then have "sent (trace w2) = sent (trace w) @ [?m]"
    using sent_read_response [of c gr kd ?w] by (simp add: comp_def)
  then show ?thesis
    using assms r by (auto simp: exec_request_def split: if_splits option.splits)
qed

lemma pieces_end:
  "\<forall>p \<in> set ps. \<exists>a. p = a @ CRLF \<Longrightarrow> \<exists>a. b @ CRLF @ concat ps = a @ CRLF"
proof (induction ps rule: rev_induct)
  case (snoc p ps)
  then obtain a where "p = a @ CRLF" by auto
  then show ?case by (intro exI [of _ "b @ CRLF @ concat ps @ a"]) simp
qed simp

lemma request_numbered: "numbered (cseq c + 1) (request_head c cmd ct b len hds url @ rest)"
proof (cases "is_udp c")
  case True
  let ?ps = "session_text c @ map (\<lambda>h. header_text (kd_key h) (text_of (kd_data h))) hds @ content_text ct b len"
  have "\<forall>p \<in> set ?ps. \<exists>a. p = a @ CRLF"
    by (auto simp: session_text_def content_text_def header_text_def split: option.splits)
  from pieces_end [OF this, of "start_line c cmd url"]
  obtain a where a: "start_line c cmd url @ CRLF @ concat ?ps = a @ CRLF" by blast
  have "request_line c cmd url = start_line c cmd url @ CRLF"
    using True by (simp add: request_line_def start_line_def split: option.split)
  then have "request_head c cmd ct b len hds url @ rest =
      (start_line c cmd url @ CRLF @ concat ?ps) @ header_text ''CSeq'' (dec_int (cseq c + 1)) @
      header_text ''User-Agent'' (useragent c) @
      concat (map (\<lambda>h. header_text (kd_key h) (text_of (kd_data h)))
        (filter (\<lambda>h. \<not> deleted h) (case exthds c of None \<Rightarrow> [] | Some es \<Rightarrow> es))) @
      concat (session_text c) @ CRLF @ rest"
    using True by (simp add: request_head_def request_pieces_def)
  then show ?thesis
    unfolding a numbered_def by (intro exI [of _ a] exI) (simp add: header_text_def)
next
  case False
  then show ?thesis
    unfolding numbered_def request_head_def request_line_def
    by (intro exI [of _ "cmd @ '' '' @ rurl c @ '' RTSP/1.0''"] exI) auto
qed

lemma own_request_sends:
  assumes "run_state (own_request c cmd ct b len gr hds url) w = (Some (v, c'), w')"
  shows "\<exists>m. sent (trace w') = sent (trace w) @ [m] \<and> numbered (cseq c + 1) m \<and> cseq c' = cseq c + 1"
proof -
  obtain kd' c1 where "run_state (exec_request c cmd ct b len gr hds (rkd c) url) w = (Some (v, c1, kd'), w')"
      "c' = c1\<lparr>rkd := kd'\<rparr>"
    using assms by (auto simp: own_request_def split: option.splits prod.splits)
  from exec_request_sends [OF this(1)] this(2) show ?thesis
    using request_numbered [of c cmd ct b len hds url] by auto
qed

lemma if_handle_Some:
  assumes "run_state (if_handle (Some c) f) w = (Some (v, p), w')"
  obtains c' where "run_state (f c) w = (Some (v, c'), w')" and "p = Some c'"
  using assms by (auto simp: if_handle_def split: prod.splits)

lemma scan_port_cseq [simp]: "cseq (scan_port t c) = cseq c"
  by (simp add: scan_port_def Let_def split: option.split prod.split)

lemma fold_scan_port_cseq [simp]: "cseq (fold scan_port ts c) = cseq c"
  by (induction ts arbitrary: c) simp_all

lemma setup_response_sends:
  assumes "run_state (setup_response c es temp s) w = ((v, c', es'), w')"
  shows "sent (trace w') = sent (trace w) \<and> cseq c' = cseq c"
proof -
  have r: "sent (trace (snd (run_state (realloc_memory p n) w))) = sent (trace w)" for p n by simp
  show ?thesis
    using assms r
    by (auto simp: setup_response_def Let_def case_prod_beta split: option.splits if_splits) 
qed

lemma setup_sends:
  assumes "run_state (rtspcl_setup (Some c) kd) w = (Some (v, p, kd'), w')"
  obtains c' m where "p = Some c'" and "sent (trace w') = sent (trace w) @ [m]"
    and "numbered (cseq c + 1) m" and "cseq c' = cseq c + 1"
proof -
  obtain x w1 where x: "run_state (exec_request c ''SETUP'' None None 0 1 [setup_header (is_udp c)] None None) w =
      (Some x, w1)"
    using assms by (auto simp: rtspcl_setup_def split: option.splits prod.splits)
  obtain v1 c1 k1 where x': "x = (v1, c1, k1)" by (cases x)
  note e = exec_request_sends [OF x [unfolded x']]
  obtain m where m: "sent (trace w1) = sent (trace w) @ [m]" "numbered (cseq c + 1) m" "cseq c1 = cseq c + 1"
    using e request_numbered [of c "''SETUP''" None None 0 "[setup_header (is_udp c)]" None] by auto
  have "\<exists>c'. p = Some c' \<and> sent (trace w') = sent (trace w1) \<and> cseq c' = cseq c1"
    using assms x
    by (auto simp: rtspcl_setup_def x' split: option.splits prod.splits if_splits dest!: setup_response_sends)
  then show thesis using m that by auto
qed

lemma perform_sends:
  assumes "run_state (perform r (Some c)) w = (Some (v, p), w')"
  obtains (one) c' m where "p = Some c'" and "sent (trace w') = sent (trace w) @ [m]"
      and "numbered (cseq c + 1) m" and "cseq c' = cseq c + 1"
  | (none) "p = Some c" and "sent (trace w') = sent (trace w)"
proof (cases r)
  case Setup
  then obtain kd' where "run_state (rtspcl_setup (Some c) None) w = (Some (v, p, kd'), w')"
    using assms by (auto simp: perform_def split: prod.splits)
  then show thesis by (rule setup_sends) (rule one)
next
  case Record
  then show thesis
    using assms by (cases "session c = None")
      (auto simp: perform_def rtspcl_record_def elim!: if_handle_Some dest!: own_request_sends intro: one none)
qed (use assms in \<open>auto simp: perform_def rtspcl_annouce_sdp_def rtspcl_set_parameter_def rtspcl_set_daap_def
      rtspcl_options_def rtspcl_auth_setup_def rtspcl_flush_def rtspcl_teardown_def
      elim!: if_handle_Some dest!: own_request_sends intro: one\<close>)



subsection \<open>The table of extra headers\<close>

text \<open>The contract the client relies on: a stack of headers, with deletion of the one added last.\<close>

locale header_stack =
  fixes entries :: "'t \<Rightarrow> (string \<times> string) list"
    and push :: "'t \<Rightarrow> string \<Rightarrow> string \<Rightarrow> 't"
    and remove :: "'t \<Rightarrow> string \<Rightarrow> 't option"
    and good :: "string \<Rightarrow> bool"
    and ok :: "'t \<Rightarrow> bool"
  assumes push_entries: "ok t \<Longrightarrow> good k \<Longrightarrow> entries (push t k v) = entries t @ [(k, v)]"
    and push_ok: "ok t \<Longrightarrow> good k \<Longrightarrow> ok (push t k v)"
    and remove_last: "ok t \<Longrightarrow> entries t = hs @ [(k, v)] \<Longrightarrow> k \<notin> fst ` set hs \<Longrightarrow>
      \<exists>t'. remove t k = Some t' \<and> entries t' = hs \<and> ok t'"
begin

lemma push_remove:
  assumes "ok t" and "good k" and "k \<notin> fst ` set (entries t)"
  shows "\<exists>t'. remove (push t k v) k = Some t' \<and> entries t' = entries t \<and> ok t'"
  using remove_last [OF push_ok push_entries] assms by blast

lemma push_all:
  "ok t \<Longrightarrow> \<forall>(k, v) \<in> set hs. good k \<Longrightarrow>
    entries (fold (\<lambda>(k, v) t. push t k v) hs t) = entries t @ hs"
  by (induction hs arbitrary: t) (auto simp: push_entries push_ok)

end

lemma live_entries: "live c = entries_of (headers_of c)"
  by (simp add: live_def entries_of_def headers_of_def)

lemma free_index_append:
  assumes "\<forall>e \<in> set a. \<not> deleted e" and "b = [] \<or> deleted (hd b)"
  shows "free_index (a @ b) = length a"
  using assms by (induction a) (cases b; auto simp: free_index_def)+

lemma stackedE:
  assumes "stacked es"
  obtains a b where "es = a @ b" and "\<forall>e \<in> set a. \<not> deleted e" and "\<forall>e \<in> set b. deleted e"
    and "\<forall>e \<in> set es. kd_key e \<noteq> []" and "free_index es = length a"
proof -
  let ?a = "takeWhile (\<lambda>e. \<not> deleted e) es"
  have e: "es = ?a @ drop (free_index es) es" by (simp add: free_index_def flip: dropWhile_eq_drop)
  show thesis
  proof (rule that [OF e])
    show "\<forall>e \<in> set ?a. \<not> deleted e" by (auto dest: set_takeWhileD)
    show "\<forall>e \<in> set (drop (free_index es) es). deleted e" "\<forall>e \<in> set es. kd_key e \<noteq> []"
      using assms unfolding stacked_def by blast+
  qed (simp only: free_index_def)
qed

lemma stackedI:
  assumes "\<forall>e \<in> set a. \<not> deleted e" and "\<forall>e \<in> set b. deleted e" and "\<forall>e \<in> set (a @ b). kd_key e \<noteq> []"
  shows "stacked (a @ b)"
proof -
  have "free_index (a @ b) = length a" using assms(1,2) by (intro free_index_append) (cases b; auto)+
  then show ?thesis using assms(2,3) by (simp add: stacked_def)
qed

lemma mark_del_first:
  "\<forall>e \<in> set a. kd_key e \<noteq> k \<Longrightarrow> kd_key x = k \<Longrightarrow>
   mark_del k (a @ x # b) = Some (a @ x\<lparr>kd_key := DELETED # tl (kd_key x)\<rparr> # b)"
  by (induction a) auto

interpretation exh: header_stack entries_of push_header "\<lambda>es k. mark_del k es" good_key stacked
proof unfold_locales
  fix t k v
  assume ok: "stacked t" and g: "good_key k"
  from ok obtain a b where t: "t = a @ b" "\<forall>e \<in> set a. \<not> deleted e" "\<forall>e \<in> set b. deleted e"
    "\<forall>e \<in> set t. kd_key e \<noteq> []" "free_index t = length a" by (rule stackedE)
  have p: "push_header t k v = a @ [header k v]" unfolding push_header_def place_header_def t(5) by (simp add: t(1))
  have k: "\<not> deleted (header k v)" using g by (simp add: deleted_def good_key_def)
  show "entries_of (push_header t k v) = entries_of t @ [(k, v)]"
    unfolding p using t(2,3) k by (simp add: entries_of_def t(1) text_of_def)
  show "stacked (push_header t k v)"
    unfolding p using stackedI [of "a @ [header k v]" "[]"] t g k by (auto simp: good_key_def)
next
  fix t hs k v
  assume ok: "stacked t" and e: "entries_of t = hs @ [(k, v)]" and n: "k \<notin> fst ` set hs"
  from ok obtain a b where t: "t = a @ b" "\<forall>e \<in> set a. \<not> deleted e" "\<forall>e \<in> set b. deleted e"
    "\<forall>e \<in> set t. kd_key e \<noteq> []" "free_index t = length a" by (rule stackedE)
  have "map (\<lambda>h. (kd_key h, text_of (kd_data h))) a = hs @ [(k, v)]"
    using e t(2,3) by (simp add: entries_of_def t(1))
  then obtain a' x where a: "a = a' @ [x]" "map (\<lambda>h. (kd_key h, text_of (kd_data h))) a' = hs" "kd_key x = k"
    by (auto simp: map_eq_append_conv)
  let ?x = "x\<lparr>kd_key := DELETED # tl (kd_key x)\<rparr>"
  have d: "deleted ?x" by (simp add: deleted_def)
  have "\<forall>e \<in> set a'. kd_key e \<noteq> k" using n a(2) by force
  then have "mark_del k t = Some (a' @ ?x # b)" using mark_del_first [of a' k x b] a by (simp add: t(1))
  moreover have "entries_of (a' @ ?x # b) = hs" using t(2,3) a d by (simp add: entries_of_def)
  moreover have "stacked (a' @ ?x # b)" using stackedI [of a' "?x # b"] t a d by auto
  ultimately show "\<exists>t'. mark_del k t = Some t' \<and> entries_of t' = hs \<and> stacked t'" by blast
qed

lemma put_exthd_benign:
  assumes "benign w"
  obtains w' where "run_state (put_exthd c es i key data) w =
      ((0, c\<lparr>overruns := overruns c + overrun key + overrun data, exthds := Some (place_header i es key data),
        open_ended := False\<rparr>), w')"
proof -
  obtain q1 w1 where 1: "run_state (realloc_memory 0 (int (length key))) w = ((0, q1), w1)" "benign w1"
    using assms by (rule run_realloc_benign)
  from 1(2) obtain q2 w2 where 2: "run_state (realloc_memory 0 (int (length data))) w1 = ((0, q2), w2)"
    by (rule run_realloc_benign)
  show thesis by (rule that [of w2]) (simp add: put_exthd_def 1 2 Let_def)
qed

lemma add_exthds_benign:
  assumes "benign w" and "\<not> open_ended c" and "length (headers_of c) < 16"
  obtains c' w' where "run_state (rtspcl_add_exthds (Some c) key data) w = (Some (0, Some c'), w')"
    and "exthds c' = Some (push_header (headers_of c) key data)" and "\<not> open_ended c'"
    and "overruns c' = overruns c + overrun key + overrun data"
proof (cases "exthds c")
  case None
  obtain q w1 where 1: "run_state (realloc_memory 0 (17 * 8 * 2)) w = ((0, q), w1)" "benign w1"
    using assms(1) by (rule run_realloc_benign)
  from 1(2) obtain w2 where "run_state (put_exthd c [] 0 key data) w1 =
      ((0, c\<lparr>overruns := overruns c + overrun key + overrun data, exthds := Some (place_header 0 [] key data),
        open_ended := False\<rparr>), w2)" by (rule put_exthd_benign)
  with 1 None show thesis
    by (intro that [of "c\<lparr>overruns := overruns c + overrun key + overrun data,
          exthds := Some (place_header 0 [] key data), open_ended := False\<rparr>" w2])
      (simp_all add: rtspcl_add_exthds_def if_handle_def push_header_def headers_of_def place_header_def)
next
  case (Some es)
  from assms(1) obtain w2 where "run_state (put_exthd c es (free_index es) key data) w =
      ((0, c\<lparr>overruns := overruns c + overrun key + overrun data,
        exthds := Some (place_header (free_index es) es key data), open_ended := False\<rparr>), w2)"
    by (rule put_exthd_benign)
  moreover have "\<not> (free_index es = length es \<and> (open_ended c \<or> free_index es \<noteq> 0 \<and> free_index es mod 16 = 0))"
    using assms(2,3) Some by (auto simp: headers_of_def)
  ultimately show thesis
    using Some by (intro that [of "c\<lparr>overruns := overruns c + overrun key + overrun data,
        exthds := Some (place_header (free_index es) es key data), open_ended := False\<rparr>" w2])
      (simp_all add: rtspcl_add_exthds_def if_handle_def push_header_def headers_of_def Let_def)
qed

text \<open>A header can be added for one request only: with memory available and fewer than sixteen entries,
  adding a header with a new name puts it after the ones in use, and marking it as deleted gives back
  exactly the headers there were.\<close>

lemma exthds_add_then_delete:
  assumes "benign w" and "\<not> open_ended c" and "length (headers_of c) < 16" and "stacked (headers_of c)"
    and "good_key k" and "k \<notin> fst ` set (live c)"
  shows "\<exists>c1 c2 w'. run_state (rtspcl_add_exthds (Some c) k v) w = (Some (0, Some c1), w') \<and>
     live c1 = live c @ [(k, v)] \<and> rtspcl_mark_del_exthds (Some c1) k = Some (0, Some c2) \<and> live c2 = live c"
proof -
  from assms(1-3) obtain c1 w' where c1: "run_state (rtspcl_add_exthds (Some c) k v) w = (Some (0, Some c1), w')"
      "exthds c1 = Some (push_header (headers_of c) k v)" "\<not> open_ended c1" by (rule add_exthds_benign)
  obtain es where es: "mark_del k (push_header (headers_of c) k v) = Some es" "entries_of es = entries_of (headers_of c)"
    using exh.push_remove [OF assms(4,5)] assms(6) by (auto simp: live_entries)
  have "rtspcl_mark_del_exthds (Some c1) k = Some (0, Some (c1\<lparr>exthds := Some es\<rparr>))"
    using c1(2) es(1) by (simp add: rtspcl_mark_del_exthds_def)
  then show ?thesis
    using c1 es exh.push_entries [OF assms(4,5)] by (auto simp: live_entries headers_of_def)
qed

text \<open>When a header other than the last has been marked as deleted, the next one that is added takes its
  place and cuts off every header behind it.\<close>

lemma exthds_reuse_cuts_table:
  assumes "benign w" and "exthds c = Some (a @ d # b)" and "\<forall>e \<in> set a. \<not> deleted e" and "deleted d"
  shows "\<exists>c' w'. run_state (rtspcl_add_exthds (Some c) k v) w = (Some (0, Some c'), w') \<and>
     exthds c' = Some (a @ [header k v])"
proof -
  have i: "free_index (a @ d # b) = length a" using assms(3,4) by (intro free_index_append) auto
  from assms(1) obtain w2 where "run_state (put_exthd c (a @ d # b) (length a) k v) w =
      ((0, c\<lparr>overruns := overruns c + overrun k + overrun v,
        exthds := Some (place_header (length a) (a @ d # b) k v), open_ended := False\<rparr>), w2)"
    by (rule put_exthd_benign)
  then show ?thesis
    using assms(2) i by (simp add: rtspcl_add_exthds_def if_handle_def place_header_def Let_def)
qed

end
