(* ===== verification/AudioStream.thy ===== *)
theory AudioStream
  imports OsWorld
begin

text \<open>
  The audio framing of \<^verbatim>\<open>src/jni/raop_play/audio_stream.c\<close> and \<^verbatim>\<open>audio_stream.h\<close>: the bit-field writer
  \<open>bits_write\<close>, the chunk builder \<open>auds_write_pcm\<close> on top of it, and the chunk size.  The writer's two
  pointers (\<open>*p\<close> into the buffer, \<open>*bpos\<close> into the byte) and the buffer are the record \<open>bitw\<close>.  Its abstract
  view is the list of the bits written so far; the builder is shown to write exactly the frame its comments
  describe, and to stay inside its buffer.
\<close>

definition DEFAULT_SAMPLE_RATE :: int where
  "DEFAULT_SAMPLE_RATE = 44100"

definition MAX_SAMPLES_IN_CHUNK :: int where
  "MAX_SAMPLES_IN_CHUNK = 4096"

definition MINIMUM_SAMPLE_SIZE :: int where
  "MINIMUM_SAMPLE_SIZE = 32"

datatype data_type = AUD_TYPE_NONE | AUD_TYPE_PCM

text \<open>A memory source is its size in bytes and the bytes of its array.\<close>

datatype data_source = DESCRIPTOR fd | STREAM fd | MEMORY int bytes

subsection \<open>The bit writer\<close>

record bitw =
  wbuf :: bytes
  wpos :: nat
  bpos :: int

definition bits_write :: "u8 \<Rightarrow> int \<Rightarrow> bitw \<Rightarrow> bitw" where
  "bits_write d blen s =
     (let lb = 7 - bpos s;
          rb = lb - blen + 1;
          p = wpos s
      in if rb \<ge> 0 then
           let bd = ucast (push_bit (nat rb) (ucast d :: u32)) :: u8
           in s\<lparr>wbuf := (wbuf s)[p := (if bpos s \<noteq> 0 then wbuf s ! p OR bd else bd)],
                bpos := bpos s + blen\<rparr>
         else
           let bd = drop_bit (nat (- rb)) d
           in s\<lparr>wbuf := (wbuf s)[p := wbuf s ! p OR bd,
                                 p + 1 := ucast (push_bit (nat (8 + rb)) (ucast d :: u32))],
                wpos := p + 1, bpos := - rb\<rparr>)"

subsection \<open>The chunk builder\<close>

definition write_header :: "int \<Rightarrow> bitw \<Rightarrow> bitw" where
  "write_header bsize s =
     (let s = bits_write 1 3 s;
          s = bits_write 0 4 s;
          s = bits_write 0 8 s;
          s = bits_write 0 4 s;
          s = (if bsize \<noteq> 4096 then bits_write 1 1 s else bits_write 0 1 s);
          s = bits_write 0 2 s;
          s = bits_write 1 1 s
      in if bsize \<noteq> 4096 then
           let w = word_of_int bsize :: u32;
               s = bits_write (ucast (drop_bit 24 w)) 8 s;
               s = bits_write (ucast (drop_bit 16 w)) 8 s;
               s = bits_write (ucast (drop_bit 8 w)) 8 s
           in bits_write (ucast w) 8 s
         else s)"

text \<open>The four bytes \<open>one\<close> of the next stereo sample, and whether the source had none.  A mono source has its
  sample doubled.  The memory source is read after the test of its size too.\<close>

definition fetch_one ::
  "data_source \<Rightarrow> int \<Rightarrow> nat \<Rightarrow> bytes \<Rightarrow> ('a os_scheme, bytes \<times> bool) state" where
  "fetch_one ds channels count one = (case ds of
       MEMORY sz mem \<Rightarrow> State_Monad.return
         (if channels = 1
          then ([mem ! (2 * count), mem ! (2 * count + 1), mem ! (2 * count), mem ! (2 * count + 1)],
                sz \<le> int count * 2)
          else ([mem ! (4 * count), mem ! (4 * count + 1), mem ! (4 * count + 2), mem ! (4 * count + 3)],
                sz \<le> int count * 4))
     | _ \<Rightarrow> do {
         let fd = (case ds of DESCRIPTOR f \<Rightarrow> f | STREAM f \<Rightarrow> f | MEMORY _ _ \<Rightarrow> 0);
         let n = (if channels = 1 then 2 else 4 :: nat);
         (r, bs) \<leftarrow> sys_read fd n;
         let got = bs @ drop (length bs) one;
         let one' = (if channels = 1 then [got ! 0, got ! 1, got ! 0, got ! 1] else got);
         State_Monad.return (one', r \<noteq> int n)
       })"

definition write_one :: "bytes \<Rightarrow> bitw \<Rightarrow> bitw" where
  "write_one one s =
     bits_write (one ! 2) 8 (bits_write (one ! 3) 8 (bits_write (one ! 0) 8 (bits_write (one ! 1) 8 s)))"

text \<open>The loop over samples; the first argument bounds its passes, and running out of them is \<open>None\<close>.\<close>

fun pcm_loop ::
  "nat \<Rightarrow> data_source \<Rightarrow> int \<Rightarrow> int \<Rightarrow> nat \<Rightarrow> bytes \<Rightarrow> bitw \<Rightarrow> ('a os_scheme, (nat \<times> bitw) option) state" where
  "pcm_loop 0 ds channels bsize count one s = State_Monad.return None"
| "pcm_loop (Suc fuel) ds channels bsize count one s = do {
     (one, nodata) \<leftarrow> fetch_one ds channels count one;
     if nodata then State_Monad.return (Some (count, s))
     else
       let s = write_one one s in
       if int (count + 1) = bsize then State_Monad.return (Some (count + 1, s))
       else pcm_loop fuel ds channels bsize (count + 1) one s
   }"

definition write_zeros :: "nat \<Rightarrow> bitw \<Rightarrow> bitw" where
  "write_zeros n s = fold (\<lambda>_. bits_write 0 8) [0..<n] s"

text \<open>The result is the return value, the size stored in \<open>*size\<close> (if any) and the buffer.\<close>

definition auds_write_pcm ::
  "nat \<Rightarrow> int \<Rightarrow> bytes \<Rightarrow> int \<Rightarrow> data_source \<Rightarrow> ('a os_scheme, (int \<times> int option \<times> bytes) option) state" where
  "auds_write_pcm fuel channels buffer bsize ds = do {
     let s = write_header bsize \<lparr>wbuf = buffer, wpos = 0, bpos = 0\<rparr>;
     res \<leftarrow> pcm_loop fuel ds channels bsize 0 [0, 0, 0, 0] s;
     State_Monad.return (case res of
         None \<Rightarrow> None
       | Some (count, s) \<Rightarrow>
           if count = 0 then Some (-1, None, wbuf s)
           else
             let s = write_zeros (nat ((bsize - int count) * 4)) s
             in Some (0, Some (int (wpos s) + (if bpos s \<noteq> 0 then 1 else 0)), wbuf s))
   }"

definition aud_clac_chunk_size :: "int \<Rightarrow> int" where
  "aud_clac_chunk_size sample_rate =
     (let bsize = MAX_SAMPLES_IN_CHUNK;
          ratio = DEFAULT_SAMPLE_RATE * 100 div sample_rate
      in if ratio > 100 then bsize * 100 div ratio - 1 else bsize)"

definition field :: "u8 \<Rightarrow> nat \<Rightarrow> bool list" where
  "field d n = map (bit d) (rev [0..<n])"

definition written :: "bitw \<Rightarrow> bool list" where
  "written s = concat (map (\<lambda>b. field b 8) (take (wpos s) (wbuf s))) @
     take (nat (bpos s)) (field (wbuf s ! wpos s) 8)"

definition writer_ok :: "bitw \<Rightarrow> bool" where
  "writer_ok s \<longleftrightarrow> wpos s < length (wbuf s) \<and> 0 \<le> bpos s \<and> bpos s \<le> 8 \<and>
     (bpos s \<noteq> 0 \<longrightarrow> (\<forall>i < nat (8 - bpos s). \<not> bit (wbuf s ! wpos s) i))"

text \<open>The fields of a chunk in order, each with its width: the header, the sample count unless it is the
  default, the samples with their bytes swapped, and zeros for the samples that are missing.\<close>

definition header_fields :: "int \<Rightarrow> (u8 \<times> nat) list" where
  "header_fields bsize =
     [(1, 3), (0, 4), (0, 8), (0, 4), (if bsize \<noteq> 4096 then 1 else 0, 1), (0, 2), (1, 1)] @
     (if bsize \<noteq> 4096
      then let w = word_of_int bsize in [(byte_of 24 w, 8), (byte_of 16 w, 8), (byte_of 8 w, 8), (byte_of 0 w, 8)]
      else [])"

definition sample_fields :: "bytes \<Rightarrow> nat \<Rightarrow> (u8 \<times> nat) list" where
  "sample_fields mem k =
     [(mem ! (4 * k + 1), 8), (mem ! (4 * k), 8), (mem ! (4 * k + 3), 8), (mem ! (4 * k + 2), 8)]"

definition chunk_fields :: "int \<Rightarrow> bytes \<Rightarrow> nat \<Rightarrow> (u8 \<times> nat) list" where
  "chunk_fields bsize mem count = header_fields bsize @ concat (map (sample_fields mem) [0..<count]) @
     replicate (nat ((bsize - int count) * 4)) (0, 8)"

definition chunk_bits :: "int \<Rightarrow> bytes \<Rightarrow> nat \<Rightarrow> bool list" where
  "chunk_bits bsize mem count = concat (map (\<lambda>(d, n). field d n) (chunk_fields bsize mem count))"

abbreviation put_fields :: "(u8 \<times> nat) list \<Rightarrow> bitw \<Rightarrow> bitw" where
  "put_fields \<equiv> fold (\<lambda>(d, n). bits_write d (int n))"

text \<open>The bytes up to the size the builder reports hold the bits written and zeros.\<close>

definition reported_size :: "bitw \<Rightarrow> nat" where
  "reported_size s = wpos s + (if bpos s \<noteq> 0 then 1 else 0)"

lemma length_field [simp]: "length (field d n) = n"
  by (simp add: field_def)

lemma nth_field: "i < n \<Longrightarrow> field d n ! i = bit d (n - 1 - i)"
  by (simp add: field_def rev_nth)

lemma ucast_push_bit: "ucast (push_bit k (ucast (d :: u8) :: u32)) = push_bit k d"
  by (rule bit_word_eqI) (auto simp: bit_simps dest: bit_imp_le_length)

lemma bits_write_fits:
  assumes "bpos s = int b" and "b + n \<le> 8"
  shows "bits_write d (int n) s =
    s\<lparr>wbuf := (wbuf s)[wpos s := (if b \<noteq> 0 then wbuf s ! wpos s OR push_bit (8 - b - n) d
        else push_bit (8 - b - n) d)], bpos := int (b + n)\<rparr>"
proof -
  have "nat (7 - int b - int n + 1) = 8 - b - n" using assms(2) by simp
  then show ?thesis using assms by (simp add: bits_write_def Let_def ucast_push_bit)
qed

lemma bits_write_spills:
  assumes "bpos s = int b" and "8 < b + n" and "n \<le> 8" and "b \<le> 8"
  shows "bits_write d (int n) s =
    s\<lparr>wbuf := (wbuf s)[wpos s := wbuf s ! wpos s OR drop_bit (b + n - 8) d,
        wpos s + 1 := push_bit (16 - b - n) d], wpos := wpos s + 1, bpos := int (b + n - 8)\<rparr>"
proof -
  have "nat (- (7 - int b - int n + 1)) = b + n - 8" "nat (8 + (7 - int b - int n + 1)) = 16 - b - n"
    "- (7 - int b - int n + 1) = int (b + n - 8)" using assms by auto
  then show ?thesis using assms by (simp add: bits_write_def Let_def ucast_push_bit)
qed

text \<open>Adding a field below the bits of a byte.\<close>

lemma byte_append:
  assumes "b + n \<le> 8" and "\<forall>i \<ge> n. \<not> bit d i" and "b \<noteq> 0 \<longrightarrow> (\<forall>i < 8 - b. \<not> bit x i)"
  defines "y \<equiv> (if b \<noteq> 0 then x OR push_bit (8 - b - n) d else push_bit (8 - b - n) d)"
  shows "take (b + n) (field y 8) = take b (field x 8) @ field d n"
    and "\<forall>i < 8 - (b + n). \<not> bit y i"
proof -
  have y: "bit y i = (if 8 - b \<le> i then b \<noteq> 0 \<and> bit x i else 8 - b - n \<le> i \<and> bit d (i - (8 - b - n)))" if "i < 8" for i
    using that assms(1-3) by (auto simp: y_def bit_simps)
  show "take (b + n) (field y 8) = take b (field x 8) @ field d n"
    using assms(1) by (intro nth_equalityI) (auto simp: nth_field nth_append y add.commute)
  show "\<forall>i < 8 - (b + n). \<not> bit y i"
    using y by auto
qed

lemma byte_spill:
  assumes "8 < b + n" and "n \<le> 8" and "b \<le> 8" and "\<forall>i \<ge> n. \<not> bit d i" and "\<forall>i < 8 - b. \<not> bit x i"
  defines "y \<equiv> x OR drop_bit (b + n - 8) d" and "z \<equiv> push_bit (16 - b - n) d"
  shows "field y 8 @ take (b + n - 8) (field z 8) = take b (field x 8) @ field d n"
    and "\<forall>i < 8 - (b + n - 8). \<not> bit z i"
proof -
  have y: "bit y i = (if 8 - b \<le> i then bit x i else bit d (i + (b + n - 8)))" if "i < 8" for i
    using that assms(1-5) by (auto simp: y_def bit_simps add.commute)
  have z: "bit z i = (16 - b - n \<le> i \<and> bit d (i - (16 - b - n)))" if "i < 8" for i
    using that by (auto simp: z_def bit_simps)
  have e: "7 - i + (b + n - 8) = n - Suc (i - b)" if "b \<le> i" "i < 8" for i
    using that assms(1-3) by linarith
  have e2: "7 - (i - 8) - (16 - b - n) = n - Suc (i - b)" if "8 \<le> i" "i < b + n" for i
    using that assms(1-3) by linarith
  show "field y 8 @ take (b + n - 8) (field z 8) = take b (field x 8) @ field d n"
    using assms(1-3)
    by (intro nth_equalityI) (auto simp: nth_field nth_append y z e e2 add.commute)
  show "\<forall>i < 8 - (b + n - 8). \<not> bit z i"
    using assms(1-3) by (auto simp: z)
qed

lemma concat_take_Suc:
  "p < length xs \<Longrightarrow> concat (map f (take (Suc p) xs)) = concat (map f (take p xs)) @ f (xs ! p)"
  by (simp add: take_Suc_conv_app_nth)

lemma bitw_view:
  "wpos s < length (wbuf s) \<Longrightarrow> b \<le> 8 \<Longrightarrow>
   writer_ok (s\<lparr>bpos := int b\<rparr>) = (b \<noteq> 0 \<longrightarrow> (\<forall>i < 8 - b. \<not> bit (wbuf s ! wpos s) i))"
  "written (s\<lparr>bpos := int b\<rparr>) = concat (map (\<lambda>b. field b 8) (take (wpos s) (wbuf s))) @
     take b (field (wbuf s ! wpos s) 8)"
  by (auto simp: writer_ok_def written_def nat_diff_distrib)

lemma bits_write_refines:
  assumes "writer_ok s" and "wpos s + 1 < length (wbuf s)" and "n \<le> 8" and "\<forall>i \<ge> n. \<not> bit d i"
  shows "writer_ok (bits_write d (int n) s) \<and> written (bits_write d (int n) s) = written s @ field d n \<and>
    length (wbuf (bits_write d (int n) s)) = length (wbuf s)"
proof -
  obtain b where b: "bpos s = int b" "b \<le> 8"
    using assms(1) by (metis writer_ok_def nonneg_int_cases of_nat_le_iff of_nat_numeral)
  then have s: "s = s\<lparr>bpos := int b\<rparr>" by simp
  have p: "wpos s < length (wbuf s)" using assms(2) by simp
  have z: "b \<noteq> 0 \<longrightarrow> (\<forall>i < 8 - b. \<not> bit (wbuf s ! wpos s) i)"
    using assms(1) bitw_view(1) [OF p b(2)] s by simp
  have old: "written s = concat (map (\<lambda>b. field b 8) (take (wpos s) (wbuf s))) @
     take b (field (wbuf s ! wpos s) 8)" using bitw_view(2) s by metis
  show ?thesis
  proof (cases "b + n \<le> 8")
    case True
    then show ?thesis
      unfolding bits_write_fits [OF b(1) True] old using p byte_append [OF True assms(4) z]
      by (simp add: bitw_view del: of_nat_add)
  next
    case False
    then have r: "8 < b + n" "b \<noteq> 0" "b + n - 8 \<le> 8" using assms(3) b(2) by auto
    show ?thesis
      unfolding bits_write_spills [OF b(1) r(1) assms(3) b(2)] old
      using assms(2) byte_spill [OF r(1) assms(3) b(2) assms(4)] z r
      by (simp add: bitw_view concat_take_Suc del: of_nat_add of_nat_diff)
  qed
qed

text \<open>What a chunk builder needs of a bit writer: a field is appended to the bits, within a capacity.\<close>

locale bit_sink =
  fixes put :: "u8 \<Rightarrow> nat \<Rightarrow> 's \<Rightarrow> 's" and bits :: "'s \<Rightarrow> bool list" and cap :: "'s \<Rightarrow> nat"
    and ok :: "'s \<Rightarrow> bool"
  assumes put_ok: "ok s \<Longrightarrow> n \<le> 8 \<Longrightarrow> \<forall>i \<ge> n. \<not> bit d i \<Longrightarrow> length (bits s) + 8 < cap s \<Longrightarrow> ok (put d n s)"
    and put_bits: "ok s \<Longrightarrow> n \<le> 8 \<Longrightarrow> \<forall>i \<ge> n. \<not> bit d i \<Longrightarrow> length (bits s) + 8 < cap s \<Longrightarrow>
      bits (put d n s) = bits s @ field d n"
    and put_cap: "ok s \<Longrightarrow> n \<le> 8 \<Longrightarrow> \<forall>i \<ge> n. \<not> bit d i \<Longrightarrow> length (bits s) + 8 < cap s \<Longrightarrow> cap (put d n s) = cap s"
begin

lemma put_all:
  assumes "ok s" and "\<forall>(d, n) \<in> set l. n \<le> 8 \<and> (\<forall>i \<ge> n. \<not> bit d i)"
    and "length (bits s) + sum_list (map snd l) + 8 < cap s"
  shows "ok (fold (\<lambda>(d, n). put d n) l s) \<and>
    bits (fold (\<lambda>(d, n). put d n) l s) = bits s @ concat (map (\<lambda>(d, n). field d n) l) \<and>
    cap (fold (\<lambda>(d, n). put d n) l s) = cap s"
  using assms
proof (induction l arbitrary: s)
  case (Cons x l)
  obtain d n where x: "x = (d, n)" by (cases x)
  have p: "n \<le> 8" "\<forall>i \<ge> n. \<not> bit d i" "length (bits s) + 8 < cap s"
    using Cons.prems(2,3) by (auto simp: x)
  note step = put_ok [OF Cons.prems(1) p] put_bits [OF Cons.prems(1) p] put_cap [OF Cons.prems(1) p]
  have "length (bits (put d n s)) + sum_list (map snd l) + 8 < cap (put d n s)"
    using Cons.prems(3) by (simp add: x step(2,3))
  then show ?case
    using Cons.IH [OF step(1)] Cons.prems(2) step(2,3) by (simp add: x)
qed simp

end

lemma length_written: "writer_ok s \<Longrightarrow> length (written s) = 8 * wpos s + nat (bpos s)"
  by (auto simp: written_def writer_ok_def length_concat o_def sum_list_triv min_def)

interpretation bw: bit_sink "\<lambda>d n. bits_write d (int n)" written "\<lambda>s. 8 * length (wbuf s)" writer_ok
proof unfold_locales
  fix s :: bitw and n d
  assume a: "writer_ok s" "n \<le> 8" "\<forall>i \<ge> n. \<not> bit (d :: u8) i" "length (written s) + 8 < 8 * length (wbuf s)"
  have "wpos s + 1 < length (wbuf s)" using a(1,4) by (simp add: length_written)
  note r = bits_write_refines [OF a(1) this a(2,3)]
  show "writer_ok (bits_write d (int n) s)" "written (bits_write d (int n) s) = written s @ field d n"
    "8 * length (wbuf (bits_write d (int n) s)) = 8 * length (wbuf s)"
    using r by auto
qed

subsection \<open>The frame\<close>

lemma write_header_fields: "write_header bsize s = put_fields (header_fields bsize) s"
  by (simp add: write_header_def header_fields_def Let_def byte_of_def)

lemma write_zeros_fields: "write_zeros n s = put_fields (replicate n (0, 8)) s"
  unfolding write_zeros_def
  by (induction n arbitrary: s) (simp_all add: fold_append replicate_append_same [symmetric] del: replicate_append_same)

lemma pcm_loop_memory:
  assumes "k = min m (nat bsize)" and h: "\<forall>c. sz \<le> int c * 4 \<longleftrightarrow> m \<le> c"
    and "count \<le> k" and "int count < bsize" and "k - count < fuel"
  shows "(pcm_loop fuel (MEMORY sz mem) 2 bsize count one s
      :: ('a os_scheme, (nat \<times> bitw) option) state) =
    State_Monad.return (Some (k, put_fields (concat (map (sample_fields mem) [count..<k])) s))"
  using assms(3-)
proof (induction fuel arbitrary: count one s)
  case (Suc fuel)
  show ?case
  proof (cases "m \<le> count")
    case True
    then have "k = count" using assms(1) Suc.prems by simp
    then show ?thesis using True h by (simp add: fetch_one_def)
  next
    case False
    then have lt: "count < k" using assms(1) Suc.prems(2) by auto
    let ?s = "put_fields (sample_fields mem count) s"
    have e: "put_fields (concat (map (sample_fields mem) [count..<k])) s =
        put_fields (concat (map (sample_fields mem) [count + 1..<k])) ?s"
      using lt by (simp add: upt_conv_Cons)
    show ?thesis
    proof (cases "int (count + 1) = bsize")
      case True
      then have "k = count + 1" using lt assms(1) by auto
      then show ?thesis using False True h unfolding e by (simp add: fetch_one_def write_one_def sample_fields_def)
    next
      case neq: False
      then have "(pcm_loop fuel (MEMORY sz mem) 2 bsize (count + 1) o' ?s
          :: ('a os_scheme, (nat \<times> bitw) option) state) =
        State_Monad.return (Some (k, put_fields (concat (map (sample_fields mem) [count + 1..<k])) ?s))" for o'
        using Suc.prems lt by (intro Suc.IH) auto
      then show ?thesis using False neq h unfolding e by (simp add: fetch_one_def write_one_def sample_fields_def)
    qed
  qed
qed simp

lemma length_concat_const: "\<forall>x \<in> set xs. length (f x) = c \<Longrightarrow> length (concat (map f xs)) = c * length xs"
  by (induction xs) simp_all

lemma fields_small: "\<forall>(d, n) \<in> set (chunk_fields bsize mem count). n \<le> 8 \<and> (\<forall>i \<ge> n. \<not> bit d i)"
  by (auto simp: chunk_fields_def header_fields_def sample_fields_def Let_def bit_1_iff
      dest: bit_imp_le_length split: if_splits)

lemma fields_width:
  assumes "0 \<le> bsize" and "int count \<le> bsize"
  shows "sum_list (map snd (chunk_fields bsize mem count)) = (if bsize = 4096 then 23 else 55) + 32 * nat bsize"
proof -
  have "sum_list (map snd (concat (map (sample_fields mem) xs))) = 32 * length xs" for xs
    by (induction xs) (simp_all add: sample_fields_def)
  moreover have "nat ((bsize - int count) * 4) = 4 * (nat bsize - count)"
  proof -
    obtain n where n: "bsize = int n" using assms(1) by (rule nonneg_int_cases)
    then have "(bsize - int count) * 4 = int (4 * (n - count))" using assms(2) by simp
    then show ?thesis by (simp only: nat_int n)
  qed
  moreover have "32 * count + 32 * (nat bsize - count) = 32 * nat bsize" using assms(2) by simp
  ultimately show ?thesis by (auto simp: chunk_fields_def header_fields_def Let_def sum_list_replicate)
qed

lemma chunk_bits_length:
  assumes "0 \<le> bsize" and "int count \<le> bsize"
  shows "length (chunk_bits bsize mem count) = (if bsize = 4096 then 23 else 55) + 32 * nat bsize"
proof -
  have "length (chunk_bits bsize mem count) = sum_list (map snd (chunk_fields bsize mem count))"
    by (simp add: chunk_bits_def length_concat o_def case_prod_beta)
  then show ?thesis by (simp only: fields_width [OF assms])
qed

lemma reported_bits:
  assumes "writer_ok s"
  shows "\<exists>z. concat (map (\<lambda>b. field b 8) (take (reported_size s) (wbuf s))) = written s @ replicate z False \<and> z < 8"
proof (cases "bpos s = 0")
  case True
  then show ?thesis by (auto simp: reported_size_def written_def)
next
  case False
  let ?b = "nat (bpos s)" and ?x = "wbuf s ! wpos s"
  have b: "0 < ?b" "?b \<le> 8" "\<forall>i < 8 - ?b. \<not> bit ?x i" "wpos s < length (wbuf s)"
    using assms False by (auto simp: writer_ok_def nat_diff_distrib)
  have "drop ?b (field ?x 8) = replicate (8 - ?b) False"
    using b by (intro nth_equalityI) (auto simp: nth_field)
  then have "field ?x 8 = take ?b (field ?x 8) @ replicate (8 - ?b) False"
    by (metis append_take_drop_id)
  then show ?thesis
    using False b(1,4) by (intro exI [of _ "8 - ?b"]) (simp add: reported_size_def written_def concat_take_Suc)
qed

lemma auds_write_pcm_memory:
  assumes "0 < bsize" and "bsize \<le> 4096" and "0 < m" and "min m (nat bsize) < fuel" and "length buffer = 16400"
    and h: "\<forall>c. sz \<le> int c * 4 \<longleftrightarrow> m \<le> c"
  shows "\<exists>s. run_state (auds_write_pcm fuel 2 buffer bsize (MEMORY sz mem)) w =
      (Some (0, Some (int (reported_size s)), wbuf s), w) \<and> writer_ok s \<and> length (wbuf s) = 16400 \<and>
      written s = chunk_bits bsize mem (min m (nat bsize))"
proof -
  let ?k = "min m (nat bsize)" and ?init = "\<lparr>wbuf = buffer, wpos = 0, bpos = 0\<rparr>"
  let ?s = "put_fields (chunk_fields bsize mem ?k) ?init"
  have ok0: "writer_ok ?init" "written ?init = []" using assms(5) by (simp_all add: writer_ok_def written_def)
  have nb: "nat bsize \<le> 4096" using assms(2) by simp
  have "length (written ?init) + sum_list (map snd (chunk_fields bsize mem ?k)) + 8 < 8 * length (wbuf ?init)"
    using assms(1,2,5) nb by (simp add: fields_width ok0)
  note r = bw.put_all [OF ok0(1) fields_small this]
  have loop: "run_state (pcm_loop fuel (MEMORY sz mem) 2 bsize 0 o' s') w =
      (Some (?k, put_fields (concat (map (sample_fields mem) [0..<?k])) s'), w)" for o' s'
    using assms(1,4) by (subst pcm_loop_memory [OF refl h]) simp_all
  have "run_state (auds_write_pcm fuel 2 buffer bsize (MEMORY sz mem)) w =
      (Some (0, Some (int (reported_size ?s)), wbuf ?s), w)"
    using assms(1,3,4)
    by (simp add: auds_write_pcm_def write_header_fields loop write_zeros_fields chunk_fields_def
        reported_size_def Let_def)
  then show ?thesis using r ok0(2) assms(5) by (intro exI [of _ ?s]) (simp add: chunk_bits_def)
qed

subsection \<open>Properties\<close>

text \<open>C21. A chunk built from memory is the frame its fields describe: the 23-bit header, the sample count
  unless it is 4096, the samples with the bytes of each 16-bit value swapped, zeros for missing samples, and
  less than a byte of zero padding; the size reported is the number of bytes that holds it, and the buffer of
  16400 bytes is never exceeded.\<close>

theorem auds_write_pcm_frame:
  assumes "0 < bsize" and "bsize \<le> 4096" and "0 < m" and "min m (nat bsize) < fuel" and "length buffer = 16400"
  shows "\<exists>sz buf' z. run_state (auds_write_pcm fuel 2 buffer bsize (MEMORY (4 * int m) mem)) w =
      (Some (0, Some (int sz), buf'), w) \<and> sz \<le> length buf' \<and> length buf' = length buffer \<and> z < 8 \<and>
      concat (map (\<lambda>b. field b 8) (take sz buf')) = chunk_bits bsize mem (min m (nat bsize)) @ replicate z False"
proof -
  obtain s where s: "run_state (auds_write_pcm fuel 2 buffer bsize (MEMORY (4 * int m) mem)) w =
      (Some (0, Some (int (reported_size s)), wbuf s), w)" "writer_ok s" "length (wbuf s) = 16400"
      "written s = chunk_bits bsize mem (min m (nat bsize))"
    using auds_write_pcm_memory [OF assms, of "4 * int m"] by auto
  moreover have "reported_size s \<le> length (wbuf s)" using s(2) by (auto simp: reported_size_def writer_ok_def)
  ultimately show ?thesis using reported_bits [OF s(2)] assms(5) by metis
qed

theorem auds_write_pcm_frame_witness:
  "\<exists>sz buf' z. run_state (auds_write_pcm 9 2 (replicate 16400 0) 2 (MEMORY 4 [1, 2, 3, 4])) (quiet_os [] []) =
      (Some (0, Some (int sz), buf'), quiet_os [] []) \<and> z < 8 \<and>
     concat (map (\<lambda>b. field b 8) (take sz buf')) = chunk_bits 2 [1, 2, 3, 4] 1 @ replicate z False"
  using auds_write_pcm_frame [of 2 1 9 "replicate 16400 0" "[1, 2, 3, 4]" "quiet_os [] []"] by auto

text \<open>At the only rate the player uses the chunk is the 4096 samples the framing has as its default.  The
  promise of the code's comment, that a chunk resampled to 44100 never exceeds 4096 samples, fails at other
  rates, 44000 among them.\<close>

lemma chunk_size_rates:
  "aud_clac_chunk_size DEFAULT_SAMPLE_RATE = MAX_SAMPLES_IN_CHUNK \<and>
   MAX_SAMPLES_IN_CHUNK * 44000 < aud_clac_chunk_size 44000 * DEFAULT_SAMPLE_RATE \<and>
   MAX_SAMPLES_IN_CHUNK * 43600 < aud_clac_chunk_size 43600 * DEFAULT_SAMPLE_RATE"
  by code_simp

end
