(* ===== verification/FdEvents.thy ===== *)
theory FdEvents
  imports OsWorld
begin

text \<open>
  The table of watched descriptors of \<^verbatim>\<open>src/jni/raop_play/raop_play.c\<close> (\<open>set_fd_event\<close>,
  \<open>clear_fd_event\<close>), which the client and the audio source share with the main loop.  A slot whose
  descriptor is negative is free.  The interface the rest of the program relies on, that the table is a finite
  map from descriptors to their handlers, is the locale \<open>fd_table\<close>.
\<close>

definition MAX_NUM_OF_FDS :: nat where
  "MAX_NUM_OF_FDS = 4"

definition RAOP_FD_READ :: int where
  "RAOP_FD_READ = 1"

definition RAOP_FD_WRITE :: int where
  "RAOP_FD_WRITE = 2"

text \<open>The functions the program registers; \<open>No_callback\<close> is the null pointer.\<close>

datatype callback = No_callback | Console_read | Terminate_cbf | Fd_event_callback

record fdev =
  fd_num :: fd
  fd_cbf :: callback
  fd_flags :: int

record host = os +
  fds :: "fdev list"

text \<open>Overwrite the first slot that satisfies the test.\<close>

fun put_first :: "(fdev \<Rightarrow> bool) \<Rightarrow> fdev \<Rightarrow> fdev list \<Rightarrow> fdev list option" where
  "put_first P v [] = None"
| "put_first P v (e # es) = (if P e then Some (v # es) else map_option (Cons e) (put_first P v es))"

definition set_slot :: "fd \<Rightarrow> int \<Rightarrow> callback \<Rightarrow> fdev list \<Rightarrow> int \<times> fdev list" where
  "set_slot fd flags cbf es =
     (let v = \<lparr>fd_num = fd, fd_cbf = cbf, fd_flags = flags\<rparr>
      in case put_first (\<lambda>e. fd_num e = fd) v es of
           Some es' \<Rightarrow> (0, es')
         | None \<Rightarrow>
             (case put_first (\<lambda>e. fd_num e < 0) v es of Some es' \<Rightarrow> (0, es') | None \<Rightarrow> (-1, es)))"

definition free_slot :: fdev where
  "free_slot = \<lparr>fd_num = -1, fd_cbf = No_callback, fd_flags = 0\<rparr>"

definition clear_slot :: "fd \<Rightarrow> fdev list \<Rightarrow> int \<times> fdev list" where
  "clear_slot fd es =
     (case put_first (\<lambda>e. fd_num e = fd) free_slot es of Some es' \<Rightarrow> (0, es') | None \<Rightarrow> (-1, es))"

definition set_fd_event :: "fd \<Rightarrow> int \<Rightarrow> callback \<Rightarrow> ('a host_scheme, int) state" where
  "set_fd_event fd flags cbf =
     State (\<lambda>w. let (r, es) = set_slot fd flags cbf (fds w) in (r, w\<lparr>fds := es\<rparr>))"

definition clear_fd_event :: "fd \<Rightarrow> ('a host_scheme, int) state" where
  "clear_fd_event fd = State (\<lambda>w. let (r, es) = clear_slot fd (fds w) in (r, w\<lparr>fds := es\<rparr>))"

definition empty_slots :: "fdev list" where
  "empty_slots = replicate MAX_NUM_OF_FDS free_slot"

text \<open>The map a table stands for, and the invariant that makes it one.\<close>

definition watched :: "fdev list \<Rightarrow> fd \<Rightarrow> (callback \<times> int) option" where
  "watched es = map_of (map (\<lambda>e. (fd_num e, fd_cbf e, fd_flags e)) es)"

definition slots_ok :: "fdev list \<Rightarrow> bool" where
  "slots_ok es \<longleftrightarrow> length es = MAX_NUM_OF_FDS \<and> distinct (filter (\<lambda>f. 0 \<le> f) (map fd_num es))"

definition idle_host :: "int list \<Rightarrow> bytes option list \<Rightarrow> fdev list \<Rightarrow> host" where
  "idle_host as ins es = os.extend (quiet_os as ins) \<lparr>fds = es\<rparr>"

subsection \<open>The interface\<close>

locale fd_table =
  fixes lookup :: "'t \<Rightarrow> fd \<Rightarrow> (callback \<times> int) option"
    and insert :: "fd \<Rightarrow> int \<Rightarrow> callback \<Rightarrow> 't \<Rightarrow> int \<times> 't"
    and remove :: "fd \<Rightarrow> 't \<Rightarrow> int \<times> 't"
    and inv :: "'t \<Rightarrow> bool"
  assumes insert_same: "inv t \<Longrightarrow> 0 \<le> f \<Longrightarrow> insert f fl cb t = (0, t') \<Longrightarrow> lookup t' f = Some (cb, fl)"
    and insert_other: "inv t \<Longrightarrow> 0 \<le> f \<Longrightarrow> 0 \<le> g \<Longrightarrow> g \<noteq> f \<Longrightarrow> insert f fl cb t = (r, t') \<Longrightarrow> lookup t' g = lookup t g"
    and insert_inv: "inv t \<Longrightarrow> 0 \<le> f \<Longrightarrow> insert f fl cb t = (r, t') \<Longrightarrow> inv t'"
    and insert_known: "inv t \<Longrightarrow> 0 \<le> f \<Longrightarrow> lookup t f \<noteq> None \<Longrightarrow> fst (insert f fl cb t) = 0"
    and remove_same: "inv t \<Longrightarrow> 0 \<le> f \<Longrightarrow> remove f t = (r, t') \<Longrightarrow> lookup t' f = None"
    and remove_other: "inv t \<Longrightarrow> 0 \<le> f \<Longrightarrow> 0 \<le> g \<Longrightarrow> g \<noteq> f \<Longrightarrow> remove f t = (r, t') \<Longrightarrow> lookup t' g = lookup t g"
    and remove_inv: "inv t \<Longrightarrow> 0 \<le> f \<Longrightarrow> remove f t = (r, t') \<Longrightarrow> inv t'"
begin

lemma insert_remove:
  assumes "inv t" and "0 \<le> f" and "insert f fl cb t = (0, t1)" and "remove f t1 = (r, t2)" and "0 \<le> g"
  shows "lookup t2 g = (if g = f then None else lookup t g)"
  using assms insert_inv [of t f fl cb 0 t1] remove_same [of t1 f r t2] remove_other [of t1 f g r t2]
    insert_other [of t f g fl cb 0 t1] by auto

lemma insert_twice:
  assumes "inv t" and "0 \<le> f" and "insert f fl cb t = (0, t1)" and "insert f fl' cb' t1 = (r, t2)"
  shows "r = 0 \<and> lookup t2 f = Some (cb', fl')"
proof -
  have i: "inv t1" using insert_inv [OF assms(1-3)] .
  have "lookup t1 f \<noteq> None" using insert_same [OF assms(1-3)] by simp
  then have "fst (insert f fl' cb' t1) = 0" by (rule insert_known [OF i assms(2)])
  then show ?thesis using insert_same [OF i assms(2)] assms(4) by simp
qed

end

subsection \<open>The table of the program provides it\<close>

lemma put_first_SomeE:
  assumes "put_first P v es = Some es'"
  obtains a e b where "es = a @ e # b" and "es' = a @ v # b" and "P e" and "\<forall>x \<in> set a. \<not> P x"
  using assms
proof (induction es arbitrary: es' thesis)
  case (Cons e es)
  show ?case
  proof (cases "P e")
    case True
    then show ?thesis using Cons.prems(1) [of "[]" e es] Cons.prems(2) by simp
  next
    case False
    then obtain es1 where "put_first P v es = Some es1" "es' = e # es1" using Cons.prems(2) by auto
    moreover obtain a x b where "es = a @ x # b" "es1 = a @ v # b" "P x" "\<forall>y \<in> set a. \<not> P y"
      using Cons.IH calculation(1) by blast
    ultimately show ?thesis using Cons.prems(1) [of "e # a" x b] False by simp
  qed
qed simp

lemma put_first_None: "put_first P v es = None \<longleftrightarrow> (\<forall>e \<in> set es. \<not> P e)"
  by (induction es) auto

lemma watched_None: "watched es f = None \<longleftrightarrow> (\<forall>e \<in> set es. fd_num e \<noteq> f)"
  by (auto simp: watched_def map_of_eq_None_iff image_image)

lemma watched_append: "watched (a @ b) f = (case watched a f of None \<Rightarrow> watched b f | Some v \<Rightarrow> Some v)"
  by (simp add: watched_def map_add_def split: option.split)

lemma watched_Cons: "watched (e # b) f = (if fd_num e = f then Some (fd_cbf e, fd_flags e) else watched b f)"
  by (simp add: watched_def)

lemma set_slot_cases:
  assumes "set_slot fd fl cb es = (r, es')"
  obtains (written) a e b where "r = 0" and "es = a @ e # b"
      and "es' = a @ \<lparr>fd_num = fd, fd_cbf = cb, fd_flags = fl\<rparr> # b"
      and "\<forall>x \<in> set a. fd_num x \<noteq> fd"
      and "fd_num e = fd \<or> fd_num e < 0 \<and> (\<forall>x \<in> set es. fd_num x \<noteq> fd)"
  | (full) "r = -1" and "es' = es" and "\<forall>x \<in> set es. 0 \<le> fd_num x \<and> fd_num x \<noteq> fd"
proof (cases "put_first (\<lambda>e. fd_num e = fd) \<lparr>fd_num = fd, fd_cbf = cb, fd_flags = fl\<rparr> es")
  case (Some es1)
  then have "r = 0" "es' = es1" using assms by (simp_all add: set_slot_def)
  with Some show ?thesis by (auto elim!: put_first_SomeE intro: written)
next
  case m: None
  note n = m [unfolded put_first_None]
  show ?thesis
  proof (cases "put_first (\<lambda>e. fd_num e < 0) \<lparr>fd_num = fd, fd_cbf = cb, fd_flags = fl\<rparr> es")
    case (Some es1)
    then have "r = 0" "es' = es1" using assms m by (simp_all add: set_slot_def)
    moreover obtain a e b where "es = a @ e # b" "es1 = a @ \<lparr>fd_num = fd, fd_cbf = cb, fd_flags = fl\<rparr> # b"
      "fd_num e < 0" using Some by (rule put_first_SomeE)
    ultimately show ?thesis using n by (intro written [of a e b]) auto
  next
    case None
    then have "r = -1" "es' = es" using assms m by (simp_all add: set_slot_def)
    moreover have "\<forall>x \<in> set es. 0 \<le> fd_num x \<and> fd_num x \<noteq> fd"
      using None n by (auto simp: put_first_None not_less)
    ultimately show ?thesis by (rule full)
  qed
qed

lemma clear_slot_cases:
  assumes "clear_slot fd es = (r, es')"
  obtains (cleared) a e b where "r = 0" and "es = a @ e # b" and "es' = a @ free_slot # b"
      and "fd_num e = fd" and "\<forall>x \<in> set a. fd_num x \<noteq> fd"
  | (absent) "r = -1" and "es' = es" and "\<forall>x \<in> set es. fd_num x \<noteq> fd"
  using assms
  by (auto simp: clear_slot_def put_first_None split: option.splits elim!: put_first_SomeE)

interpretation fdt: fd_table watched set_slot clear_slot slots_ok
proof unfold_locales
  fix t t' :: "fdev list" and f g fl r :: int and cb
  assume ok: "slots_ok t" and f: "0 \<le> f"
  { assume "set_slot f fl cb t = (0, t')"
    then show "watched t' f = Some (cb, fl)"
      by (cases rule: set_slot_cases) (auto simp: watched_append watched_Cons watched_None [THEN iffD2]) }
  { assume "watched t f \<noteq> None"
    then show "fst (set_slot f fl cb t) = 0"
      by (cases "set_slot f fl cb t" rule: prod.exhaust)
        (auto simp: watched_None elim!: set_slot_cases) }
  { assume "set_slot f fl cb t = (r, t')"
    then show "slots_ok t'" using ok f
      by (cases rule: set_slot_cases) (auto simp: slots_ok_def)
    assume "0 \<le> g" "g \<noteq> f"
    with \<open>set_slot f fl cb t = (r, t')\<close> show "watched t' g = watched t g"
      by (cases rule: set_slot_cases) (auto simp: watched_append watched_Cons split: option.split) }
  { assume "clear_slot f t = (r, t')"
    then show "slots_ok t'" using ok f
      by (cases rule: clear_slot_cases) (auto simp: slots_ok_def free_slot_def split: if_splits)
    from \<open>clear_slot f t = (r, t')\<close> show "watched t' f = None"
      using ok f
      by (cases rule: clear_slot_cases) (auto simp: watched_None slots_ok_def free_slot_def image_iff)
    assume "0 \<le> g" "g \<noteq> f"
    with \<open>clear_slot f t = (r, t')\<close> show "watched t' g = watched t g"
      by (cases rule: clear_slot_cases) (auto simp: watched_append watched_Cons free_slot_def split: option.split) }
qed

subsection \<open>Properties\<close>

text \<open>The descriptor table is a finite map: registering a descriptor and clearing it again leaves every
  other descriptor's handler as it was, and the descriptor unwatched.\<close>

lemma set_clear_fd_event:
  assumes "slots_ok (fds w)" and "0 \<le> f" and "0 \<le> g"
    and "run_state (set_fd_event f flags cbf) w = (0, w1)" and "run_state (clear_fd_event f) w1 = (r, w2)"
  shows "watched (fds w2) g = (if g = f then None else watched (fds w) g) \<and> slots_ok (fds w2)"
proof -
  have s: "set_slot f flags cbf (fds w) = (0, fds w1)" and c: "clear_slot f (fds w1) = (r, fds w2)"
    using assms(4,5) by (auto simp: set_fd_event_def clear_fd_event_def Let_def split: prod.splits)
  show ?thesis
    using fdt.insert_remove [OF assms(1,2) s c assms(3)] fdt.insert_inv [OF assms(1,2) s]
      fdt.remove_inv [OF _ assms(2) c] by simp
qed

text \<open>Registration fails exactly when the descriptor is not in the table yet and all four slots are taken,
  and then changes nothing.\<close>

lemma set_fd_event_full:
  assumes "run_state (set_fd_event f flags cbf) w = (r, w')"
  shows "(r = -1 \<longleftrightarrow> watched (fds w) f = None \<and> (\<forall>e \<in> set (fds w). 0 \<le> fd_num e)) \<and>
    r \<in> {0, -1} \<and> (r = 0 \<or> fds w' = fds w)"
proof -
  have s: "set_slot f flags cbf (fds w) = (r, fds w')"
    using assms by (auto simp: set_fd_event_def Let_def case_prod_beta)
  then show ?thesis
    by (cases rule: set_slot_cases) (auto simp: watched_None)
qed

end
