(* ===== verification/PcmStream.thy ===== *)
theory PcmStream
  imports AexclLib AudioStream FdEvents
begin

text \<open>
  The audio source: \<^verbatim>\<open>src/jni/raop_play/pcm_stream.c\<close>, which reads raw samples from a file or from a client
  of its listening socket, and the operations of \<^verbatim>\<open>audio_stream.c\<close> that dispatch to it.  A block of memory
  is known by the address \<open>malloc\<close> returned; the sample buffer also has its contents.
\<close>

record pcm =
  paddr :: int
  dfd :: fd
  sfd :: fd
  pbuf :: int
  pdata :: bytes

datatype auds = Auds (auds_addr: int) (stream: "pcm option") (sample_rate: int)
  (sigchld_cb: "nat option") (chunk_size: int) (aud_type: data_type) (channels: int)
  (sub_auds: "auds option")

definition set_stream :: "pcm option \<Rightarrow> auds \<Rightarrow> auds" where
  "set_stream p a = Auds (auds_addr a) p (sample_rate a) (sigchld_cb a) (chunk_size a) (aud_type a)
     (channels a) (sub_auds a)"

definition set_rate :: "int \<Rightarrow> auds \<Rightarrow> auds" where
  "set_rate r a = Auds (auds_addr a) (stream a) r (sigchld_cb a) (aud_clac_chunk_size r) (aud_type a)
     (channels a) (sub_auds a)"

definition POLLIN :: int where
  "POLLIN = 1"

definition CHUNK_BUFFER :: nat where
  "CHUNK_BUFFER = 16400"

subsection \<open>\<open>pcm_stream.c\<close>\<close>

definition startsWith :: "string \<Rightarrow> string \<Rightarrow> int" where
  "startsWith a b = (if prefix_of b a then 1 else 0)"

definition pcm_close :: "auds \<Rightarrow> ('a os_scheme, int \<times> auds) state" where
  "pcm_close a = (case stream a of
       None \<Rightarrow> State_Monad.return (-1, a)
     | Some pcm \<Rightarrow> do {
         (if dfd pcm \<ge> 0 then emit (Close_call (dfd pcm)) else State_Monad.return ());
         (if sfd pcm \<ge> 0 then emit (Close_call (sfd pcm)) else State_Monad.return ());
         (if pbuf pcm \<noteq> 0 then emit (Free_call (pbuf pcm)) else State_Monad.return ());
         emit (Free_call (paddr pcm));
         State_Monad.return (0, set_stream None a)
       })"

definition pcm_fail :: "auds \<Rightarrow> ('a os_scheme, int \<times> auds) state" where
  "pcm_fail a = do { (_, a) \<leftarrow> pcm_close a; State_Monad.return (-1, a) }"

definition pcm_finish :: "pcm \<Rightarrow> auds \<Rightarrow> ('a os_scheme, int \<times> auds) state" where
  "pcm_finish pcm a = do {
     let a = set_rate DEFAULT_SAMPLE_RATE a;
     b \<leftarrow> sys (Malloc_call CHUNK_BUFFER);
     if b = 0 then pcm_fail a
     else State_Monad.return
       (0, set_stream (Some (pcm\<lparr>pbuf := b, pdata := replicate CHUNK_BUFFER 0\<rparr>)) a)
   }"

definition pcm_open :: "auds \<Rightarrow> string \<Rightarrow> ('a os_scheme, int \<times> auds) state" where
  "pcm_open a fname = do {
     p \<leftarrow> sys (Malloc_call 12);
     if p = 0 then State_Monad.return (-1, a)
     else if startsWith fname ''socket://'' = 0 then do {
       d \<leftarrow> sys (Open_call fname);
       let pcm = \<lparr>paddr = p, dfd = d, sfd = -1, pbuf = 0, pdata = []\<rparr>;
       let a = set_stream (Some pcm) a;
       if d < 0 then pcm_fail a else pcm_finish pcm a
     }
     else do {
       sockfd \<leftarrow> sys (Socket_call False);
       emit (Bind_call sockfd 0 (htons 4999));
       emit (Listen_call sockfd);
       let pcm = \<lparr>paddr = p, dfd = -1, sfd = sockfd, pbuf = 0, pdata = []\<rparr>;
       let a = set_stream (Some pcm) a;
       if sockfd < 0 then pcm_fail a
       else do {
         emit (Notify_call True);
         d \<leftarrow> sys (Accept_call sockfd);
         let pcm = pcm\<lparr>dfd := d\<rparr>;
         pcm_finish pcm (set_stream (Some pcm) a)
       }
     }
   }"

text \<open>The size of the read is \<open>chunk_size\<close> bytes from a socket and four times that from a file; what the read
  did not fill stays zero.  \<open>None\<close> is a null stream, or the chunk builder running
  out of passes.\<close>

definition pcm_get_next_sample ::
  "auds \<Rightarrow> ('a os_scheme, (int \<times> int option \<times> auds) option) state" where
  "pcm_get_next_sample a = (case stream a of
       None \<Rightarrow> State_Monad.return None
     | Some pcm \<Rightarrow> do {
         let n = nat (if sfd pcm \<ge> 0 then chunk_size a else chunk_size a * 4);
         rbuf \<leftarrow> sys (Malloc_call n);
         if rbuf = 0 then State_Monad.return (Some (-1, None, a))
         else do {
           (r, bs) \<leftarrow> sys_read (dfd pcm) n;
           let mem = bs @ replicate (n - length bs) 0;
           if r < 0 then State_Monad.return (Some (-1, None, a))
           else do {
             let sz = (if r < MINIMUM_SAMPLE_SIZE * 4 then MINIMUM_SAMPLE_SIZE * 4 else r);
             let bsize = sz div 4;
             res \<leftarrow> auds_write_pcm (nat bsize + 1) (channels a) (pdata pcm) bsize (MEMORY sz mem);
             emit (Free_call rbuf);
             State_Monad.return (map_option (\<lambda>(rval, size', buf).
               (rval, size', set_stream (Some (pcm\<lparr>pdata := buf\<rparr>)) a)) res)
           }
         }
       })"

definition pcm_poll_next_sample :: "auds \<Rightarrow> ('a host_scheme, int) state" where
  "pcm_poll_next_sample a = (case stream a of
       None \<Rightarrow> State_Monad.return 0
     | Some pcm \<Rightarrow> do {
         _ \<leftarrow> sys (Poll_call (dfd pcm) 0);
         revents \<leftarrow> result2;
         _ \<leftarrow> (if revents = 0 then set_fd_event (dfd pcm) RAOP_FD_READ No_callback
              else clear_fd_event (dfd pcm));
         State_Monad.return (and revents POLLIN)
       })"

subsection \<open>Dispatch in \<open>audio_stream.c\<close>\<close>

definition get_data_type :: "string \<Rightarrow> data_type" where
  "get_data_type fname = AUD_TYPE_PCM"

definition auds_close :: "auds \<Rightarrow> ('a os_scheme, int) state" where
  "auds_close a = do {
     a \<leftarrow> (if stream a \<noteq> None \<and> aud_type a = AUD_TYPE_PCM
          then do { (_, a) \<leftarrow> pcm_close a; State_Monad.return a } else State_Monad.return a);
     emit (Free_call (auds_addr a));
     State_Monad.return 0
   }"

definition auds_open :: "string \<Rightarrow> data_type \<Rightarrow> ('a os_scheme, auds option) state" where
  "auds_open fname adt = do {
     p \<leftarrow> sys (Malloc_call 48);
     if p = 0 then State_Monad.return None
     else do {
       let ty = (if adt = AUD_TYPE_NONE then get_data_type fname else adt);
       let a = Auds p None 0 None 0 ty 2 None;
       (rval, a) \<leftarrow> (case ty of AUD_TYPE_PCM \<Rightarrow> pcm_open a fname | AUD_TYPE_NONE \<Rightarrow> State_Monad.return (-1, a));
       if rval \<noteq> 0 then do { _ \<leftarrow> auds_close a; State_Monad.return None }
       else State_Monad.return (Some a)
     }
   }"

definition auds_get_top_sample :: "auds \<Rightarrow> ('a os_scheme, int) state" where
  "auds_get_top_sample a = State_Monad.return (-1)"

text \<open>The chunk comes from the lower stream if there is one.\<close>

definition lower_auds :: "auds \<Rightarrow> auds" where
  "lower_auds a = (case sub_auds a of None \<Rightarrow> a | Some l \<Rightarrow> l)"

definition set_lower :: "auds \<Rightarrow> auds \<Rightarrow> auds" where
  "set_lower l a = (case sub_auds a of
       None \<Rightarrow> l
     | Some _ \<Rightarrow> Auds (auds_addr a) (stream a) (sample_rate a) (sigchld_cb a) (chunk_size a)
         (aud_type a) (channels a) (Some l))"

definition auds_get_next_sample ::
  "auds \<Rightarrow> ('a os_scheme, (int \<times> int option \<times> auds) option) state" where
  "auds_get_next_sample a = (case aud_type (lower_auds a) of
       AUD_TYPE_PCM \<Rightarrow> do {
         r \<leftarrow> pcm_get_next_sample (lower_auds a);
         State_Monad.return (map_option (\<lambda>(v, sz, l). (v, sz, set_lower l a)) r)
       }
     | AUD_TYPE_NONE \<Rightarrow> State_Monad.return (Some (-1, None, a)))"

definition auds_poll_next_sample :: "auds \<Rightarrow> ('a host_scheme, int) state" where
  "auds_poll_next_sample a = (case aud_type a of
     AUD_TYPE_PCM \<Rightarrow> pcm_poll_next_sample a | AUD_TYPE_NONE \<Rightarrow> State_Monad.return 1)"

text \<open>Which child-exit callback is called, if any.\<close>

definition auds_sigchld :: "auds option \<Rightarrow> nat option" where
  "auds_sigchld ao = (case ao of
       None \<Rightarrow> None
     | Some a \<Rightarrow>
         (case sub_auds a of
            Some l \<Rightarrow> (case sigchld_cb l of Some c \<Rightarrow> Some c | None \<Rightarrow> sigchld_cb a)
          | None \<Rightarrow> sigchld_cb a))"

text \<open>The bytes a read delivers, and the array they are read into.\<close>

definition read_size :: "pcm \<Rightarrow> auds \<Rightarrow> nat" where
  "read_size pcm a = nat (if sfd pcm \<ge> 0 then chunk_size a else chunk_size a * 4)"

definition padded :: "nat \<Rightarrow> bytes \<Rightarrow> bytes" where
  "padded n bs = bs @ replicate (n - length bs) 0"

definition ready :: "pcm \<Rightarrow> auds \<Rightarrow> bool" where
  "ready pcm a \<longleftrightarrow> stream a = Some pcm \<and> channels a = 2 \<and> chunk_size a = 4096 \<and> length (pdata pcm) = 16400"

definition open_source :: auds where
  "open_source = Auds 1 (Some \<lparr>paddr = 2, dfd = 5, sfd = 4, pbuf = 3, pdata = replicate 16400 0\<rparr>)
     44100 None 4096 AUD_TYPE_PCM 2 None"

lemma auds_write_pcm_whole:
  assumes "4 \<le> sz" and "sz \<le> 16384" and "length buffer = 16400"
  shows "\<exists>n buf' z. run_state (auds_write_pcm (nat (sz div 4) + 1) 2 buffer (sz div 4) (MEMORY sz mem)) w =
      (Some (0, Some (int n), buf'), w) \<and> n \<le> 16400 \<and> length buf' = 16400 \<and> z < 8 \<and>
      concat (map (\<lambda>b. field b 8) (take n buf')) = chunk_bits (sz div 4) mem (nat (sz div 4)) @ replicate z False"
proof -
  let ?m = "nat ((sz + 3) div 4)" and ?b = "sz div 4"
  have h: "\<forall>c. sz \<le> int c * 4 \<longleftrightarrow> ?m \<le> c" by (auto simp: nat_le_iff)
  have m: "min ?m (nat ?b) = nat ?b" by (intro min_absorb2 nat_mono zdiv_mono1) simp_all
  have c: "0 < ?b" "?b \<le> 4096" "0 < ?m" using assms(1,2) by linarith+
  obtain s where s: "run_state (auds_write_pcm (nat ?b + 1) 2 buffer ?b (MEMORY sz mem)) w =
      (Some (0, Some (int (reported_size s)), wbuf s), w)" "writer_ok s" "length (wbuf s) = 16400"
      "written s = chunk_bits ?b mem (nat ?b)"
    using auds_write_pcm_memory [OF c _ assms(3) h, of "nat ?b + 1" mem w] unfolding m by auto
  moreover have "reported_size s \<le> 16400" using s(2,3) by (auto simp: reported_size_def writer_ok_def)
  ultimately show ?thesis using reported_bits [OF s(2)] by metis
qed

lemma pcm_chunk:
  assumes "ready pcm a" and "answers w = rb # as" and "rb \<noteq> 0"
    and "run_state (sys_read (dfd pcm) (read_size pcm a)) (w\<lparr>answers := as, trace := trace w @ [Malloc_call (read_size pcm a)]\<rparr>)
      = ((int (length bs), bs), w1)" and "length bs \<le> read_size pcm a"
  shows "\<exists>n buf' z. run_state (pcm_get_next_sample a) w =
      (Some (0, Some (int n), set_stream (Some (pcm\<lparr>pdata := buf'\<rparr>)) a), w1\<lparr>trace := trace w1 @ [Free_call rb]\<rparr>) \<and>
      n \<le> 16400 \<and> length buf' = 16400 \<and> z < 8 \<and> concat (map (\<lambda>b. field b 8) (take n buf')) =
        chunk_bits (max 32 (int (length bs) div 4)) (padded (read_size pcm a) bs) (max 32 (length bs div 4)) @ replicate z False"
proof -
  define sz where "sz = (if length bs < 128 then 128 else int (length bs))"
  have b: "4 \<le> sz" "sz \<le> 16384"
    using assms(1,5) by (auto simp: sz_def ready_def read_size_def split: if_splits)
  have d: "sz div 4 = max 32 (int (length bs) div 4)" "nat (sz div 4) = max 32 (length bs div 4)"
    by (auto simp: sz_def)
  obtain n buf' z where r: "run_state (auds_write_pcm (nat (sz div 4) + 1) 2 (pdata pcm) (sz div 4)
      (MEMORY sz (padded (read_size pcm a) bs))) w1 = (Some (0, Some (int n), buf'), w1)" "n \<le> 16400"
      "length buf' = 16400" "z < 8" "concat (map (\<lambda>b. field b 8) (take n buf')) =
        chunk_bits (sz div 4) (padded (read_size pcm a) bs) (nat (sz div 4)) @ replicate z False"
    using auds_write_pcm_whole [OF b, of "pdata pcm" "padded (read_size pcm a) bs" w1] assms(1)
    unfolding ready_def by blast
  have "run_state (pcm_get_next_sample a) w =
      (Some (0, Some (int n), set_stream (Some (pcm\<lparr>pdata := buf'\<rparr>)) a), w1\<lparr>trace := trace w1 @ [Free_call rb]\<rparr>)"
    using assms(1-4) r(1) unfolding pcm_get_next_sample_def ready_def
    by (cases "length bs < 128")
      (simp_all add: sys_def Let_def MINIMUM_SAMPLE_SIZE_def sz_def flip: read_size_def padded_def)
  then show ?thesis using r(2-5) unfolding d(2) unfolding d(1) by blast
qed

subsection \<open>Properties\<close>



text \<open>The end of the source is not the end of the song: when a read reports end of file the source
  still returns success, with a frame of 32 silent samples.\<close>

lemma pcm_eof_plays_silence:
  assumes "ready pcm a" and "answers w = rb # as" and "rb \<noteq> 0" and "inputs w = [] \<or> inputs w = Some [] # rest"
  shows "\<exists>len buf' z w'. run_state (pcm_get_next_sample a) w =
      (Some (0, Some (int len), set_stream (Some (pcm\<lparr>pdata := buf'\<rparr>)) a), w') \<and>
      concat (map (\<lambda>b. field b 8) (take len buf')) =
        chunk_bits 32 (replicate (read_size pcm a) 0) 32 @ replicate z False"
proof -
  let ?n = "read_size pcm a"
  obtain w1 where "run_state (sys_read (dfd pcm) ?n) (w\<lparr>answers := as, trace := trace w @ [Malloc_call ?n]\<rparr>)
      = ((int (length ([] :: bytes)), []), w1)"
    using assms(4) by (auto simp: sys_read_def)
  from pcm_chunk [OF assms(1-3) this] show ?thesis by (auto simp: padded_def)
qed

text \<open>A read error is reported, but the block allocated for the read is never freed.\<close>

lemma pcm_read_error_leaks:
  assumes "stream a = Some pcm" and "answers w = rb # as" and "rb \<noteq> 0" and "inputs w = None # rest"
  shows "\<exists>w'. run_state (pcm_get_next_sample a) w = (Some (-1, None, a), w') \<and>
    trace w' = trace w @ [Malloc_call (read_size pcm a), Read_call (dfd pcm) (read_size pcm a)]"
  using assms by (simp add: pcm_get_next_sample_def sys_def sys_read_def Let_def read_size_def)

text \<open>Opening a source is all or nothing: either it returns success with an open stream whose
  descriptors have not been closed and whose buffer has the full size, or it returns failure with no stream,
  and every descriptor it obtained is closed.\<close>

lemma pcm_open_all_or_nothing:
  assumes "answers w = p # x # y # as" and "p \<noteq> 0"
    and "run_state (pcm_open a fname) w = ((r, a'), w')"
  shows "(\<exists>pcm. r = 0 \<and> stream a' = Some pcm \<and> chunk_size a' = 4096 \<and> length (pdata pcm) = 16400 \<and>
           closed_fds (drop (length (trace w)) (trace w')) = []) \<or>
    r = -1 \<and> stream a' = None \<and>
      set (closed_fds (drop (length (trace w)) (trace w'))) =
        (if x < 0 then {} else {d. d = x \<or> d = y \<and> startsWith fname ''socket://'' \<noteq> 0 \<and> 0 \<le> y})"
proof -
  have c: "aud_clac_chunk_size DEFAULT_SAMPLE_RATE = 4096" by code_simp
  note defs = pcm_open_def pcm_fail_def pcm_finish_def pcm_close_def sys_def Let_def closed_fds_def
    set_stream_def set_rate_def CHUNK_BUFFER_def c
  show ?thesis
  proof (cases "startsWith fname ''socket://'' = 0")
    case True
    then show ?thesis using assms by (auto simp: defs split: if_splits)
  next
    case False
    then show ?thesis using assms by (auto simp: defs split: if_splits list.splits)
  qed
qed

end
