(* ===== verification/Base64.thy ===== *)
theory Base64
  imports Prelude
begin

text \<open>
  Model of \<^verbatim>\<open>src/jni/raop_play/base64.c\<close>.  A C string is a \<open>string\<close> without its terminating
  null byte; the data buffers are lists of bytes.  \<open>base64_encode\<close> takes the outcome of its
  \<open>malloc\<close> as an argument.  The lemmas show that the encoder never writes past the block it
  allocates, that decoding inverts encoding, and what the decoder does with bad input.
\<close>

subsection \<open>Alphabet\<close>

definition base64_chars :: string where
  "base64_chars = ''ABCDEFGHIJKLMNOPQRSTUVWXYZabcdefghijklmnopqrstuvwxyz0123456789+/''"

fun pos_from :: "string \<Rightarrow> int \<Rightarrow> char \<Rightarrow> int" where
  "pos_from [] i c = - 1"
| "pos_from (p # ps) i c = (if p = c then i else pos_from ps (i + 1) c)"

definition pos :: "char \<Rightarrow> int" where
  "pos c = pos_from base64_chars 0 c"

subsection \<open>Encoder\<close>

text \<open>One turn of the loop of \<open>base64_encode\<close> at index \<open>i\<close> writes four characters; the loop
  variable ends three further on, whether or not all three bytes exist.\<close>

definition encode_group :: "bytes \<Rightarrow> nat \<Rightarrow> string" where
  "encode_group q i =
     (let sz = length q;
          c = (ucast (q ! i) :: u32);
          c = c * 256;
          c = (if i + 1 < sz then c + ucast (q ! (i + 1)) else c);
          c = c * 256;
          c = (if i + 2 < sz then c + ucast (q ! (i + 2)) else c);
          i = i + 3;
          p0 = base64_chars ! unat (drop_bit 18 (c AND 0x00fc0000));
          p1 = base64_chars ! unat (drop_bit 12 (c AND 0x0003f000));
          p2 = base64_chars ! unat (drop_bit 6 (c AND 0x00000fc0));
          p3 = base64_chars ! unat (drop_bit 0 (c AND 0x0000003f));
          p3 = (if i > sz then CHR ''='' else p3);
          p2 = (if i > sz + 1 then CHR ''='' else p2)
      in [p0, p1, p2, p3])"

function encode_loop :: "bytes \<Rightarrow> nat \<Rightarrow> string" where
  "encode_loop q i = (if i < length q then encode_group q i @ encode_loop q (i + 3) else [])"
  by pat_completeness auto
termination
  by (relation "measure (\<lambda>(q, i). length q - i)") auto

declare encode_loop.simps [simp del]

definition base64_encode_alloc :: "nat \<Rightarrow> nat" where
  "base64_encode_alloc sz = sz * 4 div 3 + 4"

definition base64_encode :: "bool \<Rightarrow> bytes \<Rightarrow> int \<times> string option" where
  "base64_encode malloc_ok data =
     (if \<not> malloc_ok then (- 1, None)
      else let s = encode_loop data 0 in (int (length s), Some s))"

subsection \<open>Decoder\<close>

definition DECODE_ERROR :: u32 where
  "DECODE_ERROR = 0xffffffff"

text \<open>The loop over the four characters of a token; \<open>None\<close> is the early error return.\<close>

fun token_loop :: "string \<Rightarrow> u32 \<Rightarrow> nat \<Rightarrow> (u32 \<times> nat) option" where
  "token_loop [] val marker = Some (val, marker)"
| "token_loop (t # ts) val marker =
     (let val = val * 64 in
      if t = CHR ''='' then token_loop ts val (marker + 1)
      else if marker > 0 then None
      else token_loop ts (val + word_of_int (pos t)) marker)"

definition token_decode :: "string \<Rightarrow> u32" where
  "token_decode token =
     (if length token < 4 then DECODE_ERROR
      else case token_loop (take 4 token) 0 0 of
             None \<Rightarrow> DECODE_ERROR
           | Some (val, marker) \<Rightarrow>
               if marker > 2 then DECODE_ERROR
               else push_bit 24 (of_nat marker) OR val)"

text \<open>The value of \<open>base64_decode\<close> and the bytes it has written to the data buffer.\<close>

fun decode_loop :: "string \<Rightarrow> bytes \<Rightarrow> int \<times> bytes" where
  "decode_loop [] q = (int (length q), q)"
| "decode_loop (p # ps) q =
     (if p = CHR ''='' \<or> p \<in> set base64_chars then
        let val = token_decode (p # ps);
            marker = drop_bit 24 val AND 0xff
        in if val = DECODE_ERROR then (- 1, q)
           else decode_loop (drop 3 ps)
                  (q @ [ucast (drop_bit 16 val AND 0xff)]
                     @ (if marker < 2 then [ucast (drop_bit 8 val AND 0xff)] else [])
                     @ (if marker < 1 then [ucast (val AND 0xff)] else []))
      else (int (length q), q))"

definition base64_decode :: "string \<Rightarrow> int \<times> bytes" where
  "base64_decode str = decode_loop str []"

subsection \<open>Encoding and decoding of one group\<close>

lemma length_base64_chars [simp]: "length base64_chars = 64"
  by (simp add: base64_chars_def)

lemma pos_nth: "k < 64 \<Longrightarrow> pos (base64_chars ! k) = int k"
proof -
  have "\<forall>k \<in> set [0..<64]. pos (base64_chars ! k) = int k"
    by code_simp
  then show "k < 64 \<Longrightarrow> ?thesis" by simp
qed

lemma base64_chars_not_pad: "k < 64 \<Longrightarrow> base64_chars ! k \<noteq> CHR ''=''"
proof -
  have "CHR ''='' \<notin> set base64_chars" by code_simp
  then show "k < 64 \<Longrightarrow> ?thesis" by (metis length_base64_chars nth_mem)
qed

lemma field_and_mask:
  "drop_bit 18 (c AND 0x00fc0000) = take_bit 6 (drop_bit 18 (c :: u32))"
  "drop_bit 12 (c AND 0x0003f000) = take_bit 6 (drop_bit 12 c)"
  "drop_bit 6 (c AND 0x00000fc0) = take_bit 6 (drop_bit 6 c)"
  "drop_bit 0 (c AND 0x0000003f) = take_bit 6 (drop_bit 0 c)"
proof -
  have m: "(0x00fc0000 :: u32) = push_bit 18 (mask 6)" "(0x0003f000 :: u32) = push_bit 12 (mask 6)"
    "(0x00000fc0 :: u32) = push_bit 6 (mask 6)" "(0x0000003f :: u32) = push_bit 0 (mask 6)"
    by (simp_all add: mask_eq_exp_minus_1)
  show "drop_bit 18 (c AND 0x00fc0000) = take_bit 6 (drop_bit 18 (c :: u32))"
  "drop_bit 12 (c AND 0x0003f000) = take_bit 6 (drop_bit 12 c)"
  "drop_bit 6 (c AND 0x00000fc0) = take_bit 6 (drop_bit 6 c)"
  "drop_bit 0 (c AND 0x0000003f) = take_bit 6 (drop_bit 0 c)"
   unfolding m by (auto intro!: bit_word_eqI simp: bit_simps)
qed

lemma unat_field: "unat (take_bit 6 (drop_bit k (c :: u32))) = unat c div 2 ^ k mod 64"
  using unat_u32_less [of c]
  by (simp only: unsigned_take_bit_eq unsigned_drop_bit_eq take_bit_length_eq)
    (simp add: take_bit_eq_mod drop_bit_eq_div)

lemmas encode_index = field_and_mask unat_field

lemma token_loop_full:
  assumes "\<forall>k \<in> set ks. k < 64"
  shows "token_loop (map ((!) base64_chars) ks @ replicate m CHR ''='') val 0 =
    Some (fold (\<lambda>k v. v * 64 + of_nat k) ks val * 64 ^ m, m)"
  using assms
proof (induction ks arbitrary: val)
  case Nil
  have "token_loop (replicate m CHR ''='') val j = Some (val * 64 ^ m, j + m)" for val j
    by (induction m arbitrary: val j) (auto simp: algebra_simps)
  then show ?case by simp
next
  case (Cons k ks)
  then show ?case by (simp add: pos_nth base64_chars_not_pad)
qed

lemma fold64_of_nat:
  "fold (\<lambda>k v. v * 64 + of_nat k) ks (of_nat v :: u32) = of_nat (fold (\<lambda>k v. v * 64 + k) ks v)"
proof (induction ks arbitrary: v)
  case (Cons k ks)
  have "of_nat v * 64 + of_nat k = (of_nat (v * 64 + k) :: u32)" by simp
  then show ?case using Cons [of "v * 64 + k"] by simp
qed simp

lemma fold64_digits:
  assumes "(n :: nat) < 16777216"
  shows "fold (\<lambda>k v. v * 64 + k) [n div 262144 mod 64, n div 4096 mod 64, n div 64 mod 64, n mod 64] 0 = n"
proof -
  have d: "n div 4096 = n div 64 div 64" "n div 262144 = n div 64 div 64 div 64"
    by (simp_all add: div_mult2_eq [symmetric])
  have "n div 64 div 64 div 64 mod 64 = n div 64 div 64 div 64"
    using assms by (simp add: div_mult2_eq [symmetric])
  then show ?thesis unfolding d by simp
qed

lemma encode_group_append: "encode_group (p @ q) (length p + j) = encode_group q j"
proof -
  have n: "(p @ q) ! (length p + j + k) = q ! (j + k)" for k
    by (metis add.assoc nth_append_length_plus)
  show ?thesis
    using n [of 0] n [of 1] n [of 2] by (simp add: encode_group_def Let_def)
qed

lemma encode_loop_append: "encode_loop (p @ q) (length p + j) = encode_loop q j"
proof (induction q j rule: encode_loop.induct)
  case (1 q j)
  then show ?case
    by (simp add: encode_loop.simps [of q j] encode_loop.simps [of "p @ q" "length p + j"]
        encode_group_append add.assoc)
qed

lemma encode_loop_Nil [simp]: "encode_loop [] 0 = []"
  by (simp add: encode_loop.simps)

lemma encode_loop_chunk:
  "encode_loop (a # b # c # q) 0 = encode_group (a # b # c # q) 0 @ encode_loop q 0"
  using encode_loop_append [of "[a, b, c]" q 0]
  by (simp add: encode_loop.simps [of "a # b # c # q" 0] eval_nat_numeral)

lemma encode_loop_last:
  "encode_loop [a] 0 = encode_group [a] 0" "encode_loop [a, b] 0 = encode_group [a, b] 0"
  by (simp_all add: encode_loop.simps [of "[a]" 0] encode_loop.simps [of "[a, b]" 0]
      encode_loop.simps [of "[a]" 3] encode_loop.simps [of "[a, b]" 3])

lemma encode_group_eq:
  "encode_group (a # b # c # q) 0 =
     (let n = unat (pack 0 a b c) in
      map ((!) base64_chars) [n div 262144 mod 64, n div 4096 mod 64, n div 64 mod 64, n mod 64])"
  "encode_group [a, b] 0 =
     (let n = unat (pack 0 a b 0) in
      map ((!) base64_chars) [n div 262144 mod 64, n div 4096 mod 64, n div 64 mod 64] @ ''='')"
  "encode_group [a] 0 =
     (let n = unat (pack 0 a 0 0) in
      map ((!) base64_chars) [n div 262144 mod 64, n div 4096 mod 64] @ ''=='')"
  unfolding encode_group_def Let_def encode_index
  by (simp_all add: pack_sum unat_field [where k = 0, simplified])

lemma token_decode_pad:
  assumes "\<forall>k \<in> set ks. k < 64" and "length ks + m = 4" and "m \<le> 2"
  shows "token_decode (map ((!) base64_chars) ks @ replicate m CHR ''='' @ rest) =
    push_bit 24 (of_nat m) OR (fold (\<lambda>k v. v * 64 + of_nat k) ks 0 * 64 ^ m)"
proof -
  have "take 4 (map ((!) base64_chars) ks @ replicate m CHR ''='' @ rest) =
      map ((!) base64_chars) ks @ replicate m CHR ''=''"
    using assms(2) by simp
  then show ?thesis
    using token_loop_full [OF assms(1), of m 0] assms(2,3)
    by (simp only: token_decode_def) simp
qed

lemma pack_or_24: "push_bit 24 (ucast m) OR pack 0 a b c = pack m a b c"
  by (rule bit_word_eqI) (auto simp: bit_pack bit_simps dest: bit_imp_le_length)

lemma token_decode_group:
  "token_decode (encode_group (a # b # c # q) 0 @ rest) = pack 0 a b c"
  "token_decode (encode_group [a, b] 0 @ rest) = pack 1 a b 0"
  "token_decode (encode_group [a] 0 @ rest) = pack 2 a 0 0"
proof -
  have small: "unat (pack 0 a b c) < 16777216" for a b c
    using unat_u8_less [of a] unat_u8_less [of b] unat_u8_less [of c] by (simp add: unat_pack)
  have z1: "unat (pack 0 a b 0) mod 64 = 0" for a b
    by (simp add: unat_pack)
  have z2: "unat (pack 0 a 0 0) div 64 mod 64 = 0"  "unat (pack 0 a 0 0) mod 64 = 0"
    by (simp_all add: unat_pack)
  have r2: "replicate 2 x = [x, x]" for x :: char
    by (simp add: numeral_2_eq_2)
  note d = fold64_digits [OF small, THEN arg_cong [where f = "of_nat :: nat \<Rightarrow> u32"], folded fold64_of_nat]
  show "token_decode (encode_group (a # b # c # q) 0 @ rest) = pack 0 a b c"
    using token_decode_pad [of "[_, _, _, _]" 0 rest]  d [of a b c]
    by (simp add: encode_group_eq Let_def)
  show "token_decode (encode_group [a, b] 0 @ rest) = pack 1 a b 0"
    using token_decode_pad [of "[_, _, _]" 1 rest] d [of a b 0] pack_or_24 [of 1 a b 0]
    by (simp add: encode_group_eq Let_def z1)
  show "token_decode (encode_group [a] 0 @ rest) = pack 2 a 0 0"
    using token_decode_pad [of "[_, _]" 2 rest] d [of a 0 0] pack_or_24 [of 2 a 0 0]
    by (simp add: encode_group_eq Let_def z2 r2 mult.commute)
qed


lemma pack_eq_DECODE_ERROR: "pack a b c d = DECODE_ERROR \<longleftrightarrow> a = 255 \<and> b = 255 \<and> c = 255 \<and> d = 255"
proof -
  have e: "DECODE_ERROR = pack 255 255 255 255"
    by (simp add: DECODE_ERROR_def pack_def)
  show ?thesis unfolding e by (rule pack_eq_iff)
qed

lemma marker_pack: "drop_bit 24 (pack m a b c) AND 0xff = ucast m"
  unfolding u8_mask by (rule bit_word_eqI) (auto simp: bit_simps bit_pack dest: bit_imp_le_length)

lemma encode_group_head:
  "\<exists>c cs. encode_group (a # q) 0 = c # cs \<and> c \<in> set base64_chars \<and> length cs = 3"
proof -
  have "\<exists>k < 64. hd (encode_group (a # q) 0) = base64_chars ! k"
    unfolding encode_group_def Let_def encode_index list.sel
    by (rule exI, rule conjI [OF _ refl]) simp
  moreover have "length (encode_group (a # q) 0) = 4"
    by (simp add: encode_group_def Let_def)
  ultimately show ?thesis
    by (cases "encode_group (a # q) 0") (auto simp: in_set_conv_nth)
qed

lemma decode_loop_group:
  "decode_loop (encode_group (a # b # c # q) 0 @ rest) out = decode_loop rest (out @ [a, b, c])"
  "decode_loop (encode_group [a, b] 0 @ rest) out = decode_loop rest (out @ [a, b])"
  "decode_loop (encode_group [a] 0 @ rest) out = decode_loop rest (out @ [a])"
proof -
  have step: "decode_loop (g # gs @ rest) out =
      decode_loop rest (out @ [x] @ (if m < 2 then [y] else []) @ (if m < 1 then [z] else []))"
    if "token_decode (g # gs @ rest) = pack m x y z" "g \<in> set base64_chars" "length gs = 3" "m \<noteq> 255"
    for g gs m x y z
  proof -
    have "drop_bit 24 (pack m x y z) AND 0xff < 2 \<longleftrightarrow> m < 2" "drop_bit 24 (pack m x y z) AND 0xff < 1 \<longleftrightarrow> m < 1"
      by (simp_all only: marker_pack word_less_nat_alt unat_ucast_u8) simp_all
    moreover have "ucast (drop_bit 16 (pack m x y z) AND 0xff) = x" "ucast (drop_bit 8 (pack m x y z) AND 0xff) = y"
      "ucast (pack m x y z AND 0xff) = z" for m
      using ucast_and_ff [of 0 "pack m x y z"] by (simp_all only: ucast_and_ff byte_of_pack drop_bit_0 id_apply)
    ultimately show ?thesis
      using that by (simp add: pack_eq_DECODE_ERROR Let_def)
  qed
  show "decode_loop (encode_group (a # b # c # q) 0 @ rest) out = decode_loop rest (out @ [a, b, c])"
    using encode_group_head [of a "b # c # q"] token_decode_group(1) [of a b c q rest] step by fastforce
  show "decode_loop (encode_group [a, b] 0 @ rest) out = decode_loop rest (out @ [a, b])"
    using encode_group_head [of a "[b]"] token_decode_group(2) [of a b rest] step by fastforce
  show "decode_loop (encode_group [a] 0 @ rest) out = decode_loop rest (out @ [a])"
    using encode_group_head [of a "[]"] token_decode_group(3) [of a rest] step by fastforce
qed

lemma decode_encode_loop: "decode_loop (encode_loop data 0) out = (int (length out + length data), out @ data)"
proof (induction data arbitrary: out rule: list_length_3_induct)
  case (Three a b c xs)
  then show ?case by (simp add: encode_loop_chunk decode_loop_group)
qed (use decode_loop_group [where rest = "[]"] in \<open>simp_all add: encode_loop_last\<close>)

lemma length_encode_loop: "length (encode_loop data 0) = 4 * ((length data + 2) div 3)"
proof (induction data rule: list_length_3_induct)
  case (Three a b c xs)
  then show ?case by (simp add: encode_loop_chunk encode_group_def Let_def) presburger
qed (simp_all add: encode_loop_last encode_group_def Let_def)


lemma length_decode_loop:
  "decode_loop str q = (r, out) \<Longrightarrow> length out \<le> length q + 3 * (length str div 4)"
proof (induction str q arbitrary: r out rule: decode_loop.induct)
  case (2 p ps q)
  show ?case
  proof (cases "(p = CHR ''='' \<or> p \<in> set base64_chars) \<and> token_decode (p # ps) \<noteq> DECODE_ERROR")
    case True
    then have "3 \<le> length ps"
      by (auto simp: token_decode_def split: if_splits)
    then have d: "length (p # ps) div 4 = Suc (length (drop 3 ps) div 4)"
      by simp
    show ?thesis
      using 2(1) [OF _ refl refl] 2(2) True d by (fastforce simp: Let_def split: if_splits)
  next
    case False
    then show ?thesis using 2(2) by (auto simp: Let_def split: if_splits)
  qed
qed simp

lemma token_decode_bad:
  assumes "x \<noteq> CHR ''=''" "y \<noteq> CHR ''=''" "z \<noteq> CHR ''=''" "w \<noteq> CHR ''=''"
  shows "token_decode (x # y # z # w # rest) =
    word_of_int (((pos x * 64 + pos y) * 64 + pos z) * 64 + pos w)"
  using assms by (simp add: token_decode_def)


subsection \<open>Properties\<close>

text \<open>C22. Decoding inverts encoding: whatever bytes \<open>base64_encode\<close> is given, \<open>base64_decode\<close> of the
  string it returns gives back exactly those bytes and their number.\<close>

theorem base64_roundtrip:
  assumes "base64_encode True data = (len, Some s)"
  shows "base64_decode s = (int (length data), data)"
  using assms decode_encode_loop [of data "[]"]
  by (auto simp: base64_encode_def base64_decode_def Let_def)

theorem base64_roundtrip_witness:
  "base64_encode True [0, 127, 255, 16] = (8, Some ''AH//EA=='') \<and>
   base64_decode ''AH//EA=='' = (4, [0, 127, 255, 16])"
proof -
  have "base64_encode True [0, 127, 255, 16] = (8, Some ''AH//EA=='')"
    by code_simp
  then show ?thesis using base64_roundtrip by fastforce
qed

text \<open>The encoder stays inside the block it allocates: as long as the \<^verbatim>\<open>int\<close> product
  \<open>size * 4\<close> does not overflow, the string and its terminating null byte need no more than the
  \<open>size * 4 / 3 + 4\<close> bytes requested, and the returned length is the padded length.\<close>

lemma base64_encode_fits:
  assumes "base64_encode True data = (len, Some s)" and "4 * length data < 2 ^ 31"
  shows "length s + 1 \<le> base64_encode_alloc (length data) \<and>
    len = int (4 * ((length data + 2) div 3)) \<and> len = int (length s)"
  using assms length_encode_loop [of data]
  by (auto simp: base64_encode_def base64_encode_alloc_def Let_def)

text \<open>The decoder never writes more than three bytes per four characters of its input, whatever
  that input is, and whether or not it ends in an error.\<close>

lemma base64_decode_bound:
  assumes "base64_decode str = (r, out)"
  shows "length out \<le> 3 * (length str div 4)"
  using length_decode_loop [of str "[]" r out] assms by (simp add: base64_decode_def)

end
