(* ===== verification/AesSpec.thy ===== *)
theory AesSpec
  imports Prelude
begin

text \<open>
  The block cipher standard (FIPS-197) as an executable reference: multiplication in the field with
  256 elements, the byte substitution, the four transformations of a 16-byte state, the key expansion
  and the two ciphers, in the standard's own terms.  The state is the list of its 16 bytes in input
  order, so that byte \<open>s[r,c]\<close> of the standard is element \<open>4 * c + r\<close>.
\<close>

subsection \<open>The field\<close>

definition xtime :: "u8 \<Rightarrow> u8" where
  "xtime b = (if bit b 7 then push_bit 1 b XOR 0x1B else push_bit 1 b)"

definition gf_mul :: "u8 \<Rightarrow> u8 \<Rightarrow> u8" where
  "gf_mul a b = foldr (\<lambda>i r. (if bit a i then (xtime ^^ i) b else 0) XOR r) [0..<8] 0"

definition gf_inv :: "u8 \<Rightarrow> u8" where
  "gf_inv b = (gf_mul b ^^ 254) 1"

subsection \<open>The transformations\<close>

definition affine_bit :: "u8 \<Rightarrow> nat \<Rightarrow> bool" where
  "affine_bit b i = (bit b i \<noteq> (bit b ((i + 4) mod 8) \<noteq> (bit b ((i + 5) mod 8) \<noteq>
     (bit b ((i + 6) mod 8) \<noteq> (bit b ((i + 7) mod 8) \<noteq> bit (0x63 :: u8) i)))))"

definition SubByte :: "u8 \<Rightarrow> u8" where
  "SubByte b = horner_sum of_bool 2 (map (affine_bit (gf_inv b)) [0..<8])"

definition InvSubByte :: "u8 \<Rightarrow> u8" where
  "InvSubByte y = of_nat (hd (filter (\<lambda>x. SubByte (of_nat x) = y) [0..<256]))"

definition SubBytes :: "bytes \<Rightarrow> bytes" where
  "SubBytes s = map SubByte s"

definition InvSubBytes :: "bytes \<Rightarrow> bytes" where
  "InvSubBytes s = map InvSubByte s"

definition ShiftRows :: "bytes \<Rightarrow> bytes" where
  "ShiftRows s = map (\<lambda>i. s ! ((i + 4 * (i mod 4)) mod 16)) [0..<16]"

definition InvShiftRows :: "bytes \<Rightarrow> bytes" where
  "InvShiftRows s = map (\<lambda>i. s ! ((i + 12 * (i mod 4)) mod 16)) [0..<16]"

text \<open>A column is multiplied by the circulant matrix whose first row is given.\<close>

definition mix_column :: "u8 \<times> u8 \<times> u8 \<times> u8 \<Rightarrow> bytes \<Rightarrow> nat \<Rightarrow> bytes" where
  "mix_column m s c = (case m of (m0, m1, m2, m3) \<Rightarrow>
     let a = s ! (4 * c); b = s ! (4 * c + 1); d = s ! (4 * c + 2); e = s ! (4 * c + 3)
     in [gf_mul m0 a XOR gf_mul m1 b XOR gf_mul m2 d XOR gf_mul m3 e,
         gf_mul m3 a XOR gf_mul m0 b XOR gf_mul m1 d XOR gf_mul m2 e,
         gf_mul m2 a XOR gf_mul m3 b XOR gf_mul m0 d XOR gf_mul m1 e,
         gf_mul m1 a XOR gf_mul m2 b XOR gf_mul m3 d XOR gf_mul m0 e])"

definition MixColumns :: "bytes \<Rightarrow> bytes" where
  "MixColumns s = concat (map (mix_column (0x02, 0x03, 0x01, 0x01) s) [0..<4])"

definition InvMixColumns :: "bytes \<Rightarrow> bytes" where
  "InvMixColumns s = concat (map (mix_column (0x0E, 0x0B, 0x0D, 0x09) s) [0..<4])"

definition word_bytes :: "u32 \<Rightarrow> bytes" where
  "word_bytes w = [byte_of 24 w, byte_of 16 w, byte_of 8 w, byte_of 0 w]"

definition AddRoundKey :: "u32 list \<Rightarrow> nat \<Rightarrow> bytes \<Rightarrow> bytes" where
  "AddRoundKey w r s =
     map2 (XOR) s (concat (map (\<lambda>c. word_bytes (w ! (4 * r + c))) [0..<4]))"

subsection \<open>Key expansion\<close>

definition SubWord :: "u32 \<Rightarrow> u32" where
  "SubWord w = pack (SubByte (byte_of 24 w)) (SubByte (byte_of 16 w))
                    (SubByte (byte_of 8 w)) (SubByte (byte_of 0 w))"

definition RotWord :: "u32 \<Rightarrow> u32" where
  "RotWord w = pack (byte_of 16 w) (byte_of 8 w) (byte_of 0 w) (byte_of 24 w)"

definition Rcon :: "nat \<Rightarrow> u32" where
  "Rcon i = pack ((xtime ^^ (i - 1)) 1) 0 0 0"

definition key_temp :: "nat \<Rightarrow> nat \<Rightarrow> u32 \<Rightarrow> u32" where
  "key_temp Nk i temp =
     (if i mod Nk = 0 then SubWord (RotWord temp) XOR Rcon (i div Nk)
      else if Nk > 6 \<and> i mod Nk = 4 then SubWord temp else temp)"

definition key_next :: "nat \<Rightarrow> nat \<Rightarrow> u32 list \<Rightarrow> u32 list" where
  "key_next Nk i w = w @ [w ! (i - Nk) XOR key_temp Nk i (w ! (i - 1))]"

definition KeyExpansion :: "bytes \<Rightarrow> nat \<Rightarrow> nat \<Rightarrow> u32 list" where
  "KeyExpansion key Nk Nr = fold (key_next Nk) [Nk..<4 * (Nr + 1)]
     (map (\<lambda>i. pack (key ! (4 * i)) (key ! (4 * i + 1)) (key ! (4 * i + 2)) (key ! (4 * i + 3)))
        [0..<Nk])"

subsection \<open>The ciphers\<close>

definition Cipher_round :: "u32 list \<Rightarrow> nat \<Rightarrow> bytes \<Rightarrow> bytes" where
  "Cipher_round w r s = AddRoundKey w r (MixColumns (ShiftRows (SubBytes s)))"

definition Cipher :: "nat \<Rightarrow> u32 list \<Rightarrow> bytes \<Rightarrow> bytes" where
  "Cipher Nr w s =
     AddRoundKey w Nr (ShiftRows (SubBytes (fold (Cipher_round w) [1..<Nr] (AddRoundKey w 0 s))))"

definition InvCipher_round :: "u32 list \<Rightarrow> nat \<Rightarrow> bytes \<Rightarrow> bytes" where
  "InvCipher_round w r s = InvMixColumns (AddRoundKey w r (InvSubBytes (InvShiftRows s)))"

definition InvCipher :: "nat \<Rightarrow> u32 list \<Rightarrow> bytes \<Rightarrow> bytes" where
  "InvCipher Nr w s =
     AddRoundKey w 0 (InvSubBytes (InvShiftRows
       (fold (InvCipher_round w) (rev [1..<Nr]) (AddRoundKey w Nr s))))"

end
