(* ===== verification/AesField.thy ===== *)
theory AesField
  imports AesTables AesSpec
begin

text \<open>
  The field with 256 elements as \<^verbatim>\<open>aes.c\<close> computes in it: the macro \<^verbatim>\<open>XTIME\<close>, the powers
  of the generator 3 and their logarithms, the affine map of the S-box, and what the precomputed
  tables of the file hold in those terms.  The bit-level facts about the literal tables are found by
  computation, once, here; the other theories use the laws derived from them.
\<close>

subsection \<open>Definitions\<close>

definition XTIME :: "u8 \<Rightarrow> u8" where
  "XTIME x = push_bit 1 x XOR (if x AND 0x80 \<noteq> 0 then 0x1B else 0x00)"

definition gf_pow_list :: "u8 list" where
  "gf_pow_list = [
    1, 3, 5, 15, 17, 51, 85, 255, 26, 46, 114, 150, 161, 248, 19, 53,
    95, 225, 56, 72, 216, 115, 149, 164, 247, 2, 6, 10, 30, 34, 102, 170,
    229, 52, 92, 228, 55, 89, 235, 38, 106, 190, 217, 112, 144, 171, 230, 49,
    83, 245, 4, 12, 20, 60, 68, 204, 79, 209, 104, 184, 211, 110, 178, 205,
    76, 212, 103, 169, 224, 59, 77, 215, 98, 166, 241, 8, 24, 40, 120, 136,
    131, 158, 185, 208, 107, 189, 220, 127, 129, 152, 179, 206, 73, 219, 118, 154,
    181, 196, 87, 249, 16, 48, 80, 240, 11, 29, 39, 105, 187, 214, 97, 163,
    254, 25, 43, 125, 135, 146, 173, 236, 47, 113, 147, 174, 233, 32, 96, 160,
    251, 22, 58, 78, 210, 109, 183, 194, 93, 231, 50, 86, 250, 21, 63, 65,
    195, 94, 226, 61, 71, 201, 64, 192, 91, 237, 44, 116, 156, 191, 218, 117,
    159, 186, 213, 100, 172, 239, 42, 126, 130, 157, 188, 223, 122, 142, 137, 128,
    155, 182, 193, 88, 232, 35, 101, 175, 234, 37, 111, 177, 200, 67, 197, 84,
    252, 31, 33, 99, 165, 244, 7, 9, 27, 45, 119, 153, 176, 203, 70, 202,
    69, 207, 74, 222, 121, 139, 134, 145, 168, 227, 62, 66, 198, 81, 243, 14,
    18, 54, 90, 238, 41, 123, 141, 140, 143, 138, 133, 148, 167, 242, 13, 23,
    57, 75, 221, 124, 132, 151, 162, 253, 28, 36, 108, 180, 199, 82, 246, 1]"

definition gf_log_list :: "u8 list" where
  "gf_log_list = [
    0, 255, 25, 1, 50, 2, 26, 198, 75, 199, 27, 104, 51, 238, 223, 3,
    100, 4, 224, 14, 52, 141, 129, 239, 76, 113, 8, 200, 248, 105, 28, 193,
    125, 194, 29, 181, 249, 185, 39, 106, 77, 228, 166, 114, 154, 201, 9, 120,
    101, 47, 138, 5, 33, 15, 225, 36, 18, 240, 130, 69, 53, 147, 218, 142,
    150, 143, 219, 189, 54, 208, 206, 148, 19, 92, 210, 241, 64, 70, 131, 56,
    102, 221, 253, 48, 191, 6, 139, 98, 179, 37, 226, 152, 34, 136, 145, 16,
    126, 110, 72, 195, 163, 182, 30, 66, 58, 107, 40, 84, 250, 133, 61, 186,
    43, 121, 10, 21, 155, 159, 94, 202, 78, 212, 172, 229, 243, 115, 167, 87,
    175, 88, 168, 80, 244, 234, 214, 116, 79, 174, 233, 213, 231, 230, 173, 232,
    44, 215, 117, 122, 235, 22, 11, 245, 89, 203, 95, 176, 156, 169, 81, 160,
    127, 12, 246, 111, 23, 196, 73, 236, 216, 67, 31, 45, 164, 118, 123, 183,
    204, 187, 62, 90, 251, 96, 177, 134, 59, 82, 161, 108, 170, 85, 41, 157,
    151, 178, 135, 144, 97, 190, 220, 252, 188, 149, 207, 205, 55, 63, 91, 209,
    83, 57, 132, 60, 65, 162, 109, 71, 20, 42, 158, 93, 86, 242, 211, 171,
    68, 17, 146, 217, 35, 32, 46, 137, 180, 124, 184, 38, 119, 153, 227, 165,
    103, 74, 237, 222, 197, 49, 254, 24, 13, 99, 140, 128, 192, 247, 112, 7]"

definition gf_gen :: "u8 \<Rightarrow> u8" where
  "gf_gen x = x XOR XTIME x"

definition affine :: "u8 \<Rightarrow> u8" where
  "affine x =
     (let y = push_bit 1 x OR drop_bit 7 x; z = push_bit 1 y OR drop_bit 7 y;
          w = push_bit 1 z OR drop_bit 7 z; v = push_bit 1 w OR drop_bit 7 w
      in x XOR y XOR z XOR w XOR (v XOR 0x63))"

definition gf_9_11_13_14 :: "u8 \<Rightarrow> u8 \<times> u8 \<times> u8 \<times> u8" where
  "gf_9_11_13_14 y =
     (let y2 = XTIME y; y4 = XTIME y2; y8 = XTIME y4
      in (y8 XOR y4 XOR y2, y8 XOR y, y8 XOR y4 XOR y, y8 XOR y2 XOR y))"

abbreviation gf_pow :: "nat \<Rightarrow> u8" where
  "gf_pow i \<equiv> (gf_gen ^^ i) 1"

definition sbox :: "u8 \<Rightarrow> u8" where
  "sbox x = ucast (FSb_fixed ! unat x)"

definition inv_sbox :: "u8 \<Rightarrow> u8" where
  "inv_sbox x = ucast (RSb_fixed ! unat x)"

subsection \<open>The literal tables\<close>

lemma gf_pow_chain: "map gf_gen (butlast gf_pow_list) = tl gf_pow_list"
  by code_simp

lemma gf_log_pow: "map (\<lambda>x. gf_log_list ! unat x) (tl gf_pow_list) = map of_nat [1..<256]"
  by code_simp

lemma FSb_pow: "map (\<lambda>x. FSb_fixed ! unat x) (tl gf_pow_list) =
    map (\<lambda>x. ucast (affine x)) (rev (butlast gf_pow_list))"
  by code_simp

lemma RSb_FSb: "map (\<lambda>v. RSb_fixed ! unat v) FSb_fixed = map of_nat [0..<256]"
  by code_simp

lemma FT_FSb: "FT = map (\<lambda>v. let s = ucast v in (XTIME s, s, s, s XOR XTIME s)) FSb_fixed"
  by code_simp

lemma RT_RSb: "RT = map (\<lambda>v. gf_9_11_13_14 (ucast v)) RSb_fixed"
  by code_simp

lemma table_lengths [simp]:
  "length gf_pow_list = 256" "length gf_log_list = 256" "length FSb_fixed = 256"
  "length RSb_fixed = 256" "length FT = 256" "length RT = 256" "length RCON_fixed = 10"
  by (simp_all add: gf_pow_list_def gf_log_list_def FSb_fixed_def RSb_fixed_def FT_def RT_def
      RCON_fixed_def)

subsection \<open>The field\<close>

lemma XTIME_bit: "XTIME x = push_bit 1 x XOR (if bit x 7 then 0x1B else 0)"
proof -
  have "x AND 0x80 \<noteq> 0 \<longleftrightarrow> bit x 7"
  proof -
    have "(0x80 :: u8) = push_bit 7 1" by simp
    then show ?thesis
      by (simp only: and_exp_eq_0_iff_not_bit push_bit_of_1 simp_thms not_not)
  qed
  then show ?thesis by (simp add: XTIME_def)
qed

lemma XTIME_xor: "XTIME (x XOR y) = XTIME x XOR XTIME y"
  by (simp add: XTIME_bit bit_xor_iff push_bit_xor ac_simps)

lemma gf_gen_xor: "gf_gen (x XOR y) = gf_gen x XOR gf_gen y"
  by (simp add: gf_gen_def XTIME_xor ac_simps)

lemma XTIME_gf_gen: "XTIME (gf_gen x) = gf_gen (XTIME x)"
  by (simp add: gf_gen_def XTIME_xor)

lemma gf_pow_nth: "i < 256 \<Longrightarrow> gf_pow_list ! i = gf_pow i"
proof (induction i)
  case 0
  show ?case by (simp add: gf_pow_list_def)
next
  case (Suc i)
  then have "map gf_gen (butlast gf_pow_list) ! i = gf_gen (gf_pow_list ! i)"
    by (simp add: nth_butlast)
  with Suc show ?case by (simp add: gf_pow_chain nth_tl)
qed

lemma gf_pow_255: "gf_pow 255 = 1"
  using gf_pow_nth [of 255] by (simp add: gf_pow_list_def)

lemma gf_log_nth: "j \<in> {1..<256} \<Longrightarrow> gf_log_list ! unat (gf_pow j) = of_nat j"
proof -
  assume j: "j \<in> {1..<256}"
  then obtain k where k: "j = Suc k" "k < 255" by (cases j) auto
  then have "map (\<lambda>x. gf_log_list ! unat x) (tl gf_pow_list) ! k = gf_log_list ! unat (gf_pow_list ! j)"
    by (simp add: nth_tl)
  moreover have "map of_nat [1..<256] ! k = (of_nat j :: u8)"
    using k by (simp del: upt_Suc)
  ultimately show ?thesis
    using j by (simp add: gf_log_pow gf_pow_nth del: upt_Suc)
qed

lemma unat_of_nat_u8 [simp]: "i < 256 \<Longrightarrow> unat (of_nat i :: u8) = i"
  by (simp add: unat_of_nat)

lemma of_nat_u8_inj: "i < 256 \<Longrightarrow> j < 256 \<Longrightarrow> of_nat i = (of_nat j :: u8) \<longleftrightarrow> i = j"
  by (metis unat_of_nat_u8)

lemma of_nat_u8_0_iff: "i < 256 \<Longrightarrow> of_nat i = (0 :: u8) \<longleftrightarrow> i = 0"
  using of_nat_u8_inj [of i 0] by simp

lemma gf_pow_inj: "gf_pow i = gf_pow j \<Longrightarrow> i \<in> {1..<256} \<Longrightarrow> j \<in> {1..<256} \<Longrightarrow> i = j"
  by (metis gf_log_nth atLeastLessThan_iff unat_of_nat_u8)

lemma gf_pow_nonzero: "j \<in> {1..<256} \<Longrightarrow> gf_pow j \<noteq> 0"
proof
  assume j: "j \<in> {1..<256}" and "gf_pow j = 0"
  then have "(of_nat j :: u8) = gf_log_list ! 0"
    using gf_log_nth [OF j] by simp
  then have "unat (of_nat j :: u8) = 0" by (simp add: gf_log_list_def)
  then show False using j by simp
qed

lemma gf_pow_surj: assumes "y \<noteq> 0" obtains j where "j \<in> {1..<256}" "y = gf_pow j"
proof -
  have "inj_on gf_pow {1..<256}"
    by (rule inj_onI) (rule gf_pow_inj)
  then have "card (gf_pow ` {1..<256}) = 255"
    by (simp add: card_image)
  also have "255 = card (UNIV - {0 :: u8})"
    by (simp add: card_Diff_subset card_word)
  finally have "gf_pow ` {1..<256} = UNIV - {0}"
    using gf_pow_nonzero by (intro card_subset_eq) auto
  then have "y \<in> gf_pow ` {1..<256}" using assms by blast
  then show ?thesis using that by blast
qed

lemma gf_pow_mod: "gf_pow (i mod 255) = gf_pow i"
proof -
  have one: "gf_pow (255 * q) = 1" for q
    by (induction q) (simp_all add: funpow_add gf_pow_255 add.commute [of 255])
  have "gf_pow i = gf_pow (i mod 255 + 255 * (i div 255))"
    by simp
  also have "\<dots> = (gf_gen ^^ (i mod 255)) (gf_pow (255 * (i div 255)))"
    by (simp only: funpow_add o_apply)
  finally show ?thesis by (simp only: one)
qed

lemma XTIME_funpow: "XTIME ((gf_gen ^^ k) x) = (gf_gen ^^ k) (XTIME x)"
  by (induction k) (simp_all add: XTIME_gf_gen)

lemma funpow_gen_xor: "(gf_gen ^^ k) (x XOR y) = (gf_gen ^^ k) x XOR (gf_gen ^^ k) y"
  by (induction k) (simp_all add: gf_gen_xor)

lemma FSb_fixed_pow: "j \<in> {1..<256} \<Longrightarrow> FSb_fixed ! unat (gf_pow j) = ucast (affine (gf_pow (255 - j)))"
proof -
  assume j: "j \<in> {1..<256}"
  then obtain k where k: "j = Suc k" "k < 255" by (cases j) auto
  then have "map (\<lambda>x. FSb_fixed ! unat x) (tl gf_pow_list) ! k = FSb_fixed ! unat (gf_pow_list ! j)"
    by (simp add: nth_tl)
  moreover have "map (\<lambda>x. ucast (affine x)) (rev (butlast gf_pow_list)) ! k =
      ucast (affine (gf_pow_list ! (255 - j)))"
    using k by (simp add: rev_nth nth_butlast)
  ultimately have "FSb_fixed ! unat (gf_pow_list ! j) = ucast (affine (gf_pow_list ! (255 - j)))"
    using FSb_pow by metis
  then show ?thesis
    using j by (simp add: gf_pow_nth)
qed

lemma FSb_fixed_0: "FSb_fixed ! 0 = 0x63"
  by (simp add: FSb_fixed_def)

subsection \<open>The S-boxes as functions on bytes\<close>

lemma ucast_ucast_u8 [simp]: "ucast (ucast (x :: u8) :: u32) = x"
  by (rule bit_word_eqI) (simp add: bit_simps)

lemma FSb_fixed_nth: "FSb_fixed ! unat x = ucast (sbox x)"
proof (cases "x = 0")
  case True
  then show ?thesis by (simp add: sbox_def FSb_fixed_0)
next
  case False
  then obtain j where "j \<in> {1..<256}" "x = gf_pow j" by (rule gf_pow_surj)
  then show ?thesis by (simp add: sbox_def FSb_fixed_pow)
qed

lemma RSb_fixed_sbox: "RSb_fixed ! unat (sbox x) = ucast x"
proof -
  have "unat x < 256" by (rule unat_u8_less)
  then have "map (\<lambda>v. RSb_fixed ! unat v) FSb_fixed ! unat x = RSb_fixed ! unat (FSb_fixed ! unat x)"
    and "map of_nat [0..<256] ! unat x = (ucast x :: u32)"
    by (simp_all del: upt_Suc)
  then show ?thesis by (simp add: RSb_FSb FSb_fixed_nth del: upt_Suc)
qed

lemma inv_sbox_sbox [simp]: "inv_sbox (sbox x) = x"
  by (simp add: inv_sbox_def RSb_fixed_sbox)

lemma sbox_inj: "sbox x = sbox y \<longleftrightarrow> x = y"
  by (metis inv_sbox_sbox)

lemma sbox_inv_sbox [simp]: "sbox (inv_sbox y) = y"
proof -
  have "inj sbox" by (rule injI) (simp add: sbox_inj)
  then have "surj sbox" by (simp add: finite_UNIV_inj_surj)
  then obtain x where "y = sbox x" by (metis surj_def)
  then show ?thesis by simp
qed

lemma RSb_fixed_nth: "RSb_fixed ! unat y = ucast (inv_sbox y)"
  using RSb_fixed_sbox [of "inv_sbox y"] by simp

subsection \<open>Agreement with the standard\<close>

lemma XTIME_xtime: "XTIME x = xtime x"
  by (simp add: XTIME_bit xtime_def)

lemma xtime_xor: "xtime (x XOR y) = xtime x XOR xtime y"
  using XTIME_xor by (simp add: XTIME_xtime)

lemma funpow_xtime_xor: "(xtime ^^ k) (x XOR y) = (xtime ^^ k) x XOR (xtime ^^ k) y"
  by (induction k) (simp_all add: xtime_xor)

lemma xtime_0 [simp]: "xtime 0 = 0"
  by (simp add: xtime_def)

lemma funpow_xtime_0 [simp]: "(xtime ^^ k) 0 = 0"
  by (induction k) simp_all

lemma xtime_8: "(xtime ^^ 8) y = (xtime ^^ 4) y XOR (xtime ^^ 3) y XOR xtime y XOR y"
proof (cases "y = 0")
  case False
  then obtain j where y: "y = gf_pow j" by (rule gf_pow_surj)
  have comm: "(xtime ^^ k) (gf_pow j) = (gf_gen ^^ j) ((xtime ^^ k) 1)" for k
    by (induction k) (simp_all add: XTIME_xtime [symmetric] XTIME_funpow)
  have "(xtime ^^ 8) 1 = (xtime ^^ 4) 1 XOR (xtime ^^ 3) 1 XOR xtime 1 XOR 1"
    by code_simp
  then show ?thesis
    using comm [of 1] by (simp add: y comm funpow_gen_xor)
qed simp

lemma gf_mul_unfold: "gf_mul a y =
   (if bit a 0 then y else 0) XOR (if bit a 1 then xtime y else 0) XOR
   (if bit a 2 then (xtime ^^ 2) y else 0) XOR (if bit a 3 then (xtime ^^ 3) y else 0) XOR
   (if bit a 4 then (xtime ^^ 4) y else 0) XOR (if bit a 5 then (xtime ^^ 5) y else 0) XOR
   (if bit a 6 then (xtime ^^ 6) y else 0) XOR (if bit a 7 then (xtime ^^ 7) y else 0)"
proof -
  have "[0..<8] = [0, 1, 2, 3, 4, 5, 6, 7 :: nat]" by code_simp
  then show ?thesis by (simp add: gf_mul_def)
qed

lemma if_xor_if: "(if a then x else (0 :: u8)) XOR (if b then x else 0) = (if a \<noteq> b then x else 0)"
  by simp

lemma gf_mul_xor: "gf_mul (a XOR b) y = gf_mul a y XOR gf_mul b y"
  unfolding gf_mul_unfold bit_xor_iff if_xor_if [symmetric] by (simp only: ac_simps)

lemma gf_mul_xor_right: "gf_mul a (y XOR z) = gf_mul a y XOR gf_mul a z"
  unfolding gf_mul_unfold funpow_xtime_xor xtime_xor by (simp add: ac_simps)

lemma gf_mul_1 [simp]: "gf_mul 1 y = y"
  by (simp add: gf_mul_unfold)

lemma bit_push1: "bit (push_bit 1 (a :: u8)) n = (0 < n \<and> n < 8 \<and> bit a (n - 1))"
  unfolding bit_push_bit_iff by (auto simp: Suc_le_eq)

lemma bit_xtime: "bit (xtime a) n = ((0 < n \<and> n < 8 \<and> bit a (n - 1)) \<noteq> (bit a 7 \<and> bit (0x1B :: u8) n))"
  unfolding xtime_def by (cases "bit a 7") (simp_all only: bit_xor_iff bit_push1 if_True if_False simp_thms)

lemma xtime_bits: "bit (xtime a) 0 = bit a 7" "bit (xtime a) 1 = (bit a 0 \<noteq> bit a 7)"
  "bit (xtime a) 2 = bit a 1" "bit (xtime a) 3 = (bit a 2 \<noteq> bit a 7)"
  "bit (xtime a) 4 = (bit a 3 \<noteq> bit a 7)" "bit (xtime a) 5 = bit a 4"
  "bit (xtime a) 6 = bit a 5" "bit (xtime a) 7 = bit a 6"
  by (simp_all add: bit_xtime)

lemma gf_mul_xtime: "gf_mul (xtime a) y = xtime (gf_mul a y)"
proof -
  have if0: "xtime (if b then x else 0) = (if b then xtime x else 0)" for b x by simp
  have pow: "xtime ((xtime ^^ k) y) = (xtime ^^ (Suc k)) y" for k by simp
  have top: "(if b then (xtime ^^ 8) y else 0) = (if b then (xtime ^^ 4) y else 0) XOR
    (if b then (xtime ^^ 3) y else 0) XOR (if b then xtime y else 0) XOR (if b then y else 0)" for b
    by (simp only: xtime_8 if_True if_False split: if_split) simp
  have x2: "xtime (xtime y) = (xtime ^^ 2) y" by (simp add: numeral_2_eq_2)
  show ?thesis
    unfolding gf_mul_unfold xtime_bits xtime_xor if0 x2 pow if_xor_if [symmetric]
    by (simp only: Suc_numeral semiring_norm top) (simp only: ac_simps)
qed

lemma gf_mul_gen: "gf_mul (gf_gen a) y = gf_gen (gf_mul a y)"
  by (simp add: gf_gen_def XTIME_xtime gf_mul_xor gf_mul_xtime)

lemma gf_mul_pow: "gf_mul (gf_pow i) y = (gf_gen ^^ i) y"
  by (induction i) (simp_all add: gf_mul_gen)

lemma gf_inv_pow: "j \<in> {1..<256} \<Longrightarrow> gf_inv (gf_pow j) = gf_pow (255 - j)"
proof -
  assume j: "j \<in> {1..<256}"
  have *: "(gf_mul (gf_pow j) ^^ n) 1 = gf_pow (n * j)" for n
    by (induction n) (simp_all add: gf_mul_pow funpow_add)
  obtain k where "j = Suc k" "k < 255" using j by (cases j) auto
  then have "254 * j = (255 - j) + 255 * k" by simp
  then have "(254 * j) mod 255 = (255 - j) mod 255" by (simp only: mod_mult_self2)
  then show ?thesis
    unfolding gf_inv_def * by (metis gf_pow_mod)
qed

lemma gf_inv_0 [simp]: "gf_inv 0 = 0"
proof -
  have "gf_mul 0 y = 0" for y by (simp add: gf_mul_unfold)
  then show ?thesis by (simp add: gf_inv_def eval_nat_numeral)
qed

lemma rot1_bit: "i < 8 \<Longrightarrow> bit (push_bit 1 (x :: u8) OR drop_bit 7 x) i = bit x ((i + 7) mod 8)"
  unfolding bit_or_iff bit_push1 bit_drop_bit_eq o_apply
  by (cases i) (auto dest: bit_imp_le_length)

lemma affine_bits: "i < 8 \<Longrightarrow> bit (affine x) i = affine_bit x i"
proof -
  assume i: "i < 8"
  have m: "k mod 8 < (8 :: nat)" for k by simp
  have d: "((i + 7) mod 8 + 7) mod 8 = (i + 6) mod (8 :: nat)"
    "((i + 6) mod 8 + 7) mod 8 = (i + 5) mod (8 :: nat)"
    "((i + 5) mod 8 + 7) mod 8 = (i + 4) mod (8 :: nat)" by presburger+
  show ?thesis
    unfolding affine_def affine_bit_def Let_def bit_xor_iff rot1_bit [OF i] rot1_bit [OF m] d
    by blast
qed

lemma SubByte_affine: "SubByte b = affine (gf_inv b)"
proof (rule bit_word_eqI)
  fix n assume "n < LENGTH(8)"
  then have n: "n < 8" by simp
  then show "bit (SubByte b) n = bit (affine (gf_inv b)) n"
    unfolding SubByte_def affine_bits [OF n]
    by (simp add: bit_horner_sum_bit_iff nth_append del: upt_Suc)
qed

lemma sbox_SubByte: "sbox x = SubByte x"
proof (cases "x = 0")
  case True
  then show ?thesis
    by (simp add: SubByte_affine sbox_def FSb_fixed_0 affine_def)
next
  case False
  then obtain j where "j \<in> {1..<256}" "x = gf_pow j" by (rule gf_pow_surj)
  then show ?thesis by (simp add: SubByte_affine sbox_def FSb_fixed_pow gf_inv_pow)
qed

lemma inv_sbox_InvSubByte: "inv_sbox y = InvSubByte y"
proof -
  have "\<forall>x < 256. (sbox (of_nat x) = y) = (x = unat (inv_sbox y))"
  proof (intro allI impI)
    fix x :: nat assume "x < 256"
    then have "of_nat x = inv_sbox y \<longleftrightarrow> x = unat (inv_sbox y)"
      by (auto dest: arg_cong [where f = unat])
    then show "(sbox (of_nat x) = y) = (x = unat (inv_sbox y))"
      by (metis inv_sbox_sbox sbox_inv_sbox)
  qed
  then have "filter (\<lambda>x. sbox (of_nat x) = y) [0..<256] = [unat (inv_sbox y)]"
    by (intro filter_upt_unique unat_u8_less)
  then show ?thesis by (simp only: InvSubByte_def sbox_SubByte) simp
qed

lemma InvSubByte_SubByte [simp]: "InvSubByte (SubByte x) = x"
  by (simp flip: sbox_SubByte inv_sbox_InvSubByte)

end
