(* ===== verification/AesGen.thy ===== *)
theory AesGen
  imports AesField
begin

text \<open>
  Table generation of \<^verbatim>\<open>src/jni/raop_play/aes.c\<close> (\<open>aes_gen_tables\<close> and its macros), which the build
  uses because \<^verbatim>\<open>FIXED_TABLES\<close> is not set.  A C array is a list; the two local arrays start with
  whatever the stack holds, so their initial contents are arguments.  The main result is that the
  generated tables are the precomputed ones, whatever the arrays held before.
\<close>

record aes_tables =
  FSb :: "u32 list"
  FT0 :: "u32 list"
  FT1 :: "u32 list"
  FT2 :: "u32 list"
  FT3 :: "u32 list"
  RSb :: "u32 list"
  RT0 :: "u32 list"
  RT1 :: "u32 list"
  RT2 :: "u32 list"
  RT3 :: "u32 list"
  RCON :: "u32 list"

subsection \<open>Macros\<close>

definition ROTR8 :: "u32 \<Rightarrow> u32" where
  "ROTR8 x = (push_bit 24 x AND 0xFFFFFFFF) OR drop_bit 8 (x AND 0xFFFFFFFF)"

definition MUL :: "u8 list \<Rightarrow> u8 list \<Rightarrow> u8 \<Rightarrow> u8 \<Rightarrow> u8" where
  "MUL aes_pow aes_log x y =
     (if x \<noteq> 0 \<and> y \<noteq> 0
      then aes_pow ! ((unat (aes_log ! unat x) + unat (aes_log ! unat y)) mod 255) else 0)"

subsection \<open>Loop bodies\<close>

definition gen_pow_step :: "nat \<Rightarrow> u8 \<times> u8 list \<times> u8 list \<Rightarrow> u8 \<times> u8 list \<times> u8 list" where
  "gen_pow_step i = (\<lambda>(x, aes_pow, aes_log).
     (x XOR XTIME x, aes_pow[i := x], aes_log[unat x := of_nat i]))"

definition gen_rcon_step :: "nat \<Rightarrow> u8 \<times> u32 list \<Rightarrow> u8 \<times> u32 list" where
  "gen_rcon_step i = (\<lambda>(x, rcon). (XTIME x, rcon[i := push_bit 24 (ucast x)]))"

definition gen_sbox_step ::
  "u8 list \<Rightarrow> u8 list \<Rightarrow> nat \<Rightarrow> u32 list \<times> u32 list \<Rightarrow> u32 list \<times> u32 list" where
  "gen_sbox_step aes_pow aes_log i = (\<lambda>(fsb, rsb).
     let x = aes_pow ! (255 - unat (aes_log ! i));
         y = x; y = push_bit 1 y OR drop_bit 7 y;
         x = x XOR y; y = push_bit 1 y OR drop_bit 7 y;
         x = x XOR y; y = push_bit 1 y OR drop_bit 7 y;
         x = x XOR y; y = push_bit 1 y OR drop_bit 7 y;
         x = x XOR (y XOR 0x63)
     in (fsb[i := ucast x], rsb[unat x := of_nat i]))"

definition gen_round_step :: "u8 list \<Rightarrow> u8 list \<Rightarrow> nat \<Rightarrow> aes_tables \<Rightarrow> aes_tables" where
  "gen_round_step aes_pow aes_log i t =
     (let x = ucast (FSb t ! i) :: u8;
          y = XTIME x;
          ft0 = ucast (x XOR y) XOR push_bit 8 (ucast x) XOR push_bit 16 (ucast x)
                XOR push_bit 24 (ucast y);
          ft0 = ft0 AND 0xFFFFFFFF;
          ft1 = ROTR8 ft0;
          ft2 = ROTR8 ft1;
          ft3 = ROTR8 ft2;
          y = ucast (RSb t ! i);
          rt0 = ucast (MUL aes_pow aes_log 0x0B y)
                XOR push_bit 8 (ucast (MUL aes_pow aes_log 0x0D y))
                XOR push_bit 16 (ucast (MUL aes_pow aes_log 0x09 y))
                XOR push_bit 24 (ucast (MUL aes_pow aes_log 0x0E y));
          rt0 = rt0 AND 0xFFFFFFFF;
          rt1 = ROTR8 rt0;
          rt2 = ROTR8 rt1;
          rt3 = ROTR8 rt2
      in t\<lparr>FT0 := (FT0 t)[i := ft0], FT1 := (FT1 t)[i := ft1],
           FT2 := (FT2 t)[i := ft2], FT3 := (FT3 t)[i := ft3],
           RT0 := (RT0 t)[i := rt0], RT1 := (RT1 t)[i := rt1],
           RT2 := (RT2 t)[i := rt2], RT3 := (RT3 t)[i := rt3]\<rparr>)"

subsection \<open>The routine\<close>

definition aes_gen_tables :: "u8 list \<Rightarrow> u8 list \<Rightarrow> aes_tables \<Rightarrow> aes_tables" where
  "aes_gen_tables pow0 log0 t =
     (let (_, aes_pow, aes_log) = fold gen_pow_step [0..<256] (1, pow0, log0);
          (_, rcon) = fold gen_rcon_step [0..<10] (1, RCON t);
          t = t\<lparr>RCON := rcon\<rparr>;
          fsb = (FSb t)[0x00 := 0x63];
          rsb = (RSb t)[0x63 := 0x00];
          (fsb, rsb) = fold (gen_sbox_step aes_pow aes_log) [1..<256] (fsb, rsb);
          t = t\<lparr>FSb := fsb, RSb := rsb\<rparr>
      in fold (gen_round_step aes_pow aes_log) [0..<256] t)"

definition tables_sized :: "aes_tables \<Rightarrow> bool" where
  "tables_sized t \<longleftrightarrow>
     (\<forall>A \<in> {FSb t, FT0 t, FT1 t, FT2 t, FT3 t, RSb t, RT0 t, RT1 t, RT2 t, RT3 t}. length A = 256)
     \<and> length (RCON t) = 10"

definition aes_fixed_tables :: aes_tables where
  "aes_fixed_tables = \<lparr>FSb = FSb_fixed,
     FT0 = FT0_fixed, FT1 = FT1_fixed, FT2 = FT2_fixed, FT3 = FT3_fixed,
     RSb = RSb_fixed, RT0 = RT0_fixed, RT1 = RT1_fixed, RT2 = RT2_fixed, RT3 = RT3_fixed,
     RCON = RCON_fixed\<rparr>"

definition blank_tables :: aes_tables where
  "blank_tables = (let z = replicate 256 0 in \<lparr>FSb = z, FT0 = z, FT1 = z, FT2 = z, FT3 = z,
     RSb = z, RT0 = z, RT1 = z, RT2 = z, RT3 = z, RCON = replicate 10 0\<rparr>)"

abbreviation fwd_row :: "u32 \<Rightarrow> u8 \<times> u8 \<times> u8 \<times> u8" where
  "fwd_row v \<equiv> (let s = ucast v in (XTIME s, s, s, s XOR XTIME s))"

abbreviation rev_row :: "u32 \<Rightarrow> u8 \<times> u8 \<times> u8 \<times> u8" where
  "rev_row v \<equiv> gf_9_11_13_14 (ucast v)"

subsection \<open>The loops\<close>

lemma gen_pow_loop:
  "fold gen_pow_step [0..<n] (1, pow0, log0) =
     (gf_pow n, fold (\<lambda>i A. A[i := gf_pow i]) [0..<n] pow0,
      fold (\<lambda>i A. A[unat (gf_pow i) := of_nat i]) [0..<n] log0)"
  by (induction n) (simp_all add: gen_pow_step_def gf_gen_def)

lemma gen_pow_result:
  assumes "length pow0 = 256" and "length log0 = 256"
    and "fold gen_pow_step [0..<256] (1, pow0, log0) = (x, aes_pow, aes_log)"
  shows "aes_pow = map gf_pow [0..<256]" and "\<forall>j \<in> {1..<256}. aes_log ! unat (gf_pow j) = of_nat j"
proof -
  have p: "aes_pow = fold (\<lambda>i A. A[i := gf_pow i]) [0..<256] pow0"
    and l: "aes_log = fold (\<lambda>i A. A[unat (gf_pow i) := of_nat i]) [0..<256] log0"
    using assms(3) by (simp_all add: gen_pow_loop del: upt_Suc)
  show "aes_pow = map gf_pow [0..<256]"
    unfolding p by (rule fold_update_all) (rule assms(1))
  show "\<forall>j \<in> {1..<256}. aes_log ! unat (gf_pow j) = of_nat j"
    unfolding l
  proof (intro ballI nth_fold_update_last)
    fix j :: nat
    assume j: "j \<in> {1..<256}"
    show "j \<in> {0..<256}" using j by simp
    show "unat (gf_pow j) < length log0" using assms(2) unat_u8_less by simp
    show "\<forall>k. j < k \<and> k < 256 \<longrightarrow> unat (gf_pow k) \<noteq> unat (gf_pow j)"
    proof (intro allI impI notI)
      fix k assume "j < k \<and> k < 256" and "unat (gf_pow k) = unat (gf_pow j)"
      then show False using gf_pow_inj [OF unsigned_word_eqI, of k j] j by simp
    qed
  qed
qed

lemma gen_rcon_loop:
  "fold gen_rcon_step [0..<n] (1, rcon0) =
     ((XTIME ^^ n) 1, fold (\<lambda>i A. A[i := push_bit 24 (ucast ((XTIME ^^ i) 1))]) [0..<n] rcon0)"
  by (induction n) (simp_all add: gen_rcon_step_def)

lemma RCON_xtime: "map (\<lambda>i. push_bit 24 (ucast ((XTIME ^^ i) 1))) [0..<10] = RCON_fixed"
  by code_simp

lemma gen_rcon_result:
  "length rcon0 = 10 \<Longrightarrow> snd (fold gen_rcon_step [0..<10] (1, rcon0)) = RCON_fixed"
  by (simp only: gen_rcon_loop snd_conv fold_update_all RCON_xtime)

lemma gen_sbox_loop:
  "fold (gen_sbox_step aes_pow aes_log) [m..<n] (fsb, rsb) =
     (fold (\<lambda>i A. A[i := ucast (affine (aes_pow ! (255 - unat (aes_log ! i))))]) [m..<n] fsb,
      fold (\<lambda>i A. A[unat (affine (aes_pow ! (255 - unat (aes_log ! i)))) := of_nat i]) [m..<n] rsb)"
  by (induction n) (simp_all add: gen_sbox_step_def affine_def Let_def ac_simps)

lemma gen_sbox_entry:
  fixes aes_log :: "u8 list"
  assumes "aes_pow = map gf_pow [0..<256]"
    and "\<forall>j \<in> {1..<256}. aes_log ! unat (gf_pow j) = of_nat j"
    and "i \<in> {1..<256}"
  shows "affine (aes_pow ! (255 - unat (aes_log ! i))) = sbox (of_nat i)"
proof -
  have "(of_nat i :: u8) \<noteq> 0"
    using assms(3) unat_of_nat_u8 [of i] by (metis atLeastLessThan_iff unsigned_0 not_one_le_zero)
  then obtain j where j: "j \<in> {1..<256}" "of_nat i = gf_pow j"
    by (rule gf_pow_surj)
  then have "i = unat (gf_pow j)"
    using assms(3) by (metis atLeastLessThan_iff unat_of_nat_u8)
  then have "aes_log ! i = of_nat j"
    using assms(2) j by simp
  then have "255 - unat (aes_log ! i) = 255 - j"
    using j by simp
  moreover have "map gf_pow [0..<256] ! (255 - j) = gf_pow (0 + (255 - j))"
    by (rule nth_map_upt) simp
  ultimately have "aes_pow ! (255 - unat (aes_log ! i)) = gf_pow (255 - j)"
    by (simp only: assms(1) add_0)
  then show ?thesis
    using FSb_fixed_pow [OF j(1)] j by (simp add: sbox_def)
qed


lemma gen_sbox_result:
  fixes aes_log :: "u8 list"
  assumes N: "N = 256" and "aes_pow = map gf_pow [0..<256]"
    and "\<forall>j \<in> {1..<256}. aes_log ! unat (gf_pow j) = of_nat j"
    and "length fsb = 256" and "length rsb = 256"
  shows "fold (gen_sbox_step aes_pow aes_log) [1..<N] (fsb[0 := 0x63], rsb[0x63 := 0]) =
    (FSb_fixed, RSb_fixed)"
proof -
  let ?s = "\<lambda>i. affine (aes_pow ! (255 - unat (aes_log ! i)))"
  let ?f = "fold (\<lambda>i A. A[i := ucast (?s i)]) [1..<N] (fsb[0 := 0x63])"
  let ?r = "fold (\<lambda>i A. A[unat (?s i) := of_nat i]) [1..<N] (rsb[0x63 := 0])"
  have s: "?s i = sbox (of_nat i)" if "i \<in> {1..<N}" for i
    using gen_sbox_entry [OF assms(2,3)] that by (simp add: N)
  have s0: "sbox 0 = 0x63" by (simp add: sbox_def FSb_fixed_0)
  have "?f ! i = FSb_fixed ! i" if "i < N" for i
  proof (cases "i = 0")
    case True
    then have "?f ! i = fsb[0 := 0x63] ! i" by (intro nth_fold_update_other) auto
    then show ?thesis using True assms(4) by (simp add: FSb_fixed_0)
  next
    case False
    then have i: "i \<in> {1..<N}" using that by simp
    then have "?f ! i = ucast (?s i)"
      by (rule nth_fold_update_last [where f = "\<lambda>i. i"]) (use that N assms(4) in auto)
    then show ?thesis using s [OF i] FSb_fixed_nth [of "of_nat i"] that N by simp
  qed
  then have f: "?f = FSb_fixed"
    using assms(4) N by (intro nth_equalityI) (simp_all del: upt_Suc)
  have "?r ! p = RSb_fixed ! p" if "p < N" for p
  proof -
    define x where "x = inv_sbox (of_nat p)"
    then have p: "p = unat (sbox x)" using that N by simp
    show ?thesis
    proof (cases "x = 0")
      case True
      then have "unat (?s i) \<noteq> p" if "i \<in> set [1..<N]" for i
        using s [of i] that p sbox_inj [of "of_nat i" 0] unat_of_nat_u8 [of i]
        by (auto simp: N of_nat_u8_0_iff dest: unsigned_word_eqI)
      then have "?r ! p = rsb[0x63 := 0] ! p" by (intro nth_fold_update_other) blast
      then show ?thesis using True p assms(5) s0 RSb_fixed_sbox [of 0] by simp
    next
      case False
      define i where "i = unat x"
      then have i: "i \<in> {1..<N}" "x = of_nat i"
        using False unat_u8_less [of x] by (auto simp: Suc_le_eq unat_gt_0 N)
      have "?r ! unat (?s i) = of_nat i"
      proof (rule nth_fold_update_last [OF i(1)])
        show "unat (?s i) < length (rsb[0x63 := 0])" using assms(5) unat_u8_less by simp
        show "\<forall>k. i < k \<and> k < N \<longrightarrow> unat (?s k) \<noteq> unat (?s i)"
        proof (intro allI impI notI)
          fix k assume k: "i < k \<and> k < N" and "unat (?s k) = unat (?s i)"
          then have "sbox (of_nat k) = sbox (of_nat i)"
            using s [of k] s [OF i(1)] i(1) by (simp add: unsigned_word_eqI)
          then show False using k i(1) N unat_of_nat_u8 [of k] unat_of_nat_u8 [of i] by (simp add: sbox_inj)
        qed
      qed
      moreover have "unat (?s i) = p"
        unfolding s [OF i(1)] i(2) [symmetric] p ..
      moreover have "of_nat i = RSb_fixed ! p"
        unfolding p RSb_fixed_sbox i_def by simp
      ultimately show ?thesis by simp
    qed
  qed
  then have r: "?r = RSb_fixed"
    using assms(5) N by (intro nth_equalityI) (simp_all del: upt_Suc)
  show ?thesis unfolding gen_sbox_loop using f r by simp
qed

subsection \<open>The round tables\<close>

lemma ROTR8_pack: "ROTR8 (pack a b c d) = pack d a b c"
proof -
  have m: "(0xFFFFFFFF :: u32) = mask 32" by (simp add: mask_eq_exp_minus_1)
  show ?thesis
    unfolding ROTR8_def m
    by (rule bit_word_eqI) (auto simp: bit_pack bit_simps)
qed

lemma pack_xor_shifts:
  "ucast d XOR push_bit 8 (ucast c) XOR push_bit 16 (ucast b) XOR push_bit 24 (ucast a) = pack a b c d"
  by (rule bit_word_eqI) (auto simp: bit_pack bit_simps dest: bit_imp_le_length)

lemma and_all_ones: "(w :: u32) AND 0xFFFFFFFF = w"
proof -
  have m: "(0xFFFFFFFF :: u32) = mask 32" by (simp add: mask_eq_exp_minus_1)
  show ?thesis unfolding m by (rule bit_word_eqI) (simp add: bit_simps)
qed

lemma MUL_pow:
  assumes pow: "aes_pow = map gf_pow [0..<256]"
    and log: "\<forall>j \<in> {1..<256}. aes_log ! unat (gf_pow j) = of_nat j"
    and "c \<noteq> 0" and k: "k \<in> {1..<256}"
  shows "MUL aes_pow aes_log c (gf_pow k) = (gf_gen ^^ k) c"
proof -
  obtain j where j: "j \<in> {1..<256}" "c = gf_pow j"
    using \<open>c \<noteq> 0\<close> by (rule gf_pow_surj)
  have "MUL aes_pow aes_log c (gf_pow k) = aes_pow ! ((j + k) mod 255)"
    using assms(3) log j k gf_pow_nonzero [OF k] by (simp add: MUL_def)
  also have "\<dots> = gf_pow (0 + (j + k) mod 255)"
    unfolding pow by (rule nth_map_upt) (simp add: less_trans [OF mod_less_divisor])
  also have "\<dots> = gf_pow (k + j)"
    by (simp add: gf_pow_mod add.commute)
  finally show ?thesis using j by (simp add: funpow_add)
qed

lemma gf_gen_0 [simp]: "(gf_gen ^^ k) 0 = 0"
  by (induction k) (simp_all add: gf_gen_def XTIME_def)

lemma MUL_table:
  assumes pow: "aes_pow = map gf_pow [0..<256]"
    and log: "\<forall>j \<in> {1..<256}. aes_log ! unat (gf_pow j) = of_nat j"
  shows "(MUL aes_pow aes_log 0x0E y, MUL aes_pow aes_log 0x09 y,
          MUL aes_pow aes_log 0x0D y, MUL aes_pow aes_log 0x0B y) = gf_9_11_13_14 y"
proof (cases "y = 0")
  case True
  then show ?thesis by (simp add: MUL_def gf_9_11_13_14_def XTIME_def)
next
  case False
  then obtain k where k: "k \<in> {1..<256}" "y = gf_pow k" by (rule gf_pow_surj)
  note mul = MUL_pow [OF pow log _ k(1)]
  have x: "XTIME 1 = 2" "XTIME 2 = 4" "XTIME 4 = 8"
    by (simp_all add: XTIME_def)
  show ?thesis
    unfolding k(2) gf_9_11_13_14_def Let_def XTIME_funpow x funpow_gen_xor [symmetric]
    using mul by simp
qed


lemma gen_round_step_eq:
  assumes "aes_pow = map gf_pow [0..<256]"
    and "\<forall>j \<in> {1..<256}. aes_log ! unat (gf_pow j) = of_nat j"
  shows "gen_round_step aes_pow aes_log i t =
     t\<lparr>FT0 := (FT0 t)[i := (\<lambda>(a, b, c, d). pack a b c d) (fwd_row (FSb t ! i))],
       FT1 := (FT1 t)[i := (\<lambda>(a, b, c, d). pack d a b c) (fwd_row (FSb t ! i))],
       FT2 := (FT2 t)[i := (\<lambda>(a, b, c, d). pack c d a b) (fwd_row (FSb t ! i))],
       FT3 := (FT3 t)[i := (\<lambda>(a, b, c, d). pack b c d a) (fwd_row (FSb t ! i))],
       RT0 := (RT0 t)[i := (\<lambda>(a, b, c, d). pack a b c d) (rev_row (RSb t ! i))],
       RT1 := (RT1 t)[i := (\<lambda>(a, b, c, d). pack d a b c) (rev_row (RSb t ! i))],
       RT2 := (RT2 t)[i := (\<lambda>(a, b, c, d). pack c d a b) (rev_row (RSb t ! i))],
       RT3 := (RT3 t)[i := (\<lambda>(a, b, c, d). pack b c d a) (rev_row (RSb t ! i))]\<rparr>"
proof -
  note m = MUL_table [OF assms, of "ucast (RSb t ! i)", symmetric]
  show ?thesis
    unfolding gen_round_step_def Let_def pack_xor_shifts and_all_ones ROTR8_pack m prod.case
    by (rule refl)
qed

lemma fold_table_updates:
  "fold (\<lambda>i t. t\<lparr>FT0 := (FT0 t)[i := f0 i], FT1 := (FT1 t)[i := f1 i],
                  FT2 := (FT2 t)[i := f2 i], FT3 := (FT3 t)[i := f3 i],
                  RT0 := (RT0 t)[i := r0 i], RT1 := (RT1 t)[i := r1 i],
                  RT2 := (RT2 t)[i := r2 i], RT3 := (RT3 t)[i := r3 i]\<rparr>) is t =
   t\<lparr>FT0 := fold (\<lambda>i A. A[i := f0 i]) is (FT0 t), FT1 := fold (\<lambda>i A. A[i := f1 i]) is (FT1 t),
     FT2 := fold (\<lambda>i A. A[i := f2 i]) is (FT2 t), FT3 := fold (\<lambda>i A. A[i := f3 i]) is (FT3 t),
     RT0 := fold (\<lambda>i A. A[i := r0 i]) is (RT0 t), RT1 := fold (\<lambda>i A. A[i := r1 i]) is (RT1 t),
     RT2 := fold (\<lambda>i A. A[i := r2 i]) is (RT2 t), RT3 := fold (\<lambda>i A. A[i := r3 i]) is (RT3 t)\<rparr>"
  by (induction "is" arbitrary: t) simp_all

lemma fold_gen_round:
  assumes "aes_pow = map gf_pow [0..<256]"
    and "\<forall>j \<in> {1..<256}. aes_log ! unat (gf_pow j) = of_nat j"
  shows "fold (gen_round_step aes_pow aes_log) is t =
    fold (\<lambda>i t'. t'\<lparr>FT0 := (FT0 t')[i := (\<lambda>(a, b, c, d). pack a b c d) (fwd_row (FSb t ! i))],
                  FT1 := (FT1 t')[i := (\<lambda>(a, b, c, d). pack d a b c) (fwd_row (FSb t ! i))],
                  FT2 := (FT2 t')[i := (\<lambda>(a, b, c, d). pack c d a b) (fwd_row (FSb t ! i))],
                  FT3 := (FT3 t')[i := (\<lambda>(a, b, c, d). pack b c d a) (fwd_row (FSb t ! i))],
                  RT0 := (RT0 t')[i := (\<lambda>(a, b, c, d). pack a b c d) (rev_row (RSb t ! i))],
                  RT1 := (RT1 t')[i := (\<lambda>(a, b, c, d). pack d a b c) (rev_row (RSb t ! i))],
                  RT2 := (RT2 t')[i := (\<lambda>(a, b, c, d). pack c d a b) (rev_row (RSb t ! i))],
                  RT3 := (RT3 t')[i := (\<lambda>(a, b, c, d). pack b c d a) (rev_row (RSb t ! i))]\<rparr>) is t"
proof (induction "is" arbitrary: t)
  case (Cons i "is")
  show ?case
    unfolding fold_simps Cons unfolding gen_round_step_eq [OF assms] by simp
qed simp

lemma map_nth_table: "length xs = n \<Longrightarrow> map (\<lambda>i. g (xs ! i)) [0..<n] = map g xs"
  by (metis map_nth map_map comp_def map_cong)

lemma aes_gen_tables_fixed:
  assumes "length pow0 = 256" and "length log0 = 256" and "tables_sized t"
  shows "aes_gen_tables pow0 log0 t = aes_fixed_tables"
proof -
  obtain x aes_pow aes_log where g: "fold gen_pow_step [0..<256] (1, pow0, log0) = (x, aes_pow, aes_log)"
    by (metis prod_cases3)
  note pl = gen_pow_result [OF assms(1,2) g]
  obtain y rcon where r: "fold gen_rcon_step [0..<10] (1, RCON t) = (y, rcon)" "rcon = RCON_fixed"
    using gen_rcon_result [of "RCON t"] assms(3) by (metis tables_sized_def prod.collapse)
  have s: "fold (gen_sbox_step aes_pow aes_log) [1..<256] ((FSb t)[0 := 0x63], (RSb t)[0x63 := 0]) =
      (FSb_fixed, RSb_fixed)"
    using gen_sbox_result [OF refl pl] assms(3) by (simp add: tables_sized_def del: upt_Suc)
  have len: "length (FT0 t) = 256" "length (FT1 t) = 256" "length (FT2 t) = 256" "length (FT3 t) = 256"
    "length (RT0 t) = 256" "length (RT1 t) = 256" "length (RT2 t) = 256" "length (RT3 t) = 256"
    using assms(3) by (simp_all add: tables_sized_def)
  have "aes_gen_tables pow0 log0 t =
      fold (gen_round_step aes_pow aes_log) [0..<256] (t\<lparr>RCON := rcon, FSb := FSb_fixed, RSb := RSb_fixed\<rparr>)"
    unfolding aes_gen_tables_def Let_def g r(1) prod.case by (simp add: s [simplified] del: upt_Suc)
  also have "\<dots> = aes_fixed_tables"
  proof -
    define t' where "t' = t\<lparr>RCON := rcon, FSb := FSb_fixed, RSb := RSb_fixed\<rparr>"
    have sel: "FSb t' = FSb_fixed" "RSb t' = RSb_fixed"
      "FT0 t' = FT0 t" "FT1 t' = FT1 t" "FT2 t' = FT2 t" "FT3 t' = FT3 t"
      "RT0 t' = RT0 t" "RT1 t' = RT1 t" "RT2 t' = RT2 t" "RT3 t' = RT3 t"
      by (simp_all add: t'_def)
    note rows = FT0_fixed_def FT1_fixed_def FT2_fixed_def FT3_fixed_def
      RT0_fixed_def RT1_fixed_def RT2_fixed_def RT3_fixed_def FT_FSb RT_RSb map_map o_def
    have "fold (gen_round_step aes_pow aes_log) [0..<256] t' =
        t'\<lparr>FT0 := FT0_fixed, FT1 := FT1_fixed, FT2 := FT2_fixed, FT3 := FT3_fixed,
           RT0 := RT0_fixed, RT1 := RT1_fixed, RT2 := RT2_fixed, RT3 := RT3_fixed\<rparr>"
      unfolding fold_gen_round [OF pl] fold_table_updates sel rows
      by (simp only: fold_update_all len map_nth_table [OF table_lengths(3), symmetric]
          map_nth_table [OF table_lengths(4), symmetric])
    then show ?thesis
      unfolding t'_def [symmetric] by (simp add: t'_def r(2) aes_fixed_tables_def)
  qed
  finally show ?thesis .
qed

subsection \<open>Property\<close>

text \<open>C9. The routine that generates the cipher's tables at run time leaves exactly the tables the file
  also carries precomputed, whatever the table arrays and its two stack arrays held before.\<close>

theorem aes_gen_tables_correct:
  assumes "length pow0 = 256" and "length log0 = 256" and "tables_sized t"
  shows "aes_gen_tables pow0 log0 t = aes_fixed_tables"
  by (rule aes_gen_tables_fixed [OF assms])

theorem aes_gen_tables_correct_witness:
  "tables_sized blank_tables \<and>
   aes_gen_tables (replicate 256 7) (replicate 256 9) blank_tables = aes_fixed_tables"
  using aes_gen_tables_correct [of "replicate 256 7" "replicate 256 9" blank_tables]
  by (simp add: tables_sized_def blank_tables_def Let_def)

end
