(* ===== verification/AesLaws.thy ===== *)
theory AesLaws
  imports AesField
begin

text \<open>
  The laws of the block cipher standard: each inverse transformation undoes its transformation, the
  inverse column mix is linear (which is what lets a decryption round add a mixed round key), and
  the inverse cipher undoes the cipher for every key schedule and number of rounds.
\<close>

subsection \<open>Definitions\<close>

definition EqInv_round :: "u32 list \<Rightarrow> nat \<Rightarrow> bytes \<Rightarrow> bytes" where
  "EqInv_round dw r s = AddRoundKey dw r (InvMixColumns (InvSubBytes (InvShiftRows s)))"

subsection \<open>Products with the constants of the standard\<close>

lemma gf_mul_consts:
  "gf_mul 0x02 y = xtime y" "gf_mul 0x03 y = y XOR xtime y"
  "gf_mul 0x09 y = (xtime ^^ 3) y XOR y"
  "gf_mul 0x0B y = (xtime ^^ 3) y XOR xtime y XOR y"
  "gf_mul 0x0D y = (xtime ^^ 3) y XOR (xtime ^^ 2) y XOR y"
  "gf_mul 0x0E y = (xtime ^^ 3) y XOR (xtime ^^ 2) y XOR xtime y"
  by (simp_all add: gf_mul_unfold ac_simps)

subsection \<open>Lists of sixteen bytes\<close>

lemma state_length [simp]:
  "length (ShiftRows s) = 16" "length (InvShiftRows s) = 16"
  "length (MixColumns s) = 16" "length (InvMixColumns s) = 16"
  "length (SubBytes s) = length s" "length (InvSubBytes s) = length s"
  by (simp_all add: ShiftRows_def InvShiftRows_def MixColumns_def InvMixColumns_def upt_4
      mix_column_def SubBytes_def InvSubBytes_def Let_def)

lemma AddRoundKey_length [simp]: "length s = 16 \<Longrightarrow> length (AddRoundKey w r s) = 16"
  by (simp add: AddRoundKey_def upt_4 word_bytes_def)

lemma InvShiftRows_ShiftRows [simp]: "length s = 16 \<Longrightarrow> InvShiftRows (ShiftRows s) = s"
  by (elim list_16E) (simp add: InvShiftRows_def ShiftRows_def upt_16)

lemma InvSubBytes_SubBytes [simp]: "InvSubBytes (SubBytes s) = s"
  by (simp add: InvSubBytes_def SubBytes_def o_def)

lemma AddRoundKey_twice [simp]: "length s = 16 \<Longrightarrow> AddRoundKey w r (AddRoundKey w r s) = s"
  by (elim list_16E) (simp add: AddRoundKey_def upt_4 word_bytes_def xor.assoc)

lemma mix_inverse:
  fixes a b c d :: u8
  defines "m0 \<equiv> gf_mul 0x02 a XOR gf_mul 0x03 b XOR c XOR d"
    and "m1 \<equiv> a XOR gf_mul 0x02 b XOR gf_mul 0x03 c XOR d"
    and "m2 \<equiv> a XOR b XOR gf_mul 0x02 c XOR gf_mul 0x03 d"
    and "m3 \<equiv> gf_mul 0x03 a XOR b XOR c XOR gf_mul 0x02 d"
  shows "gf_mul 0x0E m0 XOR gf_mul 0x0B m1 XOR gf_mul 0x0D m2 XOR gf_mul 0x09 m3 = a"
    and "gf_mul 0x09 m0 XOR gf_mul 0x0E m1 XOR gf_mul 0x0B m2 XOR gf_mul 0x0D m3 = b"
    and "gf_mul 0x0D m0 XOR gf_mul 0x09 m1 XOR gf_mul 0x0E m2 XOR gf_mul 0x0B m3 = c"
    and "gf_mul 0x0B m0 XOR gf_mul 0x0D m1 XOR gf_mul 0x09 m2 XOR gf_mul 0x0E m3 = d"
  unfolding assms gf_mul_consts
  by (simp_all add: xtime_xor funpow_xtime_xor numeral_eq_Suc ac_simps xor_cancel_left)

lemma InvMixColumns_MixColumns [simp]: "length s = 16 \<Longrightarrow> InvMixColumns (MixColumns s) = s"
  by (elim list_16E) (simp add: InvMixColumns_def MixColumns_def upt_4 mix_column_def Let_def mix_inverse)

lemma InvMixColumns_AddRoundKey:
  assumes "length s = 16"
    and "\<forall>c < 4. word_bytes (dw ! (4 * q + c)) =
      mix_column (0x0E, 0x0B, 0x0D, 0x09) (word_bytes (w ! (4 * r + c))) 0"
  shows "InvMixColumns (AddRoundKey w r s) = AddRoundKey dw q (InvMixColumns s)"
proof -
  note k = assms(2) [rule_format, of 0, simplified] assms(2) [rule_format, of 1, simplified]
    assms(2) [rule_format, of 2, simplified] assms(2) [rule_format, of 3, simplified]
  show ?thesis
    using assms(1)
    by (elim list_16E)
      (simp add: AddRoundKey_def upt_4 k, simp add: InvMixColumns_def upt_4 word_bytes_def
        mix_column_def Let_def gf_mul_xor_right xor_ac)
qed

text \<open>Undoing the rounds: the decryption loop, started behind \<open>AddRoundKey\<close> of the last round, walks
  back through the states of the encryption loop.\<close>

lemma InvCipher_rounds:
  assumes "length s = 16" and "Nr \<ge> 1"
  shows "fold (InvCipher_round w) (rev [1..<Nr]) (ShiftRows (SubBytes (fold (Cipher_round w) [1..<Nr] s)))
    = ShiftRows (SubBytes s)"
  using assms(2)
proof (induction Nr rule: nat_induct_at_least)
  case base
  show ?case by simp
next
  case (Suc n)
  let ?s = "fold (Cipher_round w) [1..<n] s"
  have len: "length ?s = 16"
    using assms(1) by (induction n) (simp_all add: Cipher_round_def)
  have "InvCipher_round w n (ShiftRows (SubBytes (Cipher_round w n ?s))) = ShiftRows (SubBytes ?s)"
    using len by (simp add: InvCipher_round_def Cipher_round_def)
  then show ?case using Suc by simp
qed

lemma InvCipher_Cipher:
  assumes "length s = 16" and "Nr \<ge> 1"
  shows "InvCipher Nr w (Cipher Nr w s) = s"
proof -
  have len: "length (fold (Cipher_round w) [1..<Nr] (AddRoundKey w 0 s)) = 16"
    using assms(1) by (induction Nr) (simp_all add: Cipher_round_def)
  then show ?thesis
    using assms by (simp add: InvCipher_def Cipher_def InvCipher_rounds del: One_nat_def)
qed

lemma Cipher_length: "length s = 16 \<Longrightarrow> length (Cipher Nr w s) = 16"
proof -
  assume "length s = 16"
  then have "length (fold (Cipher_round w) [1..<Nr] (AddRoundKey w 0 s)) = 16"
    by (induction Nr) (simp_all add: Cipher_round_def)
  then show ?thesis by (simp add: Cipher_def)
qed

subsection \<open>The equivalent inverse cipher\<close>

lemma AddRoundKey_cong:
  "\<forall>c < 4. w ! (4 * r + c) = w' ! (4 * r' + c) \<Longrightarrow> AddRoundKey w r s = AddRoundKey w' r' s"
  by (simp add: AddRoundKey_def upt_4 all_less_4)

lemma AddRoundKey_take: "r < n \<Longrightarrow> AddRoundKey (take (4 * n) w) r s = AddRoundKey w r s"
  by (rule AddRoundKey_cong) auto

lemma Cipher_take: "Cipher Nr (take (4 * Suc Nr) w) s = Cipher Nr w s"
proof -
  have "fold (Cipher_round (take (4 * Suc Nr) w)) [1..<Nr] x = fold (Cipher_round w) [1..<Nr] x" for x
    by (rule fold_cong) (auto simp: Cipher_round_def AddRoundKey_take simp del: mult_Suc_right)
  then show ?thesis by (simp add: Cipher_def AddRoundKey_take del: mult_Suc_right)
qed

lemma InvCipher_take: "InvCipher Nr (take (4 * Suc Nr) w) s = InvCipher Nr w s"
proof -
  have "fold (InvCipher_round (take (4 * Suc Nr) w)) (rev [1..<Nr]) x = fold (InvCipher_round w) (rev [1..<Nr]) x" for x
    by (rule fold_cong) (auto simp: InvCipher_round_def AddRoundKey_take simp del: mult_Suc_right)
  then show ?thesis by (simp add: InvCipher_def AddRoundKey_take del: mult_Suc_right)
qed

text \<open>The equivalent inverse cipher: with the round keys reversed and, but for the first and the last,
  sent through the inverse column mix, the inverse cipher can keep the order of the cipher.\<close>

lemma EqInv_InvCipher:
  assumes "length s = 16" and "0 < Nr"
    and "\<forall>q \<in> {1..<Nr}. \<forall>c < 4. word_bytes (dw ! (4 * q + c)) =
      mix_column (0x0E, 0x0B, 0x0D, 0x09) (word_bytes (w ! (4 * (Nr - q) + c))) 0"
    and "\<forall>c < 4. dw ! c = w ! (4 * Nr + c)" and "\<forall>c < 4. dw ! (4 * Nr + c) = w ! c"
  shows "AddRoundKey dw Nr (InvSubBytes (InvShiftRows (fold (EqInv_round dw) [1..<Nr] (AddRoundKey dw 0 s))))
    = InvCipher Nr w s"
proof -
  have ends: "AddRoundKey dw 0 x = AddRoundKey w Nr x" "AddRoundKey dw Nr x = AddRoundKey w 0 x" for x
    by (rule AddRoundKey_cong, simp add: assms)+
  have "rev [1..<Nr] = map (\<lambda>q. Nr - q) [1..<Nr]"
    by (rule nth_equalityI) (auto simp: rev_nth)
  then have "fold (InvCipher_round w) (rev [1..<Nr]) x = fold (\<lambda>q. InvCipher_round w (Nr - q)) [1..<Nr] x" for x
    by (simp add: fold_map o_def)
  moreover have "EqInv_round dw q x = InvCipher_round w (Nr - q) x" if "q \<in> {1..<Nr}" for q x
    unfolding EqInv_round_def InvCipher_round_def
    using InvMixColumns_AddRoundKey [of "InvSubBytes (InvShiftRows x)" dw q w "Nr - q"] assms(3) that by simp
  then have "fold (EqInv_round dw) [1..<Nr] x = fold (\<lambda>q. InvCipher_round w (Nr - q)) [1..<Nr] x" for x
    by (intro fold_cong) auto
  ultimately show ?thesis by (simp add: InvCipher_def ends)
qed

end
