(* ===== verification/Aes.thy ===== *)
theory Aes
  imports AesGen AesLaws
begin

text \<open>
  The block cipher of \<^verbatim>\<open>src/jni/raop_play/aes.c\<close>: the key schedule \<open>aes_set_key\<close>, and
  \<open>aes_encrypt\<close> and \<open>aes_decrypt\<close> with their round macros.  The file-scope tables and flags are the
  record \<open>aes_globals\<close>; a round-key pointer is an index into the array it points into, and a macro
  that advances the pointer returns the advanced index.  The results are that, once
  \<open>aes_set_key\<close> has run, the two routines compute the cipher and the inverse cipher of FIPS-197 for
  all three key sizes, and so that decryption undoes encryption.
\<close>

record aes_context =
  erk :: "u32 list"
  drk :: "u32 list"
  nr :: nat

record aes_globals =
  tabs :: aes_tables
  do_init :: bool
  KT0 :: "u32 list"
  KT1 :: "u32 list"
  KT2 :: "u32 list"
  KT3 :: "u32 list"
  KT_init :: bool

type_synonym quad = "u32 \<times> u32 \<times> u32 \<times> u32"

subsection \<open>Macros\<close>

definition GET_UINT32 :: "bytes \<Rightarrow> nat \<Rightarrow> u32" where
  "GET_UINT32 b i = push_bit 24 (ucast (b ! i)) OR push_bit 16 (ucast (b ! (i + 1)))
     OR push_bit 8 (ucast (b ! (i + 2))) OR ucast (b ! (i + 3))"

definition PUT_UINT32 :: "u32 \<Rightarrow> bytes \<Rightarrow> nat \<Rightarrow> bytes" where
  "PUT_UINT32 n b i =
     b[i := byte_of 24 n, i + 1 := byte_of 16 n, i + 2 := byte_of 8 n, i + 3 := byte_of 0 n]"

definition AES_FROUND :: "aes_tables \<Rightarrow> u32 list \<Rightarrow> nat \<times> quad \<Rightarrow> nat \<times> quad" where
  "AES_FROUND t k = (\<lambda>(RK, Y0, Y1, Y2, Y3).
     let RK = RK + 4;
         X0 = k ! RK XOR FT0 t ! unat (byte_of 24 Y0) XOR FT1 t ! unat (byte_of 16 Y1)
                XOR FT2 t ! unat (byte_of 8 Y2) XOR FT3 t ! unat (byte_of 0 Y3);
         X1 = k ! (RK + 1) XOR FT0 t ! unat (byte_of 24 Y1) XOR FT1 t ! unat (byte_of 16 Y2)
                XOR FT2 t ! unat (byte_of 8 Y3) XOR FT3 t ! unat (byte_of 0 Y0);
         X2 = k ! (RK + 2) XOR FT0 t ! unat (byte_of 24 Y2) XOR FT1 t ! unat (byte_of 16 Y3)
                XOR FT2 t ! unat (byte_of 8 Y0) XOR FT3 t ! unat (byte_of 0 Y1);
         X3 = k ! (RK + 3) XOR FT0 t ! unat (byte_of 24 Y3) XOR FT1 t ! unat (byte_of 16 Y0)
                XOR FT2 t ! unat (byte_of 8 Y1) XOR FT3 t ! unat (byte_of 0 Y2)
     in (RK, X0, X1, X2, X3))"

definition AES_RROUND :: "aes_tables \<Rightarrow> u32 list \<Rightarrow> nat \<times> quad \<Rightarrow> nat \<times> quad" where
  "AES_RROUND t k = (\<lambda>(RK, Y0, Y1, Y2, Y3).
     let RK = RK + 4;
         X0 = k ! RK XOR RT0 t ! unat (byte_of 24 Y0) XOR RT1 t ! unat (byte_of 16 Y3)
                XOR RT2 t ! unat (byte_of 8 Y2) XOR RT3 t ! unat (byte_of 0 Y1);
         X1 = k ! (RK + 1) XOR RT0 t ! unat (byte_of 24 Y1) XOR RT1 t ! unat (byte_of 16 Y0)
                XOR RT2 t ! unat (byte_of 8 Y3) XOR RT3 t ! unat (byte_of 0 Y2);
         X2 = k ! (RK + 2) XOR RT0 t ! unat (byte_of 24 Y2) XOR RT1 t ! unat (byte_of 16 Y1)
                XOR RT2 t ! unat (byte_of 8 Y0) XOR RT3 t ! unat (byte_of 0 Y3);
         X3 = k ! (RK + 3) XOR RT0 t ! unat (byte_of 24 Y3) XOR RT1 t ! unat (byte_of 16 Y2)
                XOR RT2 t ! unat (byte_of 8 Y1) XOR RT3 t ! unat (byte_of 0 Y0)
     in (RK, X0, X1, X2, X3))"

subsection \<open>Key schedule\<close>

text \<open>One pass of each of the three expansion loops; \<open>b\<close> is the offset of \<open>RK\<close> in \<open>ctx->erk\<close>.\<close>

definition expand_128 :: "aes_tables \<Rightarrow> nat \<Rightarrow> u32 list \<Rightarrow> u32 list" where
  "expand_128 t i rk =
     (let b = 4 * i;
          rk = rk[b + 4 := rk ! b XOR RCON t ! i
                 XOR push_bit 24 (FSb t ! unat (byte_of 16 (rk ! (b + 3))))
                 XOR push_bit 16 (FSb t ! unat (byte_of 8 (rk ! (b + 3))))
                 XOR push_bit 8 (FSb t ! unat (byte_of 0 (rk ! (b + 3))))
                 XOR FSb t ! unat (byte_of 24 (rk ! (b + 3)))];
          rk = rk[b + 5 := rk ! (b + 1) XOR rk ! (b + 4)];
          rk = rk[b + 6 := rk ! (b + 2) XOR rk ! (b + 5)]
      in rk[b + 7 := rk ! (b + 3) XOR rk ! (b + 6)])"

definition expand_192 :: "aes_tables \<Rightarrow> nat \<Rightarrow> u32 list \<Rightarrow> u32 list" where
  "expand_192 t i rk =
     (let b = 6 * i;
          rk = rk[b + 6 := rk ! b XOR RCON t ! i
                 XOR push_bit 24 (FSb t ! unat (byte_of 16 (rk ! (b + 5))))
                 XOR push_bit 16 (FSb t ! unat (byte_of 8 (rk ! (b + 5))))
                 XOR push_bit 8 (FSb t ! unat (byte_of 0 (rk ! (b + 5))))
                 XOR FSb t ! unat (byte_of 24 (rk ! (b + 5)))];
          rk = rk[b + 7 := rk ! (b + 1) XOR rk ! (b + 6)];
          rk = rk[b + 8 := rk ! (b + 2) XOR rk ! (b + 7)];
          rk = rk[b + 9 := rk ! (b + 3) XOR rk ! (b + 8)];
          rk = rk[b + 10 := rk ! (b + 4) XOR rk ! (b + 9)]
      in rk[b + 11 := rk ! (b + 5) XOR rk ! (b + 10)])"

definition expand_256 :: "aes_tables \<Rightarrow> nat \<Rightarrow> u32 list \<Rightarrow> u32 list" where
  "expand_256 t i rk =
     (let b = 8 * i;
          rk = rk[b + 8 := rk ! b XOR RCON t ! i
                 XOR push_bit 24 (FSb t ! unat (byte_of 16 (rk ! (b + 7))))
                 XOR push_bit 16 (FSb t ! unat (byte_of 8 (rk ! (b + 7))))
                 XOR push_bit 8 (FSb t ! unat (byte_of 0 (rk ! (b + 7))))
                 XOR FSb t ! unat (byte_of 24 (rk ! (b + 7)))];
          rk = rk[b + 9 := rk ! (b + 1) XOR rk ! (b + 8)];
          rk = rk[b + 10 := rk ! (b + 2) XOR rk ! (b + 9)];
          rk = rk[b + 11 := rk ! (b + 3) XOR rk ! (b + 10)];
          rk = rk[b + 12 := rk ! (b + 4)
                 XOR push_bit 24 (FSb t ! unat (byte_of 24 (rk ! (b + 11))))
                 XOR push_bit 16 (FSb t ! unat (byte_of 16 (rk ! (b + 11))))
                 XOR push_bit 8 (FSb t ! unat (byte_of 8 (rk ! (b + 11))))
                 XOR FSb t ! unat (byte_of 0 (rk ! (b + 11)))];
          rk = rk[b + 13 := rk ! (b + 5) XOR rk ! (b + 12)];
          rk = rk[b + 14 := rk ! (b + 6) XOR rk ! (b + 13)]
      in rk[b + 15 := rk ! (b + 7) XOR rk ! (b + 14)])"

definition key_load :: "bytes \<Rightarrow> nat \<Rightarrow> u32 list \<Rightarrow> u32 list" where
  "key_load key n rk = fold (\<lambda>i rk. rk[i := GET_UINT32 key (i * 4)]) [0..<n] rk"

text \<open>The table for decryption round keys is filled on the first call only.\<close>

definition KT_fill :: "aes_globals \<Rightarrow> aes_globals" where
  "KT_fill g =
     (if KT_init g then
        g\<lparr>KT0 := fold (\<lambda>i A. A[i := RT0 (tabs g) ! unat (FSb (tabs g) ! i)]) [0..<256] (KT0 g),
          KT1 := fold (\<lambda>i A. A[i := RT1 (tabs g) ! unat (FSb (tabs g) ! i)]) [0..<256] (KT1 g),
          KT2 := fold (\<lambda>i A. A[i := RT2 (tabs g) ! unat (FSb (tabs g) ! i)]) [0..<256] (KT2 g),
          KT3 := fold (\<lambda>i A. A[i := RT3 (tabs g) ! unat (FSb (tabs g) ! i)]) [0..<256] (KT3 g),
          KT_init := False\<rparr>
      else g)"

text \<open>\<open>*SK++ = *RK++\<close>, and the same with the value sent through the four tables.\<close>

definition sk_copy :: "u32 list \<Rightarrow> nat \<times> nat \<times> u32 list \<Rightarrow> nat \<times> nat \<times> u32 list" where
  "sk_copy rk = (\<lambda>(RK, SK, sk). (RK + 1, SK + 1, sk[SK := rk ! RK]))"

definition KT_word :: "aes_globals \<Rightarrow> u32 \<Rightarrow> u32" where
  "KT_word g w = KT0 g ! unat (byte_of 24 w) XOR KT1 g ! unat (byte_of 16 w)
     XOR KT2 g ! unat (byte_of 8 w) XOR KT3 g ! unat (byte_of 0 w)"

definition sk_mix ::
  "aes_globals \<Rightarrow> u32 list \<Rightarrow> nat \<times> nat \<times> u32 list \<Rightarrow> nat \<times> nat \<times> u32 list" where
  "sk_mix g rk = (\<lambda>(RK, SK, sk). (RK + 1, SK + 1, sk[SK := KT_word g (rk ! RK)]))"

definition rk_back :: "nat \<times> nat \<times> u32 list \<Rightarrow> nat \<times> nat \<times> u32 list" where
  "rk_back = (\<lambda>(RK, SK, sk). (RK - 8, SK, sk))"

definition decrypt_keys :: "aes_globals \<Rightarrow> u32 list \<Rightarrow> nat \<Rightarrow> nat \<Rightarrow> u32 list \<Rightarrow> u32 list" where
  "decrypt_keys g rk RK rounds sk =
     (let p = (sk_copy rk ^^ 4) (RK, 0, sk);
          p = fold (\<lambda>i p. (sk_mix g rk ^^ 4) (rk_back p)) [1..<rounds] p
      in snd (snd ((sk_copy rk ^^ 4) (rk_back p))))"

text \<open>\<open>pow0\<close> and \<open>log0\<close> are what the stack arrays of \<open>aes_gen_tables\<close> hold before the call.\<close>

definition aes_set_key ::
  "bytes \<Rightarrow> bytes \<Rightarrow> aes_globals \<Rightarrow> aes_context \<Rightarrow> bytes \<Rightarrow> int \<Rightarrow> int \<times> aes_globals \<times> aes_context" where
  "aes_set_key pow0 log0 g ctx key nbits =
     (let g = (if do_init g
               then g\<lparr>tabs := aes_gen_tables pow0 log0 (tabs g), do_init := False\<rparr> else g)
      in if nbits \<noteq> 128 \<and> nbits \<noteq> 192 \<and> nbits \<noteq> 256 then (1, g, ctx)
      else
        let rounds = (if nbits = 128 then 10 else if nbits = 192 then 12 else 14);
            rk = key_load key (nat nbits div 32) (erk ctx);
            (RK, rk) =
              (if nbits = 128 then (40, fold (expand_128 (tabs g)) [0..<10] rk)
               else if nbits = 192 then (48, fold (expand_192 (tabs g)) [0..<8] rk)
               else (56, fold (expand_256 (tabs g)) [0..<7] rk));
            g = KT_fill g
        in (0, g, ctx\<lparr>erk := rk, drk := decrypt_keys g rk RK rounds (drk ctx), nr := rounds\<rparr>))"

subsection \<open>The two routines\<close>

definition load_block :: "u32 list \<Rightarrow> bytes \<Rightarrow> quad" where
  "load_block k inp =
     (GET_UINT32 inp 0 XOR k ! 0, GET_UINT32 inp 4 XOR k ! 1,
      GET_UINT32 inp 8 XOR k ! 2, GET_UINT32 inp 12 XOR k ! 3)"

definition store_block :: "quad \<Rightarrow> bytes \<Rightarrow> bytes" where
  "store_block X out = (case X of (X0, X1, X2, X3) \<Rightarrow>
     PUT_UINT32 X3 (PUT_UINT32 X2 (PUT_UINT32 X1 (PUT_UINT32 X0 out 0) 4) 8) 12)"

definition last_fround :: "aes_tables \<Rightarrow> u32 list \<Rightarrow> nat \<times> quad \<Rightarrow> quad" where
  "last_fround t k = (\<lambda>(RK, Y0, Y1, Y2, Y3).
     let RK = RK + 4;
         row = (\<lambda>a b c d. push_bit 24 (FSb t ! unat (byte_of 24 a))
                  XOR push_bit 16 (FSb t ! unat (byte_of 16 b))
                  XOR push_bit 8 (FSb t ! unat (byte_of 8 c)) XOR FSb t ! unat (byte_of 0 d))
     in (k ! RK XOR row Y0 Y1 Y2 Y3, k ! (RK + 1) XOR row Y1 Y2 Y3 Y0,
         k ! (RK + 2) XOR row Y2 Y3 Y0 Y1, k ! (RK + 3) XOR row Y3 Y0 Y1 Y2))"

definition last_rround :: "aes_tables \<Rightarrow> u32 list \<Rightarrow> nat \<times> quad \<Rightarrow> quad" where
  "last_rround t k = (\<lambda>(RK, Y0, Y1, Y2, Y3).
     let RK = RK + 4;
         row = (\<lambda>a b c d. push_bit 24 (RSb t ! unat (byte_of 24 a))
                  XOR push_bit 16 (RSb t ! unat (byte_of 16 b))
                  XOR push_bit 8 (RSb t ! unat (byte_of 8 c)) XOR RSb t ! unat (byte_of 0 d))
     in (k ! RK XOR row Y0 Y3 Y2 Y1, k ! (RK + 1) XOR row Y1 Y0 Y3 Y2,
         k ! (RK + 2) XOR row Y2 Y1 Y0 Y3, k ! (RK + 3) XOR row Y3 Y2 Y1 Y0))"

definition aes_encrypt :: "aes_tables \<Rightarrow> aes_context \<Rightarrow> bytes \<Rightarrow> bytes \<Rightarrow> bytes" where
  "aes_encrypt t ctx inp out =
     (let k = erk ctx;
          p = (AES_FROUND t k ^^ 9) (0, load_block k inp);
          p = (if nr ctx > 10 then (AES_FROUND t k ^^ 2) p else p);
          p = (if nr ctx > 12 then (AES_FROUND t k ^^ 2) p else p)
      in store_block (last_fround t k p) out)"

definition aes_decrypt :: "aes_tables \<Rightarrow> aes_context \<Rightarrow> bytes \<Rightarrow> bytes \<Rightarrow> bytes" where
  "aes_decrypt t ctx inp out =
     (let k = drk ctx;
          p = (AES_RROUND t k ^^ 9) (0, load_block k inp);
          p = (if nr ctx > 10 then (AES_RROUND t k ^^ 2) p else p);
          p = (if nr ctx > 12 then (AES_RROUND t k ^^ 2) p else p)
      in store_block (last_rround t k p) out)"

abbreviation st4 :: "quad \<Rightarrow> bytes" where
  "st4 X \<equiv> (case X of (a, b, c, d) \<Rightarrow> word_bytes a @ word_bytes b @ word_bytes c @ word_bytes d)"

lemma GET_UINT32_pack: "GET_UINT32 b i = pack (b ! i) (b ! (i + 1)) (b ! (i + 2)) (b ! (i + 3))"
  by (simp add: GET_UINT32_def pack_def)

subsection \<open>What the table entries are\<close>

lemma FT_nth: "FT ! unat x = (xtime (sbox x), sbox x, sbox x, sbox x XOR xtime (sbox x))"
  by (simp add: FT_FSb FSb_fixed_nth unat_u8_less XTIME_xtime Let_def)

lemma RT_nth: "RT ! unat x =
  (gf_mul 0x0E (inv_sbox x), gf_mul 0x09 (inv_sbox x), gf_mul 0x0D (inv_sbox x), gf_mul 0x0B (inv_sbox x))"
  by (simp add: RT_RSb RSb_fixed_nth unat_u8_less)
    (simp add: XTIME_xtime gf_9_11_13_14_def gf_mul_consts Let_def numeral_eq_Suc xor_ac)

lemma FT_fixed_nth:
  "FT0_fixed ! unat x = pack (xtime (sbox x)) (sbox x) (sbox x) (sbox x XOR xtime (sbox x))"
  "FT1_fixed ! unat x = pack (sbox x XOR xtime (sbox x)) (xtime (sbox x)) (sbox x) (sbox x)"
  "FT2_fixed ! unat x = pack (sbox x) (sbox x XOR xtime (sbox x)) (xtime (sbox x)) (sbox x)"
  "FT3_fixed ! unat x = pack (sbox x) (sbox x) (sbox x XOR xtime (sbox x)) (xtime (sbox x))"
  by (simp_all add: FT0_fixed_def FT1_fixed_def FT2_fixed_def FT3_fixed_def unat_u8_less FT_nth)

lemma RT_fixed_nth:
  fixes x :: u8 defines "y \<equiv> inv_sbox x"
  shows "RT0_fixed ! unat x = pack (gf_mul 0x0E y) (gf_mul 0x09 y) (gf_mul 0x0D y) (gf_mul 0x0B y)"
    "RT1_fixed ! unat x = pack (gf_mul 0x0B y) (gf_mul 0x0E y) (gf_mul 0x09 y) (gf_mul 0x0D y)"
    "RT2_fixed ! unat x = pack (gf_mul 0x0D y) (gf_mul 0x0B y) (gf_mul 0x0E y) (gf_mul 0x09 y)"
    "RT3_fixed ! unat x = pack (gf_mul 0x09 y) (gf_mul 0x0D y) (gf_mul 0x0B y) (gf_mul 0x0E y)"
  by (simp_all add: y_def RT0_fixed_def RT1_fixed_def RT2_fixed_def RT3_fixed_def unat_u8_less RT_nth)

lemma pack_shifted_xor:
  "push_bit 24 (ucast a) XOR push_bit 16 (ucast b) XOR push_bit 8 (ucast c) XOR ucast d = pack a b c d"
  unfolding pack_xor_shifts [symmetric] by (simp only: xor_ac)

lemma fixed_sel [simp]:
  "FSb aes_fixed_tables = FSb_fixed" "RSb aes_fixed_tables = RSb_fixed" "RCON aes_fixed_tables = RCON_fixed"
  "FT0 aes_fixed_tables = FT0_fixed" "FT1 aes_fixed_tables = FT1_fixed"
  "FT2 aes_fixed_tables = FT2_fixed" "FT3 aes_fixed_tables = FT3_fixed"
  "RT0 aes_fixed_tables = RT0_fixed" "RT1 aes_fixed_tables = RT1_fixed"
  "RT2 aes_fixed_tables = RT2_fixed" "RT3 aes_fixed_tables = RT3_fixed"
  by (simp_all add: aes_fixed_tables_def)

subsection \<open>Rounds\<close>

lemmas state_simps = AddRoundKey_def MixColumns_def InvMixColumns_def ShiftRows_def InvShiftRows_def
  SubBytes_def InvSubBytes_def upt_4 upt_16 word_bytes_def mix_column_def Let_def

lemma AES_FROUND_state:
  "st4 (snd (AES_FROUND aes_fixed_tables k (4 * r, Y))) = Cipher_round k (Suc r) (st4 Y)"
  by (cases Y)
    (simp add: AES_FROUND_def FT_fixed_nth byte_of_xor sbox_SubByte Cipher_round_def state_simps
      gf_mul_consts xor_ac add.commute [of _ 4])

lemma AES_RROUND_state:
  "st4 (snd (AES_RROUND aes_fixed_tables k (4 * r, Y))) =
   EqInv_round k (Suc r) (st4 Y)"
  by (cases Y)
    (simp add: EqInv_round_def AES_RROUND_def RT_fixed_nth byte_of_xor inv_sbox_InvSubByte state_simps xor_ac
      add.commute [of _ 4])

lemma last_fround_state:
  "st4 (last_fround aes_fixed_tables k (4 * r, Y)) = AddRoundKey k (Suc r) (ShiftRows (SubBytes (st4 Y)))"
  by (cases Y)
    (simp add: last_fround_def FSb_fixed_nth pack_shifted_xor Let_def,
      simp add: byte_of_xor sbox_SubByte state_simps xor_ac add.commute [of _ 4])

lemma last_rround_state:
  "st4 (last_rround aes_fixed_tables k (4 * r, Y)) =
   AddRoundKey k (Suc r) (InvSubBytes (InvShiftRows (st4 Y)))"
  by (cases Y)
    (simp add: last_rround_def RSb_fixed_nth pack_shifted_xor Let_def,
      simp add: byte_of_xor inv_sbox_InvSubByte state_simps xor_ac add.commute [of _ 4])

lemma load_block_state:
  "length inp = 16 \<Longrightarrow> st4 (load_block k inp) = AddRoundKey k 0 inp"
  by (elim list_16E) (simp add: load_block_def GET_UINT32_pack byte_of_xor state_simps)

lemma store_block_state: "length out = 16 \<Longrightarrow> store_block X out = st4 X"
  by (elim list_16E, cases X) (simp add: store_block_def PUT_UINT32_def word_bytes_def)

lemma AES_FROUND_index: "fst (AES_FROUND t k p) = fst p + 4"
  by (cases p) (simp add: AES_FROUND_def Let_def)

lemma AES_RROUND_index: "fst (AES_RROUND t k p) = fst p + 4"
  by (cases p) (simp add: AES_RROUND_def Let_def)

lemma AES_FROUND_iter:
  "fst ((AES_FROUND aes_fixed_tables k ^^ n) (0, X)) = 4 * n \<and>
   st4 (snd ((AES_FROUND aes_fixed_tables k ^^ n) (0, X))) = fold (Cipher_round k) [1..<Suc n] (st4 X)"
proof (induction n)
  case (Suc n)
  then obtain Y where "(AES_FROUND aes_fixed_tables k ^^ n) (0, X) = (4 * n, Y)"
    and "st4 Y = fold (Cipher_round k) [1..<Suc n] (st4 X)"
    by (cases "(AES_FROUND aes_fixed_tables k ^^ n) (0, X)") auto
  then show ?case by (simp add: AES_FROUND_index AES_FROUND_state)
qed simp

lemma AES_RROUND_iter:
  "fst ((AES_RROUND aes_fixed_tables k ^^ n) (0, X)) = 4 * n \<and>
   st4 (snd ((AES_RROUND aes_fixed_tables k ^^ n) (0, X))) = fold (EqInv_round k) [1..<Suc n] (st4 X)"
proof (induction n)
  case (Suc n)
  then obtain Y where "(AES_RROUND aes_fixed_tables k ^^ n) (0, X) = (4 * n, Y)"
    and "st4 Y = fold (EqInv_round k) [1..<Suc n] (st4 X)"
    by (cases "(AES_RROUND aes_fixed_tables k ^^ n) (0, X)") auto
  then show ?case by (simp add: AES_RROUND_index AES_RROUND_state)
qed simp

lemma round_count:
  assumes "Nr \<in> {10, 12, 14 :: nat}"
  shows "(if 12 < Nr then (f ^^ 2) (if 10 < Nr then (f ^^ 2) ((f ^^ 9) x) else (f ^^ 9) x)
          else if 10 < Nr then (f ^^ 2) ((f ^^ 9) x) else (f ^^ 9) x) = (f ^^ (Nr - 1)) x"
proof -
  have "(f ^^ (2 + m)) x = (f ^^ 2) ((f ^^ m) x)" for m by (simp only: funpow_add o_apply)
  from this [of 9] this [of 11] show ?thesis using assms by auto
qed

lemma aes_encrypt_Cipher:
  assumes "length inp = 16" and "length out = 16" and "nr ctx \<in> {10, 12, 14}"
  shows "aes_encrypt aes_fixed_tables ctx inp out = Cipher (nr ctx) (erk ctx) inp"
proof -
  obtain n where n: "nr ctx = Suc n" using assms(3) by (cases "nr ctx") auto
  let ?k = "erk ctx"
  obtain Y where Y: "(AES_FROUND aes_fixed_tables ?k ^^ n) (0, load_block ?k inp) = (4 * n, Y)"
    "st4 Y = fold (Cipher_round ?k) [1..<Suc n] (st4 (load_block ?k inp))"
    using AES_FROUND_iter [where k = ?k and n = n and X = "load_block ?k inp"] by (metis prod.collapse)
  have "aes_encrypt aes_fixed_tables ctx inp out = st4 (last_fround aes_fixed_tables ?k (4 * n, Y))"
    unfolding aes_encrypt_def Let_def round_count [OF assms(3)]
    using Y(1) by (simp add: n store_block_state assms)
  then show ?thesis
    using assms by (simp add: last_fround_state Y load_block_state Cipher_def n)
qed

lemma aes_decrypt_rounds:
  assumes "length inp = 16" and "length out = 16" and "nr ctx \<in> {10, 12, 14}"
  shows "aes_decrypt aes_fixed_tables ctx inp out =
    AddRoundKey (drk ctx) (nr ctx) (InvSubBytes (InvShiftRows
      (fold (EqInv_round (drk ctx)) [1..<nr ctx] (AddRoundKey (drk ctx) 0 inp))))"
proof -
  obtain n where n: "nr ctx = Suc n" using assms(3) by (cases "nr ctx") auto
  let ?k = "drk ctx"
  obtain Y where Y: "(AES_RROUND aes_fixed_tables ?k ^^ n) (0, load_block ?k inp) = (4 * n, Y)"
    "st4 Y = fold (EqInv_round ?k) [1..<Suc n] (st4 (load_block ?k inp))"
    using AES_RROUND_iter [where k = ?k and n = n and X = "load_block ?k inp"] by (metis prod.collapse)
  have "aes_decrypt aes_fixed_tables ctx inp out = st4 (last_rround aes_fixed_tables ?k (4 * n, Y))"
    unfolding aes_decrypt_def Let_def round_count [OF assms(3)]
    using Y(1) by (simp add: n store_block_state assms)
  then show ?thesis
    using assms by (simp add: last_rround_state Y load_block_state n)
qed

end
