(* ===== verification/AesKey.thy ===== *)
theory AesKey
  imports Aes
begin

text \<open>
  Correctness of the key set-up and of the routines after it.  The three expansion loops are shown to
  satisfy the recurrence of the standard's key expansion, the decryption keys to be the reversed and
  column-mixed encryption keys, and the file-scope tables and flags to keep the invariant
  \<open>globals_ok\<close> from one call to the next.  From these follow the refinement of the standard by
  \<open>aes_encrypt\<close> and \<open>aes_decrypt\<close> and that one undoes the other.
\<close>

subsection \<open>Definitions\<close>

definition key_word :: "bytes \<Rightarrow> nat \<Rightarrow> u32" where
  "key_word key i = pack (key ! (4 * i)) (key ! (4 * i + 1)) (key ! (4 * i + 2)) (key ! (4 * i + 3))"

text \<open>The first \<open>n\<close> words of \<open>rk\<close> satisfy the recurrence of the standard.\<close>

definition sched :: "nat \<Rightarrow> bytes \<Rightarrow> nat \<Rightarrow> u32 list \<Rightarrow> bool" where
  "sched Nk key n rk \<longleftrightarrow> (\<forall>j < n. rk ! j =
     (if j < Nk then key_word key j else rk ! (j - Nk) XOR key_temp Nk j (rk ! (j - 1))))"

text \<open>A chain of assignments \<open>RK[i] = f(RK)\<close> to increasing indices, each reading below the index it
  writes, leaves an array in which every assignment still reads as an equation.\<close>

definition reads_below :: "nat \<Rightarrow> (u32 list \<Rightarrow> u32) \<Rightarrow> bool" where
  "reads_below i f \<longleftrightarrow> (\<forall>rk rk'. (\<forall>j < i. rk ! j = rk' ! j) \<longrightarrow> f rk = f rk')"

definition expand_all :: "aes_tables \<Rightarrow> nat \<Rightarrow> u32 list \<Rightarrow> u32 list" where
  "expand_all t Nk rk =
     (if Nk = 4 then fold (expand_128 t) [0..<10] rk
      else if Nk = 6 then fold (expand_192 t) [0..<8] rk else fold (expand_256 t) [0..<7] rk)"

definition dk_entry :: "aes_globals \<Rightarrow> u32 list \<Rightarrow> nat \<Rightarrow> nat \<Rightarrow> nat \<Rightarrow> u32" where
  "dk_entry g rk Nr q c =
     (let w = rk ! (4 * (Nr - q) + c) in if q = 0 \<or> q = Nr then w else KT_word g w)"

abbreviation KT_table :: "u32 list \<Rightarrow> u32 list" where
  "KT_table R \<equiv> map (\<lambda>i. R ! unat (FSb_fixed ! i)) [0..<256]"

definition globals_ok :: "aes_globals \<Rightarrow> bool" where
  "globals_ok g \<longleftrightarrow>
     (if do_init g then tables_sized (tabs g) else tabs g = aes_fixed_tables) \<and>
     (if KT_init g then length (KT0 g) = 256 \<and> length (KT1 g) = 256 \<and> length (KT2 g) = 256 \<and> length (KT3 g) = 256
      else KT0 g = KT_table RT0_fixed \<and> KT1 g = KT_table RT1_fixed \<and>
           KT2 g = KT_table RT2_fixed \<and> KT3 g = KT_table RT3_fixed)"

definition key_len :: "int \<Rightarrow> nat" where
  "key_len nbits = nat nbits div 32"

text \<open>What \<open>aes_set_key\<close> leaves in a context for a key of \<open>Nk\<close> words.\<close>

definition context_for :: "bytes \<Rightarrow> nat \<Rightarrow> aes_context \<Rightarrow> bool" where
  "context_for key Nk ctx \<longleftrightarrow> nr ctx = Nk + 6 \<and>
     take (4 * (Nk + 7)) (erk ctx) = KeyExpansion key Nk (Nk + 6) \<and>
     (\<forall>q \<in> {1..<Nk + 6}. \<forall>c < 4. word_bytes (drk ctx ! (4 * q + c)) =
        mix_column (0x0E, 0x0B, 0x0D, 0x09) (word_bytes (erk ctx ! (4 * (Nk + 6 - q) + c))) 0) \<and>
     (\<forall>c < 4. drk ctx ! c = erk ctx ! (4 * (Nk + 6) + c) \<and> drk ctx ! (4 * (Nk + 6) + c) = erk ctx ! c)"

definition start_globals :: aes_globals where
  "start_globals = (let z = replicate 256 0 in
     \<lparr>tabs = blank_tables, do_init = True, KT0 = z, KT1 = z, KT2 = z, KT3 = z, KT_init = True\<rparr>)"

definition blank_context :: aes_context where
  "blank_context = \<lparr>erk = replicate 64 0, drk = replicate 64 0, nr = 0\<rparr>"

subsection \<open>The key expansion as a recurrence\<close>

lemma sched_unique:
  assumes "sched Nk key n v" and "sched Nk key n w" and "Nk > 0"
  shows "j < n \<Longrightarrow> v ! j = w ! j"
proof (induction j rule: less_induct)
  case (less j)
  have "v ! (j - Nk) = w ! (j - Nk) \<and> v ! (j - 1) = w ! (j - 1)" if "\<not> j < Nk"
    using less that assms(3) by simp
  then show ?case
    using less.prems assms(1,2) unfolding sched_def by (cases "j < Nk") simp_all
qed

lemma sched_mono: "sched Nk key n rk \<Longrightarrow> m \<le> n \<Longrightarrow> sched Nk key m rk"
  by (simp add: sched_def)

lemma sched_extend:
  assumes "sched Nk key n rk" and "Nk > 0" and "\<forall>j < n. rk' ! j = rk ! j"
    and "\<forall>j \<in> {n..<m}. rk' ! j = rk' ! (j - Nk) XOR key_temp Nk j (rk' ! (j - 1))" and "Nk \<le> n"
  shows "sched Nk key m rk'"
  unfolding sched_def
proof (intro allI impI)
  fix j assume "j < m"
  show "rk' ! j = (if j < Nk then key_word key j else rk' ! (j - Nk) XOR key_temp Nk j (rk' ! (j - 1)))"
  proof (cases "j < n")
    case True
    moreover from True have "j - Nk < n" "j - 1 < n" by auto
    ultimately show ?thesis using assms(1,3) by (auto simp: sched_def)
  next
    case False
    then show ?thesis using assms(4,5) \<open>j < m\<close> by auto
  qed
qed

lemma length_key_next [simp]: "length (key_next Nk i w) = Suc (length w)"
  by (simp add: key_next_def)

lemma KeyExpansion_fold:
  assumes "Nk > 0" and "Nk \<le> n"
  shows "length (fold (key_next Nk) [Nk..<n] (map (key_word key) [0..<Nk])) = n \<and>
    sched Nk key n (fold (key_next Nk) [Nk..<n] (map (key_word key) [0..<Nk]))"
  using assms(2)
proof (induction n rule: nat_induct_at_least)
  case base
  show ?case by (simp add: sched_def)
next
  case (Suc n)
  let ?w = "fold (key_next Nk) [Nk..<n] (map (key_word key) [0..<Nk])"
  have l: "length ?w = n" and s: "sched Nk key n ?w" using Suc by auto
  have "sched Nk key (Suc n) (key_next Nk n ?w)"
    using Suc.hyps assms(1) by (intro sched_extend [OF s]) (auto simp: key_next_def nth_append l)
  then show ?case using Suc.hyps l by simp
qed

lemma KeyExpansion_sched:
  assumes "Nk > 0" and "Nk \<le> 4 * (Nr + 1)"
  shows "length (KeyExpansion key Nk Nr) = 4 * (Nr + 1)"
    and "sched Nk key (4 * (Nr + 1)) (KeyExpansion key Nk Nr)"
  using KeyExpansion_fold [OF assms] by (simp_all add: KeyExpansion_def key_word_def [abs_def])

lemma sched_take:
  assumes "sched Nk key (4 * (Nr + 1)) rk" and "Nk > 0" and "Nk \<le> 4 * (Nr + 1)"
    and "4 * (Nr + 1) \<le> length rk"
  shows "take (4 * (Nr + 1)) rk = KeyExpansion key Nk Nr"
  using sched_unique [OF assms(1) KeyExpansion_sched(2) [OF assms(2,3)] assms(2)]
    KeyExpansion_sched(1) [OF assms(2,3)] assms(4)
  by (intro nth_equalityI) simp_all

subsection \<open>The expansion loops\<close>

lemma RCON_fixed_nth: "i < 10 \<Longrightarrow> RCON_fixed ! i = Rcon (Suc i)"
proof -
  assume "i < 10"
  have "RCON_fixed = map (\<lambda>i. Rcon (Suc i)) [0..<10]" by code_simp
  then show ?thesis using \<open>i < 10\<close> by (metis map_upt_nth)
qed

lemma rot_sub:
  "push_bit 24 (FSb_fixed ! unat (byte_of 16 w)) XOR push_bit 16 (FSb_fixed ! unat (byte_of 8 w))
   XOR push_bit 8 (FSb_fixed ! unat (byte_of 0 w)) XOR FSb_fixed ! unat (byte_of 24 w)
   = SubWord (RotWord w)"
  by (simp add: FSb_fixed_nth pack_shifted_xor SubWord_def RotWord_def sbox_SubByte)

lemma plain_sub:
  "push_bit 24 (FSb_fixed ! unat (byte_of 24 w)) XOR push_bit 16 (FSb_fixed ! unat (byte_of 16 w))
   XOR push_bit 8 (FSb_fixed ! unat (byte_of 8 w)) XOR FSb_fixed ! unat (byte_of 0 w)
   = SubWord w"
  by (simp add: FSb_fixed_nth pack_shifted_xor SubWord_def sbox_SubByte)

lemma expand_length [simp]:
  "length (expand_128 t i rk) = length rk" "length (expand_192 t i rk) = length rk"
  "length (expand_256 t i rk) = length rk"
  by (simp_all add: expand_128_def expand_192_def expand_256_def Let_def)

lemma sched_block:
  assumes "sched Nk key (b + Nk) rk" and "Nk > 0" and "\<forall>j < b + Nk. rk' ! j = rk ! j"
    and "\<forall>k < Nk. rk' ! (b + Nk + k) = rk' ! (b + k) XOR key_temp Nk (b + Nk + k) (rk' ! (b + Nk + k - 1))"
  shows "sched Nk key (b + Nk + Nk) rk'"
proof (rule sched_extend [OF assms(1-3)])
  show "\<forall>j\<in>{b + Nk..<b + Nk + Nk}. rk' ! j = rk' ! (j - Nk) XOR key_temp Nk j (rk' ! (j - 1))"
  proof
    fix j assume "j \<in> {b + Nk..<b + Nk + Nk}"
    then obtain k where "j = b + Nk + k" "k < Nk"
      by (metis atLeastLessThan_iff le_iff_add nat_add_left_cancel_less)
    then show "rk' ! j = rk' ! (j - Nk) XOR key_temp Nk j (rk' ! (j - 1))"
      using assms(4) by (simp add: add.assoc)
  qed
qed simp

lemma update_chain:
  assumes "sorted_wrt (<) (map fst ups)"
    and "\<forall>(i, f) \<in> set ups. i < length rk \<and> reads_below i f"
  defines "r \<equiv> fold (\<lambda>(i, f) rk. rk[i := f rk]) ups rk"
  shows "(\<forall>(i, f) \<in> set ups. r ! i = f r) \<and> (\<forall>j. j \<notin> fst ` set ups \<longrightarrow> r ! j = rk ! j)"
  using assms(1,2) unfolding r_def
proof (induction ups arbitrary: rk)
  case (Cons u ups)
  obtain i f where u: "u = (i, f)" by (cases u)
  let ?s = "rk[i := f rk]"
  let ?r = "fold (\<lambda>(i, f) rk. rk[i := f rk]) ups ?s"
  have IH: "\<forall>(i, f) \<in> set ups. ?r ! i = f ?r" "\<forall>j. j \<notin> fst ` set ups \<longrightarrow> ?r ! j = ?s ! j"
    using Cons.IH [of ?s] Cons.prems by (auto simp: u)
  have later: "\<forall>j \<in> fst ` set ups. i < j" using Cons.prems(1) by (auto simp: u)
  have old: "?r ! j = ?s ! j" if "j \<le> i" for j
    using IH(2) later that by (meson leD)
  have rd: "reads_below i f" "i < length rk" using Cons.prems(2) by (auto simp: u)
  have "\<forall>j < i. ?r ! j = rk ! j" using old by simp
  with rd(1) have "f ?r = f rk" unfolding reads_below_def by blast
  then have "?r ! i = f ?r" using old [of i] rd(2) by simp
  moreover have "?r ! j = rk ! j" if "j \<noteq> i" "j \<notin> fst ` set ups" for j
    using IH(2) that by simp
  ultimately show ?case using IH(1) by (simp add: u)
qed simp

lemma expand_128_sched:
  assumes "sched 4 key (4 * i + 4) rk" and "i < 10" and "length rk = 64"
  shows "sched 4 key (4 * i + 4 + 4) (expand_128 aes_fixed_tables i rk) \<and>
    length (expand_128 aes_fixed_tables i rk) = 64"
proof -
  define b where "b = 4 * i"
  define r where "r = expand_128 aes_fixed_tables i rk"
  define ups where "ups = [
       (b + 4, \<lambda>rk. rk ! b XOR (SubWord (RotWord (rk ! (b + 3))) XOR Rcon (Suc i))),
       (b + 5, \<lambda>rk. rk ! (b + 1) XOR rk ! (b + 4)),
       (b + 6, \<lambda>rk. rk ! (b + 2) XOR rk ! (b + 5)),
       (b + 7, \<lambda>rk. rk ! (b + 3) XOR rk ! (b + 6))]"
  have rcon: "x XOR RCON_fixed ! i XOR y = x XOR (y XOR Rcon (Suc i))" for x y
    using assms(2) by (simp add: RCON_fixed_nth xor_ac)
  have d: "r = fold (\<lambda>(i, f) rk. rk[i := f rk]) ups rk"
    unfolding r_def b_def [symmetric] expand_128_def ups_def fixed_sel xor.assoc rot_sub rcon
      b_def [symmetric] fold_simps prod.case Let_def ..
  have "sorted_wrt (<) (map fst ups)" "\<forall>(i, f) \<in> set ups. i < length rk \<and> reads_below i f"
    using assms(2,3) unfolding ups_def b_def by (simp_all add: reads_below_def)
  from update_chain [OF this, folded d]
  have v: "\<forall>(i, f) \<in> set ups. r ! i = f r" and frame: "\<forall>j. j \<notin> fst ` set ups \<longrightarrow> r ! j = rk ! j"
    by auto
  have m:
    "b mod 4 = 0" "(b + 4) div 4 = Suc i" "(b + 5) mod 4 = 1" "(b + 6) mod 4 = 2"
    "(b + 7) mod 4 = 3"
    by (simp_all add: b_def)
  have kt:
    "key_temp 4 (b + 4) x = SubWord (RotWord x) XOR Rcon (Suc i)" "key_temp 4 (b + 5) x = x"
    "key_temp 4 (b + 6) x = x" "key_temp 4 (b + 7) x = x" for x
    by (simp_all add: key_temp_def m)
  have idx:
    "b + 4 + 1 = b + 5" "b + 4 + 2 = b + 6" "b + 4 + 3 = b + 7" "b + 4 - 1 = b + 3"
    "b + 5 - 1 = b + 4" "b + 6 - 1 = b + 5" "b + 7 - 1 = b + 6"
    by simp_all
  have "\<forall>k < 4. r ! (b + 4 + k) = r ! (b + k) XOR key_temp 4 (b + 4 + k) (r ! (b + 4 + k - 1))"
    using v by (simp only: all_less_4 add_0_right idx kt ups_def list.set ball_simps prod.case simp_thms)
  moreover have "\<forall>j < b + 4. r ! j = rk ! j" using frame by (auto simp: ups_def)
  ultimately have "sched 4 key (b + 4 + 4) r"
    using assms(1) by (intro sched_block [of 4 key b rk]) (simp_all add: b_def)
  then show ?thesis using assms(3) unfolding b_def r_def expand_length by simp
qed

lemma expand_192_sched:
  assumes "sched 6 key (6 * i + 6) rk" and "i < 8" and "length rk = 64"
  shows "sched 6 key (6 * i + 6 + 6) (expand_192 aes_fixed_tables i rk) \<and>
    length (expand_192 aes_fixed_tables i rk) = 64"
proof -
  define b where "b = 6 * i"
  define r where "r = expand_192 aes_fixed_tables i rk"
  define ups where "ups = [
       (b + 6, \<lambda>rk. rk ! b XOR (SubWord (RotWord (rk ! (b + 5))) XOR Rcon (Suc i))),
       (b + 7, \<lambda>rk. rk ! (b + 1) XOR rk ! (b + 6)),
       (b + 8, \<lambda>rk. rk ! (b + 2) XOR rk ! (b + 7)),
       (b + 9, \<lambda>rk. rk ! (b + 3) XOR rk ! (b + 8)),
       (b + 10, \<lambda>rk. rk ! (b + 4) XOR rk ! (b + 9)),
       (b + 11, \<lambda>rk. rk ! (b + 5) XOR rk ! (b + 10))]"
  have rcon: "x XOR RCON_fixed ! i XOR y = x XOR (y XOR Rcon (Suc i))" for x y
    using assms(2) by (simp add: RCON_fixed_nth xor_ac)
  have d: "r = fold (\<lambda>(i, f) rk. rk[i := f rk]) ups rk"
    unfolding r_def b_def [symmetric] expand_192_def ups_def fixed_sel xor.assoc rot_sub rcon
      b_def [symmetric] fold_simps prod.case Let_def ..
  have "sorted_wrt (<) (map fst ups)" "\<forall>(i, f) \<in> set ups. i < length rk \<and> reads_below i f"
    using assms(2,3) unfolding ups_def b_def by (simp_all add: reads_below_def)
  from update_chain [OF this, folded d]
  have v: "\<forall>(i, f) \<in> set ups. r ! i = f r" and frame: "\<forall>j. j \<notin> fst ` set ups \<longrightarrow> r ! j = rk ! j"
    by auto
  have m:
    "b mod 6 = 0" "(b + 6) div 6 = Suc i" "(b + 7) mod 6 = 1" "(b + 8) mod 6 = 2"
    "(b + 9) mod 6 = 3" "(b + 10) mod 6 = 4" "(b + 11) mod 6 = 5"
    by (simp_all add: b_def)
  have kt:
    "key_temp 6 (b + 6) x = SubWord (RotWord x) XOR Rcon (Suc i)" "key_temp 6 (b + 7) x = x"
    "key_temp 6 (b + 8) x = x" "key_temp 6 (b + 9) x = x" "key_temp 6 (b + 10) x = x"
    "key_temp 6 (b + 11) x = x" for x
    by (simp_all add: key_temp_def m)
  have idx:
    "b + 6 + 1 = b + 7" "b + 6 + 2 = b + 8" "b + 6 + 3 = b + 9" "b + 6 + 4 = b + 10"
    "b + 6 + 5 = b + 11" "b + 6 - 1 = b + 5" "b + 7 - 1 = b + 6" "b + 8 - 1 = b + 7"
    "b + 9 - 1 = b + 8" "b + 10 - 1 = b + 9" "b + 11 - 1 = b + 10"
    by simp_all
  have "\<forall>k < 6. r ! (b + 6 + k) = r ! (b + k) XOR key_temp 6 (b + 6 + k) (r ! (b + 6 + k - 1))"
    using v by (simp only: all_less_6 add_0_right idx kt ups_def list.set ball_simps prod.case simp_thms)
  moreover have "\<forall>j < b + 6. r ! j = rk ! j" using frame by (auto simp: ups_def)
  ultimately have "sched 6 key (b + 6 + 6) r"
    using assms(1) by (intro sched_block [of 6 key b rk]) (simp_all add: b_def)
  then show ?thesis using assms(3) unfolding b_def r_def expand_length by simp
qed

lemma expand_256_sched:
  assumes "sched 8 key (8 * i + 8) rk" and "i < 7" and "length rk = 64"
  shows "sched 8 key (8 * i + 8 + 8) (expand_256 aes_fixed_tables i rk) \<and>
    length (expand_256 aes_fixed_tables i rk) = 64"
proof -
  define b where "b = 8 * i"
  define r where "r = expand_256 aes_fixed_tables i rk"
  define ups where "ups = [
       (b + 8, \<lambda>rk. rk ! b XOR (SubWord (RotWord (rk ! (b + 7))) XOR Rcon (Suc i))),
       (b + 9, \<lambda>rk. rk ! (b + 1) XOR rk ! (b + 8)),
       (b + 10, \<lambda>rk. rk ! (b + 2) XOR rk ! (b + 9)),
       (b + 11, \<lambda>rk. rk ! (b + 3) XOR rk ! (b + 10)),
       (b + 12, \<lambda>rk. rk ! (b + 4) XOR SubWord (rk ! (b + 11))),
       (b + 13, \<lambda>rk. rk ! (b + 5) XOR rk ! (b + 12)),
       (b + 14, \<lambda>rk. rk ! (b + 6) XOR rk ! (b + 13)),
       (b + 15, \<lambda>rk. rk ! (b + 7) XOR rk ! (b + 14))]"
  have rcon: "x XOR RCON_fixed ! i XOR y = x XOR (y XOR Rcon (Suc i))" for x y
    using assms(2) by (simp add: RCON_fixed_nth xor_ac)
  have d: "r = fold (\<lambda>(i, f) rk. rk[i := f rk]) ups rk"
    unfolding r_def b_def [symmetric] expand_256_def ups_def fixed_sel xor.assoc rot_sub plain_sub rcon
      b_def [symmetric] fold_simps prod.case Let_def ..
  have "sorted_wrt (<) (map fst ups)" "\<forall>(i, f) \<in> set ups. i < length rk \<and> reads_below i f"
    using assms(2,3) unfolding ups_def b_def by (simp_all add: reads_below_def)
  from update_chain [OF this, folded d]
  have v: "\<forall>(i, f) \<in> set ups. r ! i = f r" and frame: "\<forall>j. j \<notin> fst ` set ups \<longrightarrow> r ! j = rk ! j"
    by auto
  have m:
    "b mod 8 = 0" "(b + 8) div 8 = Suc i" "(b + 9) mod 8 = 1" "(b + 10) mod 8 = 2"
    "(b + 11) mod 8 = 3" "(b + 12) mod 8 = 4" "(b + 13) mod 8 = 5" "(b + 14) mod 8 = 6"
    "(b + 15) mod 8 = 7"
    by (simp_all add: b_def)
  have kt:
    "key_temp 8 (b + 8) x = SubWord (RotWord x) XOR Rcon (Suc i)" "key_temp 8 (b + 9) x = x"
    "key_temp 8 (b + 10) x = x" "key_temp 8 (b + 11) x = x" "key_temp 8 (b + 12) x = SubWord x"
    "key_temp 8 (b + 13) x = x" "key_temp 8 (b + 14) x = x" "key_temp 8 (b + 15) x = x" for x
    by (simp_all add: key_temp_def m)
  have idx:
    "b + 8 + 1 = b + 9" "b + 8 + 2 = b + 10" "b + 8 + 3 = b + 11" "b + 8 + 4 = b + 12"
    "b + 8 + 5 = b + 13" "b + 8 + 6 = b + 14" "b + 8 + 7 = b + 15" "b + 8 - 1 = b + 7"
    "b + 9 - 1 = b + 8" "b + 10 - 1 = b + 9" "b + 11 - 1 = b + 10" "b + 12 - 1 = b + 11"
    "b + 13 - 1 = b + 12" "b + 14 - 1 = b + 13" "b + 15 - 1 = b + 14"
    by simp_all
  have "\<forall>k < 8. r ! (b + 8 + k) = r ! (b + k) XOR key_temp 8 (b + 8 + k) (r ! (b + 8 + k - 1))"
    using v by (simp only: all_less_8 add_0_right idx kt ups_def list.set ball_simps prod.case simp_thms)
  moreover have "\<forall>j < b + 8. r ! j = rk ! j" using frame by (auto simp: ups_def)
  ultimately have "sched 8 key (b + 8 + 8) r"
    using assms(1) by (intro sched_block [of 8 key b rk]) (simp_all add: b_def)
  then show ?thesis using assms(3) unfolding b_def r_def expand_length by simp
qed

lemma key_load_sched:
  assumes "Nk \<le> length rk"
  shows "sched Nk key Nk (key_load key Nk rk)" and "length (key_load key Nk rk) = length rk"
  using assms
  by (auto simp: sched_def key_load_def fold_update_upt nth_append GET_UINT32_pack key_word_def mult.commute)

lemma fold_expand_sched:
  assumes "\<And>i rk. sched Nk key (Nk * i + Nk) rk \<Longrightarrow> i < n \<Longrightarrow> length rk = 64 \<Longrightarrow>
      sched Nk key (Nk * i + Nk + Nk) (f i rk) \<and> length (f i rk) = 64"
    and "sched Nk key Nk rk" and "length rk = 64"
  shows "sched Nk key (Nk * n + Nk) (fold f [0..<n] rk) \<and> length (fold f [0..<n] rk) = 64"
proof -
  have "m \<le> n \<Longrightarrow> sched Nk key (Nk * m + Nk) (fold f [0..<m] rk) \<and> length (fold f [0..<m] rk) = 64" for m
  proof (induction m)
    case (Suc m)
    then show ?case using assms(1) [of m "fold f [0..<m] rk"] by (simp add: add.commute add.left_commute)
  qed (use assms in simp)
  then show ?thesis by simp
qed

lemma expand_all_KeyExpansion:
  fixes key :: bytes
  assumes "Nk \<in> {4, 6, 8}" and "length rk = 64"
  defines "w \<equiv> expand_all aes_fixed_tables Nk (key_load key Nk rk)"
  shows "take (4 * (Nk + 7)) w = KeyExpansion key Nk (Nk + 6)" and "length w = 64"
proof -
  have l: "sched Nk key Nk (key_load key Nk rk)" "length (key_load key Nk rk) = 64"
    using assms(1,2) key_load_sched [of Nk rk key] by auto
  consider "Nk = 4" | "Nk = 6" | "Nk = 8" using assms(1) by auto
  then have "sched Nk key (4 * (Nk + 7)) w \<and> length w = 64"
  proof cases
    case 1
    have w: "w = fold (expand_128 aes_fixed_tables) [0..<10] (key_load key 4 rk)"
      by (simp add: w_def expand_all_def 1)
    have "sched 4 key (4 * 10 + 4) w \<and> length w = 64"
      unfolding w by (rule fold_expand_sched [OF expand_128_sched]) (use l 1 in simp_all)
    then show ?thesis using 1 by simp
  next
    case 2
    have w: "w = fold (expand_192 aes_fixed_tables) [0..<8] (key_load key 6 rk)"
      by (simp add: w_def expand_all_def 2)
    have "sched 6 key (6 * 8 + 6) w \<and> length w = 64"
      unfolding w by (rule fold_expand_sched [OF expand_192_sched]) (use l 2 in simp_all)
    then show ?thesis using 2 by (auto elim: sched_mono)
  next
    case 3
    have w: "w = fold (expand_256 aes_fixed_tables) [0..<7] (key_load key 8 rk)"
      by (simp add: w_def expand_all_def 3)
    have "sched 8 key (8 * 7 + 8) w \<and> length w = 64"
      unfolding w by (rule fold_expand_sched [OF expand_256_sched]) (use l 3 in simp_all)
    then show ?thesis using 3 by (auto elim: sched_mono)
  qed
  then show "take (4 * (Nk + 7)) w = KeyExpansion key Nk (Nk + 6)" and "length w = 64"
    using assms(1) sched_take [of Nk key "Nk + 6" w] by auto
qed

subsection \<open>The decryption keys\<close>

lemma sk_copy_4: "(sk_copy rk ^^ 4) (RK, SK, sk) =
   (RK + 4, SK + 4, sk[SK := rk ! RK, SK + 1 := rk ! (RK + 1), SK + 2 := rk ! (RK + 2), SK + 3 := rk ! (RK + 3)])"
  by (simp add: funpow_4 sk_copy_def numeral_3_eq_3)

lemma sk_mix_4: "(sk_mix g rk ^^ 4) (RK, SK, sk) =
   (RK + 4, SK + 4, sk[SK := KT_word g (rk ! RK), SK + 1 := KT_word g (rk ! (RK + 1)),
      SK + 2 := KT_word g (rk ! (RK + 2)), SK + 3 := KT_word g (rk ! (RK + 3))])"
  by (simp add: funpow_4 sk_mix_def numeral_3_eq_3)

lemma write_row:
  assumes "\<forall>p < q. \<forall>c < 4. sk ! (4 * p + c) = e p c" and "4 * q + 4 \<le> length sk"
    and "\<forall>c < 4. v c = e q c"
  shows "\<forall>p < Suc q. \<forall>c < 4. sk[4 * q := v 0, 4 * q + 1 := v 1, 4 * q + 2 := v 2, 4 * q + 3 := v 3] ! (4 * p + c) = e p c"
proof (intro allI impI)
  fix p c assume "p < Suc q" "c < (4 :: nat)"
  show "sk[4 * q := v 0, 4 * q + 1 := v 1, 4 * q + 2 := v 2, 4 * q + 3 := v 3] ! (4 * p + c) = e p c"
  proof (cases "p = q")
    case True
    have "c = 0 \<or> c = 1 \<or> c = 2 \<or> c = 3" using \<open>c < 4\<close> by auto
    then show ?thesis using True assms(2,3) by auto
  next
    case False
    then have "4 * p + c < 4 * q" using \<open>p < Suc q\<close> \<open>c < 4\<close> by auto
    then show ?thesis using assms(1) False \<open>p < Suc q\<close> \<open>c < 4\<close> by auto
  qed
qed

lemma decrypt_keys_loop:
  assumes "4 * (Nr + 1) \<le> length sk" and "m < Nr"
  shows "\<exists>sk'. fold (\<lambda>i p. (sk_mix g rk ^^ 4) (rk_back p)) [1..<Suc m] ((sk_copy rk ^^ 4) (4 * Nr, 0, sk))
      = (4 * (Nr - m) + 4, 4 * Suc m, sk') \<and> length sk' = length sk \<and>
      (\<forall>q < Suc m. \<forall>c < 4. sk' ! (4 * q + c) = dk_entry g rk Nr q c)"
  using assms(2)
proof (induction m)
  case 0
  show ?case
    using write_row [of 0 sk "dk_entry g rk Nr" "\<lambda>c. rk ! (4 * Nr + c)"] assms
    by (simp add: sk_copy_4 dk_entry_def)
next
  case (Suc m)
  then obtain sk' where s: "fold (\<lambda>i p. (sk_mix g rk ^^ 4) (rk_back p)) [1..<Suc m] ((sk_copy rk ^^ 4) (4 * Nr, 0, sk))
      = (4 * (Nr - m) + 4, 4 * Suc m, sk')" "length sk' = length sk"
      "\<forall>q < Suc m. \<forall>c < 4. sk' ! (4 * q + c) = dk_entry g rk Nr q c" by auto
  have e: "4 * (Nr - m) + 4 - 8 = 4 * (Nr - Suc m)" using Suc.prems by simp
  show ?case
    using write_row [OF s(3), of "\<lambda>c. KT_word g (rk ! (4 * (Nr - Suc m) + c))"] s Suc.prems assms
    by (simp add: rk_back_def sk_mix_4 e dk_entry_def)
qed

lemma decrypt_keys_entry:
  assumes "4 * (Nr + 1) \<le> length sk" and "0 < Nr" and "q \<le> Nr" and "c < 4"
  shows "decrypt_keys g rk (4 * Nr) Nr sk ! (4 * q + c) = dk_entry g rk Nr q c"
proof -
  obtain m where m: "Nr = Suc m" using assms(2) by (cases Nr) auto
  obtain sk' where s: "fold (\<lambda>i p. (sk_mix g rk ^^ 4) (rk_back p)) [1..<Nr] ((sk_copy rk ^^ 4) (4 * Nr, 0, sk))
      = (8, 4 * Nr, sk')" "length sk' = length sk"
      "\<forall>q < Nr. \<forall>c < 4. sk' ! (4 * q + c) = dk_entry g rk Nr q c"
    using decrypt_keys_loop [OF assms(1), of m g rk] m by auto
  have d: "decrypt_keys g rk (4 * Nr) Nr sk =
      sk'[4 * Nr := rk ! 0, 4 * Nr + 1 := rk ! 1, 4 * Nr + 2 := rk ! 2, 4 * Nr + 3 := rk ! 3]"
    unfolding decrypt_keys_def Let_def s(1) by (simp add: rk_back_def sk_copy_4 numeral_2_eq_2)
  have "\<forall>p < Suc Nr. \<forall>c < 4. decrypt_keys g rk (4 * Nr) Nr sk ! (4 * p + c) = dk_entry g rk Nr p c"
    unfolding d using s(2) assms(1,2) by (intro write_row [OF s(3)]) (simp_all add: dk_entry_def)
  then show ?thesis using assms(3,4) by simp
qed

subsection \<open>The tables and flags between calls\<close>

lemma KT_fill_ok:
  assumes "globals_ok g" and "tabs g = aes_fixed_tables" and "\<not> do_init g"
  shows "KT0 (KT_fill g) = KT_table RT0_fixed" "KT1 (KT_fill g) = KT_table RT1_fixed"
    "KT2 (KT_fill g) = KT_table RT2_fixed" "KT3 (KT_fill g) = KT_table RT3_fixed"
    "tabs (KT_fill g) = aes_fixed_tables" "\<not> do_init (KT_fill g)" "\<not> KT_init (KT_fill g)"
  using assms unfolding KT_fill_def globals_ok_def
  by (cases "KT_init g"; simp add: fold_update_all del: upt_Suc)+

lemma KT_table_nth: "KT_table R ! unat x = R ! unat (sbox (x :: u8))"
  using map_upt_nth [OF unat_u8_less [of x], where f = "\<lambda>i. R ! unat (FSb_fixed ! i)"]
  by (simp only: FSb_fixed_nth unat_ucast_u8)

lemma KT_word_mix:
  assumes "KT0 g = KT_table RT0_fixed" "KT1 g = KT_table RT1_fixed"
    "KT2 g = KT_table RT2_fixed" "KT3 g = KT_table RT3_fixed"
  shows "word_bytes (KT_word g w) = mix_column (0x0E, 0x0B, 0x0D, 0x09) (word_bytes w) 0"
  unfolding KT_word_def assms KT_table_nth RT_fixed_nth inv_sbox_sbox
  by (simp add: word_bytes_def mix_column_def byte_of_xor Let_def)

subsection \<open>After \<open>aes_set_key\<close>\<close>

lemma aes_set_key_unfold:
  assumes "nbits \<in> {128, 192, 256}"
  shows "\<exists>g1. g1 = (if do_init g then g\<lparr>tabs := aes_gen_tables pow0 log0 (tabs g), do_init := False\<rparr> else g) \<and>
    aes_set_key pow0 log0 g ctx key nbits =
      (let Nk = key_len nbits; rk = expand_all (tabs g1) Nk (key_load key Nk (erk ctx)); g2 = KT_fill g1
       in (0, g2, ctx\<lparr>erk := rk, drk := decrypt_keys g2 rk (4 * (Nk + 6)) (Nk + 6) (drk ctx), nr := Nk + 6\<rparr>))"
  using assms by (auto simp: aes_set_key_def key_len_def expand_all_def Let_def)

lemma init_tables:
  assumes "globals_ok g" and "length pow0 = 256" and "length log0 = 256"
  defines "g1 \<equiv> (if do_init g then g\<lparr>tabs := aes_gen_tables pow0 log0 (tabs g), do_init := False\<rparr> else g)"
  shows "globals_ok g1 \<and> tabs g1 = aes_fixed_tables \<and> \<not> do_init g1"
  using assms(1) aes_gen_tables_fixed [OF assms(2,3)]
  by (cases "do_init g") (auto simp: g1_def globals_ok_def)

lemma aes_set_key_ok:
  assumes "globals_ok g" and "length pow0 = 256" and "length log0 = 256"
    and "nbits \<in> {128, 192, 256}" and "length (erk ctx) = 64" and "length (drk ctx) = 64"
    and "aes_set_key pow0 log0 g ctx key nbits = (ret, g', ctx')"
  shows "ret = 0 \<and> globals_ok g' \<and> tabs g' = aes_fixed_tables \<and> context_for key (key_len nbits) ctx'"
proof -
  let ?Nk = "key_len nbits"
  have Nk: "?Nk \<in> {4, 6, 8}" using assms(4) by (auto simp: key_len_def)
  obtain g1 where g1: "globals_ok g1" "tabs g1 = aes_fixed_tables" "\<not> do_init g1"
    and call: "aes_set_key pow0 log0 g ctx key nbits =
      (let Nk = ?Nk; rk = expand_all (tabs g1) Nk (key_load key Nk (erk ctx)); g2 = KT_fill g1
       in (0, g2, ctx\<lparr>erk := rk, drk := decrypt_keys g2 rk (4 * (Nk + 6)) (Nk + 6) (drk ctx), nr := Nk + 6\<rparr>))"
    using aes_set_key_unfold [OF assms(4), of g pow0 log0 ctx key] init_tables [OF assms(1-3)] by auto
  define rk where "rk = expand_all aes_fixed_tables ?Nk (key_load key ?Nk (erk ctx))"
  note K = KT_fill_ok [OF g1]
  have r: "ret = 0" "g' = KT_fill g1" "nr ctx' = ?Nk + 6" "erk ctx' = rk"
    "drk ctx' = decrypt_keys (KT_fill g1) rk (4 * (?Nk + 6)) (?Nk + 6) (drk ctx)"
    using assms(7) call by (auto simp: Let_def g1(2) rk_def)
  have "4 * (?Nk + 6 + 1) \<le> length (drk ctx)" using Nk assms(6) by auto
  note D = decrypt_keys_entry [OF this, of _ _ "KT_fill g1" rk, folded r(5)]
  have "context_for key ?Nk ctx'"
    unfolding context_for_def
    using expand_all_KeyExpansion(1) [OF Nk assms(5), of key] D Nk
      D [of 0] D [of "?Nk + 6"] by (auto simp: r(3,4) rk_def dk_entry_def KT_word_mix [OF K(1-4)])
  then show ?thesis using r(1,2) K by (simp add: globals_ok_def)
qed

lemma encrypt_context:
  assumes "context_for key Nk ctx" and "Nk \<in> {4, 6, 8}" and "length inp = 16" and "length out = 16"
  shows "aes_encrypt aes_fixed_tables ctx inp out = Cipher (Nk + 6) (KeyExpansion key Nk (Nk + 6)) inp"
proof -
  have nr: "nr ctx = Nk + 6" and e: "take (4 * Suc (Nk + 6)) (erk ctx) = KeyExpansion key Nk (Nk + 6)"
    using assms(1) by (simp_all add: context_for_def add.commute)
  have "nr ctx \<in> {10, 12, 14}" using assms(2) by (auto simp: nr)
  then show ?thesis
    using aes_encrypt_Cipher [OF assms(3,4)] Cipher_take [of "Nk + 6" "erk ctx" inp, unfolded e]
    by (simp add: nr)
qed

lemma decrypt_context:
  assumes "context_for key Nk ctx" and "Nk \<in> {4, 6, 8}" and "length inp = 16" and "length out = 16"
  shows "aes_decrypt aes_fixed_tables ctx inp out = InvCipher (Nk + 6) (KeyExpansion key Nk (Nk + 6)) inp"
proof -
  have nr: "nr ctx = Nk + 6" and e: "take (4 * Suc (Nk + 6)) (erk ctx) = KeyExpansion key Nk (Nk + 6)"
    using assms(1) by (simp_all add: context_for_def add.commute)
  have "nr ctx \<in> {10, 12, 14}" using assms(2) by (auto simp: nr)
  then have "aes_decrypt aes_fixed_tables ctx inp out = InvCipher (Nk + 6) (erk ctx) inp"
    using aes_decrypt_rounds [OF assms(3,4)] EqInv_InvCipher [OF assms(3), of "Nk + 6" "drk ctx" "erk ctx"]
      assms(1) by (simp add: context_for_def)
  then show ?thesis
    using InvCipher_take [of "Nk + 6" "erk ctx" inp] by (simp only: e)
qed

lemma key_len_cases: "nbits \<in> {128, 192, 256} \<Longrightarrow> key_len nbits \<in> {4, 6, 8}"
  by (auto simp: key_len_def)

subsection \<open>Properties\<close>

lemma start_globals_ok: "globals_ok start_globals"
  by (simp add: globals_ok_def start_globals_def tables_sized_def blank_tables_def Let_def)

text \<open>C8. A successful key set-up (any of the three key sizes, first call or later) leaves in the
  context the round keys of the standard's key expansion.\<close>

theorem aes_set_key_expands:
  assumes "globals_ok g" and "length pow0 = 256" and "length log0 = 256"
    and "nbits \<in> {128, 192, 256}" and "length (erk ctx) = 64" and "length (drk ctx) = 64"
    and "aes_set_key pow0 log0 g ctx key nbits = (ret, g', ctx')"
  shows "ret = 0 \<and> globals_ok g' \<and> nr ctx' = key_len nbits + 6 \<and>
    take (4 * (nr ctx' + 1)) (erk ctx') = KeyExpansion key (key_len nbits) (nr ctx')"
  using aes_set_key_ok [OF assms] by (simp add: context_for_def add.commute)

theorem aes_set_key_expands_witness:
  "\<exists>g' ctx'. aes_set_key (replicate 256 0) (replicate 256 0) start_globals blank_context
       (map of_nat [0..<24]) 192 = (0, g', ctx') \<and> nr ctx' = 12 \<and>
     take 52 (erk ctx') = KeyExpansion (map of_nat [0..<24]) 6 12"
proof -
  obtain ret g' ctx' where c: "aes_set_key (replicate 256 0) (replicate 256 0) start_globals blank_context
       (map of_nat [0..<24]) 192 = (ret, g', ctx')"
    by (metis prod_cases3)
  from aes_set_key_expands [OF start_globals_ok _ _ _ _ _ c]
  show ?thesis using c by (auto simp: blank_context_def key_len_def simp del: upt_Suc)
qed

text \<open>C5. After \<open>aes_set_key\<close>, \<open>aes_encrypt\<close> computes the cipher of FIPS-197 on every block, whatever the
  output buffer held.\<close>

theorem aes_encrypt_refines:
  assumes "globals_ok g" and "length pow0 = 256" and "length log0 = 256"
    and "nbits \<in> {128, 192, 256}" and "length (erk ctx) = 64" and "length (drk ctx) = 64"
    and "aes_set_key pow0 log0 g ctx key nbits = (ret, g', ctx')"
    and "length inp = 16" and "length out = 16"
  shows "aes_encrypt (tabs g') ctx' inp out =
    Cipher (key_len nbits + 6) (KeyExpansion key (key_len nbits) (key_len nbits + 6)) inp"
  using aes_set_key_ok [OF assms(1-7)] encrypt_context [OF _ key_len_cases [OF assms(4)] assms(8,9)]
  by simp

theorem aes_encrypt_refines_witness:
  "\<exists>ret g' ctx'. aes_set_key (replicate 256 0) (replicate 256 0) start_globals blank_context
       (replicate 16 1) 128 = (ret, g', ctx') \<and>
     aes_encrypt (tabs g') ctx' (replicate 16 2) (replicate 16 0) =
       Cipher 10 (KeyExpansion (replicate 16 1) 4 10) (replicate 16 2)"
proof -
  obtain ret g' ctx' where c: "aes_set_key (replicate 256 0) (replicate 256 0) start_globals blank_context
       (replicate 16 1) 128 = (ret, g', ctx')"
    by (metis prod_cases3)
  from aes_encrypt_refines [OF start_globals_ok _ _ _ _ _ c, of "replicate 16 2" "replicate 16 0"] c
  show ?thesis by (simp add: blank_context_def key_len_def)
qed

text \<open>C6. After \<open>aes_set_key\<close>, \<open>aes_decrypt\<close>, which works with transformed round keys in the order of the
  cipher, computes the inverse cipher of FIPS-197 on every block.\<close>

theorem aes_decrypt_refines:
  assumes "globals_ok g" and "length pow0 = 256" and "length log0 = 256"
    and "nbits \<in> {128, 192, 256}" and "length (erk ctx) = 64" and "length (drk ctx) = 64"
    and "aes_set_key pow0 log0 g ctx key nbits = (ret, g', ctx')"
    and "length inp = 16" and "length out = 16"
  shows "aes_decrypt (tabs g') ctx' inp out =
    InvCipher (key_len nbits + 6) (KeyExpansion key (key_len nbits) (key_len nbits + 6)) inp"
  using aes_set_key_ok [OF assms(1-7)] decrypt_context [OF _ key_len_cases [OF assms(4)] assms(8,9)]
  by simp

theorem aes_decrypt_refines_witness:
  "\<exists>ret g' ctx'. aes_set_key (replicate 256 0) (replicate 256 0) start_globals blank_context
       (replicate 32 1) 256 = (ret, g', ctx') \<and>
     aes_decrypt (tabs g') ctx' (replicate 16 2) (replicate 16 0) =
       InvCipher 14 (KeyExpansion (replicate 32 1) 8 14) (replicate 16 2)"
proof -
  obtain ret g' ctx' where c: "aes_set_key (replicate 256 0) (replicate 256 0) start_globals blank_context
       (replicate 32 1) 256 = (ret, g', ctx')"
    by (metis prod_cases3)
  from aes_decrypt_refines [OF start_globals_ok _ _ _ _ _ c, of "replicate 16 2" "replicate 16 0"] c
  show ?thesis by (simp add: blank_context_def key_len_def)
qed

text \<open>C7. Decryption undoes encryption under the same context, for every key size and every block.\<close>

theorem aes_decrypt_encrypt:
  assumes "globals_ok g" and "length pow0 = 256" and "length log0 = 256"
    and "nbits \<in> {128, 192, 256}" and "length (erk ctx) = 64" and "length (drk ctx) = 64"
    and "aes_set_key pow0 log0 g ctx key nbits = (ret, g', ctx')"
    and "length inp = 16" and "length out = 16" and "length out' = 16"
  shows "aes_decrypt (tabs g') ctx' (aes_encrypt (tabs g') ctx' inp out) out' = inp"
proof -
  note k = key_len_cases [OF assms(4)]
  have ok: "tabs g' = aes_fixed_tables" "context_for key (key_len nbits) ctx'"
    using aes_set_key_ok [OF assms(1-7)] by auto
  show ?thesis
    unfolding ok(1) encrypt_context [OF ok(2) k assms(8,9)]
    using assms(8) by (simp add: decrypt_context [OF ok(2) k _ assms(10)] Cipher_length InvCipher_Cipher)
qed

theorem aes_decrypt_encrypt_witness:
  "\<exists>ret g' ctx'. aes_set_key (replicate 256 0) (replicate 256 0) start_globals blank_context
       (replicate 16 1) 128 = (ret, g', ctx') \<and>
     aes_decrypt (tabs g') ctx' (aes_encrypt (tabs g') ctx' (replicate 16 2) (replicate 16 0)) (replicate 16 0)
       = replicate 16 2"
proof -
  obtain ret g' ctx' where c: "aes_set_key (replicate 256 0) (replicate 256 0) start_globals blank_context
       (replicate 16 1) 128 = (ret, g', ctx')"
    by (metis prod_cases3)
  from aes_decrypt_encrypt [OF start_globals_ok _ _ _ _ _ c, of "replicate 16 2" "replicate 16 0" "replicate 16 0"] c
  show ?thesis by (simp add: blank_context_def)
qed

end
