(* ===== verification/RaopClient.thy ===== *)
theory RaopClient
  imports RtspClient PcmStream Base64 AesKey "HOL-Library.Signed_Division"
begin

text \<open>
  The RAOP client \<^verbatim>\<open>src/jni/raop_play/raop_client.c\<close>: the session with the speaker, the packets it sends, the
  control and timing threads, pausing and volume.  As in \<open>RtspClient\<close>, \<open>None\<close> as a result is undefined
  behaviour of the C code.  Variables that are static in a function live in the record \<open>raop_host\<close>,
  beside the descriptor table.
\<close>

subsection \<open>State\<close>

definition JACK_STATUS_CONNECTED :: int where
  "JACK_STATUS_CONNECTED = 1"

definition JACK_TYPE_DIGITAL :: int where
  "JACK_TYPE_DIGITAL = 1"

definition VOLUME_DEF :: int where
  "VOLUME_DEF = -30"

definition VOLUME_MIN :: int where
  "VOLUME_MIN = -144"

definition VOLUME_MAX :: int where
  "VOLUME_MAX = 0"

definition BUFFER :: int where
  "BUFFER = 512"

datatype pause_state = NO_PAUSE | OP_PAUSE | NODATA_PAUSE

text \<open>\<open>out_data\<close> and \<open>target_addr\<close> are \<open>None\<close> when the pointer is null.\<close>

record raopcl =
  rtsp :: "rtspcl option"
  iv :: bytes
  nv :: bytes
  aes_key :: bytes
  target_addr :: "string option"
  rtsp_port :: u16
  ajstatus :: int
  ajtype :: int
  volume :: int
  stream_fd :: fd
  control_fd :: fd
  time_fd :: fd
  wblk_wsize :: int
  wblk_remsize :: int
  pause :: pause_state
  songdone :: int
  ctx :: aes_context
  out_data :: "bytes option"
  min_sdata :: bytes
  min_sdata_size :: int
  paused_time :: int
  size_in_aex :: int
  last_read_tv :: "int \<times> int"
  ssrc :: u32
  timestamp :: u32
  encrypted :: bool
  udp :: bool

record raop_host = host +
  seq_number :: u32
  first_packet :: bool
  totalcount :: int
  crypto :: aes_globals
  stack_line :: string                      \<comment> \<open>what an array of the stack held before a call\<close>

definition time_now :: "('a os_scheme, int) state" where
  "time_now = do { (sec, usec) \<leftarrow> gettimeofday; State_Monad.return (sint sec) }"

subsection \<open>Encryption\<close>

definition rsa_modulus :: string where
  "rsa_modulus =
     ''59dE8qLieItsH1WgjrcFRKj6eUWqi+bGLOX1HL3U3GhC/j0Qg90u3sG/1CUtwC'' @
     ''5vOYvfDmFI6oSFXi5ELabWJmT2dKHzBJKa3k9ok+8t9ucRqMd6DZHJ2YCCLlDR'' @
     ''KSKv6kDqnw4UwPdpOMXziC/AMj3Z/lUVX1G7WSHCAWKf1zNS1eLvqr+boEjXuB'' @
     ''OitnZ/bDzPHrTOZz0Dew0uowxf/+sG+NCK3eQJVxqcaJ/vEHKIVd2M+5qL71yJ'' @
     ''Q+87X6oV3eaYvt3zWZYD6z5vYTcrtij2VZ9Zmni/UAaHqn9JdsBWLUEpVviYnh'' @
     ''imNVvYFZeCXg/IdTQ+x4IRdiXNv5hEew==''"

definition rsa_exponent :: string where
  "rsa_exponent = ''AQAB''"

text \<open>\<open>RSA_public_encrypt\<close> of the cryptographic library is the argument \<open>rsa\<close>: from the modulus, the
  exponent and the text to the result, or \<open>None\<close> for -1.\<close>

type_synonym rsa_fun = "bytes \<Rightarrow> bytes \<Rightarrow> bytes \<Rightarrow> bytes option"

definition rsa_encrypt :: "rsa_fun \<Rightarrow> bytes \<Rightarrow> int \<times> bytes" where
  "rsa_encrypt rsa text =
     (case rsa (snd (base64_decode rsa_modulus)) (snd (base64_decode rsa_exponent)) text of
        None \<Rightarrow> (-1, [])
      | Some res \<Rightarrow> (int (length res), res))"

text \<open>Cipher block chaining in place, over whole blocks only.\<close>

function encrypt_loop ::
  "aes_tables \<Rightarrow> aes_context \<Rightarrow> nat \<Rightarrow> nat \<Rightarrow> bytes \<Rightarrow> bytes \<Rightarrow> nat \<times> bytes \<times> bytes" where
  "encrypt_loop t cx sz i v data =
     (if i + 16 \<le> sz then
        let buf = take 16 (drop i data);
            buf = map2 (XOR) buf v;
            buf = aes_encrypt t cx buf buf
        in encrypt_loop t cx sz (i + 16) buf (take i data @ buf @ drop (i + 16) data)
      else (i, v, data))"
  by pat_completeness auto

termination
  by (relation "measure (\<lambda>(t, cx, sz, i, v, data). sz - i)") auto

definition encrypt :: "aes_tables \<Rightarrow> raopcl \<Rightarrow> bytes \<Rightarrow> nat \<times> raopcl \<times> bytes" where
  "encrypt t c data =
     (let (i, v, data) = encrypt_loop t (ctx c) (length data) 0 (iv c) data in (i, c\<lparr>nv := v\<rparr>, data))"

subsection \<open>Events of the stream socket\<close>

text \<open>The size is taken from bytes 44 to 47 of the buffer, however many were read; where those were not
  read it is whatever the stack held.  The second test negates \<open>flags\<close> before it masks.\<close>

definition fd_event_callback ::
  "raopcl option \<Rightarrow> int \<Rightarrow> ('a raop_host_scheme, int \<times> raopcl option) state" where
  "fd_event_callback p flags = (case p of
       None \<Rightarrow> State_Monad.return (-1, None)
     | Some c \<Rightarrow>
         if and flags RAOP_FD_READ \<noteq> 0 then do {
           (i, bs) \<leftarrow> sys_read (stream_fd c) 256;
           if i > 0 then do {
             rsize \<leftarrow> (if length bs \<ge> 48 then State_Monad.return (sint (GET_BIGENDIAN_INT (drop 44 bs)))
                      else result2);
             (sec, usec) \<leftarrow> gettimeofday;
             State_Monad.return
               (0, Some (c\<lparr>size_in_aex := rsize, last_read_tv := (sint sec, sint usec)\<rparr>))
           } else State_Monad.return (-1, p)
         }
         else if and (if flags = 0 then 1 else 0) RAOP_FD_WRITE \<noteq> 0 then State_Monad.return (-1, p)
         else if wblk_remsize c = 0 then State_Monad.return (-1, p)
         else do {
           i \<leftarrow> sys (Write_call (stream_fd c)
             (take (nat (wblk_remsize c))
               (drop (nat (wblk_wsize c)) (case out_data c of None \<Rightarrow> [] | Some d \<Rightarrow> d))));
           if i \<le> 0 then State_Monad.return (-1, p)
           else do {
             let c = c\<lparr>wblk_wsize := wblk_wsize c + i, wblk_remsize := wblk_remsize c - i\<rparr>;
             _ \<leftarrow> (if wblk_remsize c = 0 then set_fd_event (stream_fd c) RAOP_FD_READ Fd_event_callback
                  else State_Monad.return 0);
             State_Monad.return (0, Some c)
           }
         })"

subsection \<open>Control and timing\<close>

text \<open>The host of the connection; it has been stored before the first of these calls.\<close>

definition connect_to :: "fd \<Rightarrow> raopcl \<Rightarrow> u16 \<Rightarrow> ('a os_scheme, int) state" where
  "connect_to sd c port = (case target_addr c of
       None \<Rightarrow> State_Monad.return (-1)
     | Some h \<Rightarrow> get_tcp_connect_by_host sd h port)"

text \<open>On failure the timing socket is closed instead of the control socket.\<close>

definition raopcl_connectcontrol :: "raopcl \<Rightarrow> u16 \<Rightarrow> ('a os_scheme, int \<times> raopcl) state" where
  "raopcl_connectcontrol c myport = do {
     (sd, myport) \<leftarrow> open_udp_socket None myport;
     let c = c\<lparr>control_fd := sd\<rparr>;
     if sd = -1 then State_Monad.return (-1, c)
     else do {
       r \<leftarrow> connect_to sd c (rtspcl_get_control_port (rtsp c));
       if r \<noteq> 0 then do {
         emit (Close_call (time_fd c));
         State_Monad.return (-1, c\<lparr>time_fd := -1\<rparr>)
       }
       else do {
         r \<leftarrow> sys (Thread_call ''raopcl_sync'');
         State_Monad.return (r, c)
       }
     }
   }"

text \<open>Rounding to the 53 bits of a \<^verbatim>\<open>double\<close>, half to even, of a natural number that stands for its
  multiple of a power of two; \<open>NTP_SCALE\<close> is the \<^verbatim>\<open>double\<close> 4294.967296 as a multiple of \<open>2\<^sup>-\<^sup>4\<^sup>0\<close>.\<close>

fun bit_length :: "nat \<Rightarrow> nat" where
  "bit_length n = (if n = 0 then 0 else Suc (bit_length (n div 2)))"

definition round53 :: "nat \<Rightarrow> nat" where
  "round53 n =
     (let s = bit_length n - 53; q = n div 2 ^ s; r = n mod 2 ^ s
      in (if 2 ^ s < 2 * r \<or> 2 * r = 2 ^ s \<and> odd q then q + 1 else q) * 2 ^ s)"

definition NTP_SCALE :: nat where
  "NTP_SCALE = 4722366482869645"

text \<open>The sum is one of a 64-bit integer and a \<^verbatim>\<open>double\<close>, so it is rounded too before it is truncated.\<close>

definition calculate_timestamp :: "u32 \<times> u32 \<Rightarrow> u64" where
  "calculate_timestamp tv = (case tv of (sec, usec) \<Rightarrow>
     let hi = push_bit 32 (scast sec + 2208988800 :: u64);
         frac = round53 (unat usec * NTP_SCALE)
     in of_nat (round53 (unat hi * 2 ^ 40 + frac) div 2 ^ 40))"

definition byte64 :: "nat \<Rightarrow> u64 \<Rightarrow> u8" where
  "byte64 k w = ucast (drop_bit k w)"

definition ntp_bytes :: "u64 \<Rightarrow> bytes" where
  "ntp_bytes w = [byte64 56 w, byte64 48 w, byte64 40 w, byte64 32 w,
     byte64 24 w, byte64 16 w, byte64 8 w, byte64 0 w]"

definition be32 :: "u32 \<Rightarrow> bytes" where
  "be32 w = [byte_of 24 w, byte_of 16 w, byte_of 8 w, byte_of 0 w]"

definition sync_packet :: "u32 \<Rightarrow> u64 \<Rightarrow> bytes" where
  "sync_packet ts now = [128, 212, 0, 7] @ be32 ts @ ntp_bytes now @ be32 (ts + 352)"

text \<open>One pass of the endless loop of the control thread.  It writes to the timing socket.\<close>

definition raopcl_sync :: "raopcl \<Rightarrow> ('a os_scheme, unit) state" where
  "raopcl_sync c = do {
     ctv \<leftarrow> gettimeofday;
     emit (Write_call (time_fd c) (sync_packet (timestamp c) (calculate_timestamp ctv)));
     emit (Sleep_call 1000000)
   }"

definition raopcl_connecttime :: "raopcl \<Rightarrow> u16 \<Rightarrow> ('a os_scheme, int \<times> raopcl) state" where
  "raopcl_connecttime c myport = do {
     (sd, myport) \<leftarrow> open_udp_socket None myport;
     let c = c\<lparr>time_fd := sd\<rparr>;
     if sd = -1 then State_Monad.return (-1, c)
     else do {
       r \<leftarrow> connect_to sd c (rtspcl_get_timing_port (rtsp c));
       if r \<noteq> 0 then do {
         emit (Close_call (time_fd c));
         State_Monad.return (-1, c\<lparr>time_fd := -1\<rparr>)
       }
       else do {
         i \<leftarrow> sys (Write_call (time_fd c) [255]);
         if i \<le> 0 then State_Monad.return (-1, c)
         else do {
           r \<leftarrow> sys (Thread_call ''raopcl_time_connect'');
           State_Monad.return (r, c)
         }
       }
     }
   }"

definition timing_reply :: "bytes \<Rightarrow> u64 \<Rightarrow> bytes" where
  "timing_reply buf now =
     [128, 211, 0, 7, 0, 0, 0, 0] @ map (\<lambda>j. buf ! (j + 16)) [8..<16] @ ntp_bytes now @ ntp_bytes now"

text \<open>One pass of the endless loop of the timing thread, with the buffer kept from pass to pass.\<close>

definition raopcl_time_connect :: "raopcl \<Rightarrow> bytes \<Rightarrow> ('a os_scheme, bytes) state" where
  "raopcl_time_connect c buf = do {
     (i, bs) \<leftarrow> sys_read (time_fd c) 256;
     let buf = bs @ drop (length bs) buf;
     if i > 0 then do {
       ctv \<leftarrow> gettimeofday;
       emit (Write_call (time_fd c) (timing_reply buf (calculate_timestamp ctv)));
       State_Monad.return buf
     } else State_Monad.return buf
   }"

text \<open>The results of the two connections are ignored.\<close>

definition raopcl_stream_connect :: "raopcl \<Rightarrow> ('a os_scheme, int \<times> raopcl) state" where
  "raopcl_stream_connect c = do {
     (c, sd) \<leftarrow> (if udp c then do {
         (r, c) \<leftarrow> raopcl_connectcontrol c 6001;
         (r, c) \<leftarrow> raopcl_connecttime c 6002;
         (sd, myport) \<leftarrow> open_udp_socket None 0;
         State_Monad.return (c, sd)
       } else do {
         (sd, myport) \<leftarrow> open_tcp_socket None 0;
         State_Monad.return (c, sd)
       });
     let c = c\<lparr>stream_fd := sd\<rparr>;
     if sd = -1 then State_Monad.return (-1, c)
     else do {
       r \<leftarrow> connect_to sd c (rtspcl_get_server_port (rtsp c));
       if r \<noteq> 0 then do {
         emit (Close_call sd);
         State_Monad.return (-1, c\<lparr>stream_fd := -1\<rparr>)
       } else State_Monad.return (0, c)
     }
   }"

subsection \<open>Sending samples\<close>

definition msleep :: "nat \<Rightarrow> ('a os_scheme, unit) state" where
  "msleep ms =
     (let microsecs = ms * 1000
      in emit (Sleep_call (microsecs div 1000000 * 1000000 + microsecs mod 1000000)))"

definition raopcl_count_samples :: "int \<Rightarrow> ('a raop_host_scheme, int) state" where
  "raopcl_count_samples count = do {
     total \<leftarrow> State (\<lambda>w. (totalcount w + count, w\<lparr>totalcount := totalcount w + count\<rparr>));
     if total \<ge> BUFFER * MAX_SAMPLES_IN_CHUNK then do {
       msleep 7;
       State (\<lambda>w. (0, w\<lparr>totalcount := totalcount w - DEFAULT_SAMPLE_RATE div 25\<rparr>))
     } else State_Monad.return 0
   }"

definition rtp_header :: "bool \<Rightarrow> u32 \<Rightarrow> u32 \<Rightarrow> u32 \<Rightarrow> bytes" where
  "rtp_header first seq ts src =
     [128, (if first then 96 + 128 else 96), byte_of 8 seq, byte_of 0 seq] @ be32 ts @ be32 src"

definition READ_WRITE :: int where
  "READ_WRITE = or RAOP_FD_READ RAOP_FD_WRITE"

text \<open>The packet is put in a fresh block and the stream socket is watched for writing.\<close>

definition send_udp :: "raopcl \<Rightarrow> bytes \<Rightarrow> ('a raop_host_scheme, int \<times> raopcl) state" where
  "send_udp c sample = do {
     (first, seq, t) \<leftarrow> State (\<lambda>w. ((first_packet w, seq_number w, tabs (crypto w)), w));
     let head = rtp_header first seq (timestamp c) (ssrc c);
     let c = c\<lparr>timestamp := timestamp c + of_nat (length sample)\<rparr>;
     (r, q) \<leftarrow> realloc_memory 0 (int (length sample + 12));
     if r \<noteq> 0 then State_Monad.return (-1, c\<lparr>out_data := None\<rparr>)
     else do {
       let (i, c, body) = (if encrypted c then encrypt t c sample else (0, c, sample));
       let c = c\<lparr>out_data := Some (head @ body), wblk_remsize := int (length sample + 12),
                wblk_wsize := 0\<rparr>;
       r \<leftarrow> set_fd_event (stream_fd c) READ_WRITE Fd_event_callback;
       if r \<noteq> 0 then State_Monad.return (-1, c)
       else do {
         State (\<lambda>w. ((), w\<lparr>seq_number := seq_number w + 1, first_packet := False\<rparr>));
         r \<leftarrow> raopcl_count_samples (int (length sample));
         State_Monad.return (r, c)
       }
     }
   }"

definition tcp_header :: "nat \<Rightarrow> bytes" where
  "tcp_header count =
     (let len = (of_nat (count + 16 - 4) :: u16)
      in [0x24, 0x00, 0x00, 0x00, 0xF0, 0xFF, 0x00, 0x00,
          0x00, 0x00, 0x00, 0x00, 0x00, 0x00, 0x00, 0x00]
         [2 := ucast (drop_bit 8 len), 3 := ucast (len AND 0xff)])"

definition send_tcp :: "raopcl \<Rightarrow> bytes \<Rightarrow> ('a raop_host_scheme, int \<times> raopcl) state" where
  "send_tcp c sample = do {
     t \<leftarrow> State (\<lambda>w. (tabs (crypto w), w));
     (r, q) \<leftarrow> realloc_memory 0 (int (length sample + 16 + 16));
     if r \<noteq> 0 then State_Monad.return (-1, c\<lparr>out_data := None\<rparr>)
     else do {
       let (i, c, body) = encrypt t c sample;
       let c = c\<lparr>out_data := Some (tcp_header (length sample) @ body),
                wblk_remsize := int (length sample + 16), wblk_wsize := 0\<rparr>;
       r \<leftarrow> set_fd_event (stream_fd c) READ_WRITE Fd_event_callback;
       State_Monad.return (if r \<noteq> 0 then -1 else 0, c)
     }
   }"

text \<open>\<open>sample\<close> is the \<open>count\<close> bytes the pointer leads to.\<close>

definition raopcl_send_sample ::
  "raopcl option \<Rightarrow> bytes \<Rightarrow> ('a raop_host_scheme, int \<times> raopcl option) state" where
  "raopcl_send_sample p sample = (case p of
       None \<Rightarrow> State_Monad.return (-1, None)
     | Some c \<Rightarrow> do {
         (r, c) \<leftarrow> (if udp c then send_udp c sample else send_tcp c sample);
         State_Monad.return (r, Some c)
       })"

definition raopcl_small_silent :: "raopcl \<Rightarrow> ('a raop_host_scheme, int \<times> raopcl) state" where
  "raopcl_small_silent c = do {
     (r, p) \<leftarrow> raopcl_send_sample (Some c) (take (nat (min_sdata_size c)) (min_sdata c));
     State_Monad.return (0, the p)
   }"

subsection \<open>Pausing\<close>

text \<open>Most operations return -1 on a null handle; the others would dereference it.\<close>

definition if_client ::
  "raopcl option \<Rightarrow> (raopcl \<Rightarrow> ('a os_scheme, (int \<times> raopcl) option) state) \<Rightarrow>
   ('a os_scheme, (int \<times> raopcl option) option) state" where
  "if_client p f = (case p of
       None \<Rightarrow> State_Monad.return (Some (-1, None))
     | Some c \<Rightarrow> do { r \<leftarrow> f c; State_Monad.return (map_option (apsnd Some) r) })"

text \<open>A call of the RTSP client on its handle.\<close>

definition on_rtsp ::
  "raopcl \<Rightarrow> (rtspcl option \<Rightarrow> ('a os_scheme, (int \<times> rtspcl option) option) state) \<Rightarrow>
   ('a os_scheme, (int \<times> raopcl) option) state" where
  "on_rtsp c f = do {
     r \<leftarrow> f (rtsp c);
     State_Monad.return (map_option (\<lambda>(v, p). (v, c\<lparr>rtsp := p\<rparr>)) r)
   }"

definition raopcl_pause_check ::
  "raopcl \<Rightarrow> ('a raop_host_scheme, (int \<times> raopcl) option) state" where
  "raopcl_pause_check c = (case pause c of
       NO_PAUSE \<Rightarrow> State_Monad.return (Some (0, c))
     | OP_PAUSE \<Rightarrow> do {
         now \<leftarrow> time_now;
         if now - paused_time c < 3 then State_Monad.return (Some (0, c))
         else do {
           r \<leftarrow> on_rtsp c rtspcl_flush;
           now \<leftarrow> time_now;
           State_Monad.return (map_option (\<lambda>(v, c). (1, c\<lparr>paused_time := now\<rparr>)) r)
         }
       }
     | NODATA_PAUSE \<Rightarrow> do {
         now \<leftarrow> time_now;
         if now - paused_time c < 3 then State_Monad.return (Some (0, c))
         else do {
           (r, c) \<leftarrow> raopcl_small_silent c;
           now \<leftarrow> time_now;
           State_Monad.return (Some (1, c\<lparr>paused_time := now\<rparr>))
         }
       })"

definition raopcl_wait_songdone :: "raopcl \<Rightarrow> int \<Rightarrow> int \<times> raopcl" where
  "raopcl_wait_songdone c set_to =
     (let c = (if set_to \<noteq> 0 then c\<lparr>songdone := (if set_to = 1 then 1 else 0)\<rparr> else c)
      in (songdone c, c))"

definition raopcl_sample_remsize :: "raopcl option \<Rightarrow> int" where
  "raopcl_sample_remsize p = (case p of None \<Rightarrow> -1 | Some c \<Rightarrow> wblk_remsize c)"

definition raopcl_flush_stream ::
  "raopcl option \<Rightarrow> ('a os_scheme, (int \<times> raopcl option) option) state" where
  "raopcl_flush_stream p = if_client p (\<lambda>c. on_rtsp c rtspcl_flush)"

text \<open>\<open>OP_PAUSE\<close> flushes and falls through to the next case.\<close>

definition raopcl_set_pause ::
  "raopcl option \<Rightarrow> pause_state \<Rightarrow> ('a raop_host_scheme, (int \<times> raopcl option) option) state" where
  "raopcl_set_pause p ps = if_client p (\<lambda>c. do {
     let c = c\<lparr>pause := ps\<rparr>;
     r \<leftarrow> (if ps = OP_PAUSE then on_rtsp c rtspcl_flush else State_Monad.return (Some (0, c)));
     case r of
       None \<Rightarrow> State_Monad.return None
     | Some (v, c) \<Rightarrow>
         if ps = NO_PAUSE then do {
           _ \<leftarrow> set_fd_event (stream_fd c) READ_WRITE Fd_event_callback;
           State_Monad.return (Some (0, c))
         } else do {
           _ \<leftarrow> set_fd_event (stream_fd c) RAOP_FD_READ Fd_event_callback;
           now \<leftarrow> time_now;
           State_Monad.return (Some (0, c\<lparr>paused_time := now\<rparr>))
         }
   })"

text \<open>\<open>None\<close> is the value -1, which is none of the enumeration.\<close>

definition raopcl_get_pause :: "raopcl option \<Rightarrow> pause_state option" where
  "raopcl_get_pause p = map_option pause p"

text \<open>The time until the speaker's buffer runs empty, as seconds and microseconds.\<close>

definition raopcl_aexbuf_time :: "raopcl option \<Rightarrow> ('a os_scheme, int \<times> int \<times> int) state" where
  "raopcl_aexbuf_time p = (case p of
       None \<Rightarrow> State_Monad.return (-1, 0, 0)
     | Some c \<Rightarrow>
      if size_in_aex c \<le> 0 then State_Monad.return (1, 0, 0)
      else do {
        let asec = size_in_aex c div 44100;
        let ausec = size_in_aex c mod 44100 * 10000 div 441;
        (csec, cusec) \<leftarrow> gettimeofday;
        let dsec = asec - (sint csec - fst (last_read_tv c));
        let dusec = ausec - (sint cusec - snd (last_read_tv c));
        let (dsec, dusec) =
          (if dusec \<ge> 1000000 then (dsec + 1, dusec - 1000000)
           else if dusec < 0 then (dsec - 1, dusec + 1000000)
           else (dsec, dusec));
        State_Monad.return (if dsec < 0 then (0, 0, 0) else (0, dsec, dusec))
      })"

subsection \<open>Volume and titles\<close>

definition raopcl_update_volume ::
  "raopcl option \<Rightarrow> int \<Rightarrow> ('a os_scheme, (int \<times> raopcl option) option) state" where
  "raopcl_update_volume p vol = if_client p (\<lambda>c.
      if rtsp c = None then State_Monad.return (Some (-1, c))
      else do {
        let c = c\<lparr>volume := VOLUME_MIN + (VOLUME_MAX - VOLUME_MIN) * vol sdiv 100\<rparr>;
        on_rtsp c (\<lambda>p. rtspcl_set_parameter p
          (''volume: '' @ dec_int (volume c) @ ''.000000'' @ CRLF))
      })"

text \<open>\<open>memcpy\<close> into an array; \<open>None\<close> when it would leave the array.\<close>

definition put_at :: "nat \<times> bytes \<Rightarrow> bytes option \<Rightarrow> bytes option" where
  "put_at w ao = (case w of (off, bs) \<Rightarrow> (case ao of
       None \<Rightarrow> None
     | Some a \<Rightarrow>
         if off + length bs \<le> length a then Some (take off a @ bs @ drop (off + length bs) a)
         else None))"

definition content_size :: "string \<Rightarrow> string \<Rightarrow> string \<Rightarrow> nat" where
  "content_size itemname songartist songalbum =
     4 + 4 + length itemname + 1 + 4 + 4 + length songartist + 1 + 4 + 4 + length songalbum + 1"

text \<open>The copies in the order of the code.  Where it measures the pointer to a command instead of the command,
  the result is the same four bytes.\<close>

definition content_writes :: "string \<Rightarrow> string \<Rightarrow> string \<Rightarrow> (nat \<times> bytes) list" where
  "content_writes itemname songartist songalbum =
     (let n = length itemname; m = length songartist; k = length songalbum in
      [(0, map ord8 ''mlit''),
       (4, be32 (of_nat (content_size itemname songartist songalbum))),
       (4 + 4, map ord8 ''minm''),
       (4 + 4 + 4, be32 (of_nat (n + 1))),
       (4 + 4 + 4 + 4, map ord8 itemname),
       (4 + 4 + 4 + 4 + n + 1, map ord8 ''asar''),
       (4 + 4 + 4 + 4 + n + 1 + 4, be32 (of_nat (m + 1))),
       (4 + 4 + 4 + 4 + n + 1 + 4 + 4, map ord8 songartist),
       (4 + 4 + 4 + 4 + n + 1 + 4 + 4 + m + 1, map ord8 ''asal''),
       (4 + 4 + 4 + 4 + n + 1 + 4 + 4 + m + 1 + 4, be32 (of_nat (k + 1))),
       (4 + 4 + 4 + 4 + n + 1 + 4 + 4 + m + 1 + 4 + 4, map ord8 songalbum)])"

definition raopcl_set_content ::
  "raopcl option \<Rightarrow> string \<Rightarrow> string \<Rightarrow> string \<Rightarrow>
   ('a os_scheme, (int \<times> raopcl option) option) state" where
  "raopcl_set_content p itemname songartist songalbum = if_client p (\<lambda>c.
      if rtsp c = None then State_Monad.return (Some (-1, c))
      else (case fold put_at (content_writes itemname songartist songalbum) (Some (replicate 512 0)) of
          None \<Rightarrow> State_Monad.return None
        | Some a \<Rightarrow> on_rtsp c (\<lambda>p. rtspcl_set_daap p (map chr8 a) (timestamp c)
            (int (content_size itemname songartist songalbum + (4 + 4))))))"

subsection \<open>Opening, closing, connecting\<close>

definition zero_raopcl :: raopcl where
  "zero_raopcl = \<lparr>rtsp = None, iv = replicate 16 0, nv = replicate 16 0, aes_key = replicate 16 0,
     target_addr = None, rtsp_port = 0, ajstatus = 0, ajtype = 0, volume = 0, stream_fd = 0,
     control_fd = 0, time_fd = 0, wblk_wsize = 0, wblk_remsize = 0, pause = NO_PAUSE, songdone = 0,
     ctx = \<lparr>erk = replicate 64 0, drk = replicate 64 0, nr = 0\<rparr>, out_data = None,
     min_sdata = replicate 144 0, min_sdata_size = 0, paused_time = 0, size_in_aex = 0,
     last_read_tv = (0, 0), ssrc = 0, timestamp = 0, encrypted = False, udp = False\<rparr>"

text \<open>The inner \<open>None\<close> is the null pointer returned when there are no random bytes, the outer one a failed
  allocation, whose result is used.  The arrays on the stack of \<open>aes_gen_tables\<close> are taken to be zero;
  \<open>aes_gen_tables_correct\<close> holds for any contents.\<close>

definition raopcl_open :: "('a raop_host_scheme, raopcl option option) state" where
  "raopcl_open = do {
     p \<leftarrow> sys (Malloc_call 800);
     if p = 0 then State_Monad.return None
     else do {
       (r, v) \<leftarrow> rand_bytes 16;
       if r = 0 then State_Monad.return (Some None)
       else do {
         (r, k) \<leftarrow> rand_bytes 16;
         if r = 0 then State_Monad.return (Some None)
         else do {
           cx \<leftarrow> State (\<lambda>w. case aes_set_key (replicate 256 0) (replicate 256 0) (crypto w)
                (ctx zero_raopcl) k 128 of (r, g, cx) \<Rightarrow> (cx, w\<lparr>crypto := g\<rparr>));
           let sdata = replicate (nat (MINIMUM_SAMPLE_SIZE * 4)) 0;
           res \<leftarrow> auds_write_pcm 33 2 (min_sdata zero_raopcl) MINIMUM_SAMPLE_SIZE
             (MEMORY (MINIMUM_SAMPLE_SIZE * 4) sdata);
           State_Monad.return (case res of
               None \<Rightarrow> None
             | Some (rval, sz, buf) \<Rightarrow> Some (Some (zero_raopcl\<lparr>iv := v, aes_key := k, nv := v,
                 volume := VOLUME_DEF, ctx := cx, min_sdata := buf,
                 min_sdata_size := (case sz of None \<Rightarrow> 0 | Some n \<Rightarrow> n)\<rparr>)))
         }
       }
     }
   }"

definition raopcl_close :: "raopcl option \<Rightarrow> ('a os_scheme, int option) state" where
  "raopcl_close p = (case p of
       None \<Rightarrow> State_Monad.return (Some (-1))
     | Some c \<Rightarrow> do {
         r \<leftarrow> (if rtsp c \<noteq> None then rtspcl_close (rtsp c) else State_Monad.return (Some (0, None)));
         (if out_data c \<noteq> None then emit (Free_call 2) else State_Monad.return ());
         (case target_addr c of None \<Rightarrow> State_Monad.return () | Some h \<Rightarrow> emit (Free_text_call h));
         emit (Free_call 1);
         State_Monad.return (map_option (\<lambda>_. 0) r)
       })"

text \<open>Words read from the array as the machine has them, least significant byte first.\<close>

definition le16 :: "bytes \<Rightarrow> u16" where
  "le16 b = ucast (b ! 0) OR push_bit 8 (ucast (b ! 1))"

definition le32 :: "bytes \<Rightarrow> u32" where
  "le32 b = pack (b ! 3) (b ! 2) (b ! 1) (b ! 0)"

definition hex_digit :: "u32 \<Rightarrow> char" where
  "hex_digit d = (if d < 10 then char_of (48 + unat d) else char_of (87 + unat d))"

definition hex8 :: "u32 \<Rightarrow> string" where
  "hex8 w = map (\<lambda>k. hex_digit (drop_bit k w AND 15)) [28, 24, 20, 16, 12, 8, 4, 0]"

definition sid_text :: "bool \<Rightarrow> bytes \<Rightarrow> string" where
  "sid_text u buf = (if u then dec_int 3420 @ dec_nat (unat (le16 buf)) else dec_int (sint (le32 buf)))"

definition sci_text :: "bytes \<Rightarrow> string" where
  "sci_text buf = hex8 (le32 (drop 4 buf)) @ hex8 (le32 (drop 8 buf))"

definition sdp_text :: "string \<Rightarrow> string \<Rightarrow> string \<Rightarrow> string \<Rightarrow> string \<Rightarrow> string" where
  "sdp_text sid local_ip host key v =
     ''v=0'' @ CRLF @
     ''o=iTunes '' @ sid @ '' 0 IN IP4 '' @ local_ip @ CRLF @
     ''s=iTunes'' @ CRLF @
     ''c=IN IP4 '' @ host @ CRLF @
     ''t=0 0'' @ CRLF @
     ''m=audio 0 RTP/AVP 96'' @ CRLF @
     ''a=rtpmap:96 AppleLossless'' @ CRLF @
     ''a=fmtp:96 '' @ dec_int MAX_SAMPLES_IN_CHUNK @ '' 0 16 40 10 14 2 255 0 0 44100'' @ CRLF @
     ''a=rsaaeskey:'' @ key @ CRLF @
     ''a=aesiv:'' @ v @ CRLF"

definition scan_jack :: "string \<Rightarrow> raopcl \<Rightarrow> raopcl" where
  "scan_jack token c = (case split_at CHR ''='' token of
       Some (k, v) \<Rightarrow> if k = ''type'' \<and> v = ''digital'' then c\<lparr>ajtype := JACK_TYPE_DIGITAL\<rparr> else c
     | None \<Rightarrow> if token = ''connected'' then c\<lparr>ajstatus := JACK_STATUS_CONNECTED\<rparr> else c)"

definition jack_status :: "key_data list option \<Rightarrow> raopcl \<Rightarrow> raopcl" where
  "jack_status kd c =
     (case (case kd_lookup kd ''Audio-Jack-Status'' of
              Some aj \<Rightarrow> Some aj | None \<Rightarrow> kd_lookup kd ''Apple-Jack-Status'') of
        None \<Rightarrow> c\<lparr>ajstatus := JACK_STATUS_CONNECTED, ajtype := JACK_TYPE_DIGITAL\<rparr>
      | Some aj \<Rightarrow> fold scan_jack (tokens CHR '';'' aj) c)"

text \<open>What \<open>raopcl_connect\<close> holds: the client, the table of the SETUP response, and the texts that are freed
  at the end.  Each step leaves for the end on a result other than zero.\<close>

type_synonym connecting = "raopcl \<times> key_data list option \<times> string list"

definition then_ok ::
  "('w, (int \<times> 'c) option) state \<Rightarrow> ('c \<Rightarrow> ('w, (int \<times> 'c) option) state) \<Rightarrow>
   ('w, (int \<times> 'c) option) state" where
  "then_ok m k = do {
     r \<leftarrow> m;
     case r of
       None \<Rightarrow> State_Monad.return None
     | Some (v, x) \<Rightarrow> if v \<noteq> 0 then State_Monad.return (Some (-1, x)) else k x
   }"

definition rtsp_step ::
  "(rtspcl option \<Rightarrow> ('a os_scheme, (int \<times> rtspcl option) option) state) \<Rightarrow> connecting \<Rightarrow>
   ('a os_scheme, (int \<times> connecting) option) state" where
  "rtsp_step f x = (case x of (c, kd, texts) \<Rightarrow> do {
     r \<leftarrow> on_rtsp c f;
     State_Monad.return (map_option (\<lambda>(v, c). (v, c, kd, texts)) r)
   })"

text \<open>A text in base64 without its padding; \<open>None\<close> when there was no memory for it.\<close>

definition base64_text :: "nat \<Rightarrow> bytes \<Rightarrow> ('a os_scheme, string option) state" where
  "base64_text n bs = do {
     m \<leftarrow> sys (Malloc_call n);
     State_Monad.return (snd (base64_encode (m \<noteq> 0) bs))
   }"

definition unpad :: "string \<Rightarrow> string" where
  "unpad s = cstr (snd (remove_char_from_string (s @ [NUL]) CHR ''=''))"

definition connect_open ::
  "bytes \<Rightarrow> string \<Rightarrow> u16 \<Rightarrow> raopcl \<Rightarrow> string list \<Rightarrow>
   ('a os_scheme, (int \<times> connecting) option) state" where
  "connect_open buf host destport c texts = do {
     h \<leftarrow> rtspcl_open (udp c);
     case h of
       None \<Rightarrow> State_Monad.return None
     | Some h \<Rightarrow>
         then_ok (State_Monad.return (Some (0, c\<lparr>rtsp := Some h\<rparr>, None, texts)))
         (\<lambda>x. then_ok (rtsp_step (\<lambda>p. State_Monad.return
            (Some (rtspcl_set_useragent p ''iTunes/7.6.2 (Windows; N;)''))) x)
         (\<lambda>x. then_ok (rtsp_step (\<lambda>p. rtspcl_add_exthds p ''Client-Instance'' (sci_text buf)) x)
         (\<lambda>x. then_ok (rtsp_step (\<lambda>p. rtspcl_connect p host destport (sid_text (udp c) buf)) x)
         (\<lambda>x. if udp c then rtsp_step rtspcl_options x else State_Monad.return (Some (0, x))))))
   }"

text \<open>The key and the vector go into the description; a missing text is dereferenced.\<close>

definition connect_announce ::
  "rsa_fun \<Rightarrow> bytes \<Rightarrow> string \<Rightarrow> connecting \<Rightarrow> ('a os_scheme, (int \<times> connecting) option) state" where
  "connect_announce rsa buf host x = (case x of (c, kd, texts) \<Rightarrow> do {
     let (i, rsakey) = rsa_encrypt rsa (aes_key c);
     key \<leftarrow> base64_text (nat (i * 4 sdiv 3 + 4)) rsakey;
     v \<leftarrow> base64_text (base64_encode_alloc 16) (iv c);
     case (texts, key, v) of
       (sac # _, Some key, Some v) \<Rightarrow>
         let sdp = sdp_text (sid_text (udp c) buf) (text_of (rtspcl_local_ip (rtsp c))) host
                     (unpad key) (unpad v);
             x = (c, kd, [sac, key, v])
         in if length sdp \<ge> 1024 then State_Monad.return None
            else then_ok (rtsp_step (\<lambda>p. rtspcl_add_exthds p ''Apple-Challenge'' (unpad sac)) x)
              (\<lambda>x. then_ok (rtsp_step (\<lambda>p. rtspcl_annouce_sdp p sdp) x)
              (\<lambda>x. rtsp_step (\<lambda>p. State_Monad.return
                 (rtspcl_mark_del_exthds p ''Apple-Challenge'')) x))
     | _ \<Rightarrow> State_Monad.return None
   })"

definition connect_setup ::
  "connecting \<Rightarrow> ('a os_scheme, (int \<times> connecting) option) state" where
  "connect_setup x = (case x of (c, kd, texts) \<Rightarrow> do {
     r \<leftarrow> rtspcl_setup (rtsp c) kd;
     State_Monad.return (map_option (\<lambda>(v, p, kd). (v, c\<lparr>rtsp := p\<rparr>, kd, texts)) r)
   })"

definition connect_stream ::
  "string \<Rightarrow> u16 \<Rightarrow> connecting \<Rightarrow> ('a os_scheme, (int \<times> connecting) option) state" where
  "connect_stream host destport x = (case x of (c, kd, texts) \<Rightarrow> do {
     let c = jack_status kd c;
     (r, q) \<leftarrow> realloc_memory 0 (int (length host + 1));
     if r \<noteq> 0 then State_Monad.return (Some (-1, c\<lparr>target_addr := None\<rparr>, kd, texts))
     else do {
       (r, c) \<leftarrow> raopcl_stream_connect (c\<lparr>target_addr := Some host, rtsp_port := destport\<rparr>);
       if r \<noteq> 0 then State_Monad.return (Some (-1, c, kd, texts))
       else rtsp_step rtspcl_record (c, kd, texts)
     }
   })"

fun free_texts :: "string list \<Rightarrow> ('a os_scheme, unit) state" where
  "free_texts [] = State_Monad.return ()"
| "free_texts (t # ts) = do { emit (Free_text_call t); free_texts ts }"

definition kill_session :: "rtspcl \<Rightarrow> rtspcl" where
  "kill_session r = r\<lparr>session_live := False\<rparr>"

text \<open>The table the session's name points into is freed at the end, whatever the outcome.\<close>

definition connect_end ::
  "(int \<times> connecting) option \<Rightarrow> ('a os_scheme, (int \<times> raopcl option) option) state" where
  "connect_end r = (case r of
       None \<Rightarrow> State_Monad.return None
     | Some (v, c, kd, texts) \<Rightarrow> do {
         free_texts texts;
         (case kd of None \<Rightarrow> State_Monad.return ()
          | Some es \<Rightarrow> emit (Free_kd_call (length (free_kd kd))));
         State_Monad.return (Some (if v = 0 then 0 else -1, Some (c\<lparr>rtsp := map_option kill_session (rtsp c)\<rparr>)))
       })"

definition connect_begin :: "raopcl \<Rightarrow> bool \<Rightarrow> bool \<Rightarrow> ('a os_scheme, raopcl) state" where
  "connect_begin c enc u =
     (if u then do {
        a \<leftarrow> sys (Rand_call 0);
        b \<leftarrow> sys (Rand_call 0);
        State_Monad.return (c\<lparr>udp := u,
          ssrc := (push_bit 16 (of_int a) + of_int b) mod 4294967295, timestamp := 0, encrypted := enc\<rparr>)
      } else State_Monad.return (c\<lparr>udp := u\<rparr>))"

definition raopcl_connect ::
  "rsa_fun \<Rightarrow> raopcl option \<Rightarrow> string \<Rightarrow> u16 \<Rightarrow> bool \<Rightarrow> bool \<Rightarrow>
   ('a os_scheme, (int \<times> raopcl option) option) state" where
  "raopcl_connect rsa p host destport enc u = (case p of
       None \<Rightarrow> State_Monad.return (Some (-1, None))
     | Some c \<Rightarrow> do {
         (r, buf) \<leftarrow> rand_bytes 28;
         c \<leftarrow> connect_begin c enc u;
         sac \<leftarrow> base64_text (base64_encode_alloc 16) (drop 12 buf);
         r \<leftarrow> then_ok (connect_open buf host destport c (case sac of None \<Rightarrow> [] | Some t \<Rightarrow> [t]))
               (\<lambda>x. then_ok (connect_announce rsa buf host x)
               (\<lambda>x. then_ok (connect_setup x)
               (connect_stream host destport)));
         connect_end r
       })"

text \<open>The context of a 128-bit key, and the two routines in place.\<close>

definition session_context :: "bytes \<Rightarrow> aes_context" where
  "session_context key =
     snd (snd (aes_set_key (replicate 256 0) (replicate 256 0) start_globals blank_context key 128))"

text \<open>The stream socket becomes writable a number of times.\<close>

fun write_calls :: "nat \<Rightarrow> raopcl \<Rightarrow> ('a raop_host_scheme, int \<times> raopcl) state" where
  "write_calls 0 c = State_Monad.return (0, c)"
| "write_calls (Suc n) c = do {
     (r, p) \<leftarrow> fd_event_callback (Some c) RAOP_FD_WRITE;
     case p of
       None \<Rightarrow> State_Monad.return (-1, c)
     | Some c \<Rightarrow> if r \<noteq> 0 then State_Monad.return (r, c) else write_calls n c
   }"

text \<open>What the other side got, from the writes and the counts the system returned for them.\<close>

definition accepted :: "int list \<Rightarrow> string list \<Rightarrow> string" where
  "accepted ns bss = concat (map2 (\<lambda>n bs. take (nat n) bs) ns bss)"

text \<open>A host with given answers, inputs and descriptors, before the first packet.\<close>

definition idle_raop :: "int list \<Rightarrow> bytes option list \<Rightarrow> fdev list \<Rightarrow> raop_host" where
  "idle_raop as ins es = host.extend (idle_host as ins es)
     \<lparr>seq_number = 0, first_packet = True, totalcount = 0, crypto = start_globals, stack_line = []\<rparr>"

text \<open>The packets queued for a list of chunks, as long as every one is accepted.\<close>

fun send_all :: "bytes list \<Rightarrow> raopcl \<Rightarrow> ('a raop_host_scheme, bytes list option) state" where
  "send_all [] c = State_Monad.return (Some [])"
| "send_all (s # ss) c = do {
     (r, p) \<leftarrow> raopcl_send_sample (Some c) s;
     case p of
       None \<Rightarrow> State_Monad.return None
     | Some c \<Rightarrow>
         if r \<noteq> 0 then State_Monad.return None
         else do {
           ps \<leftarrow> send_all ss c;
           State_Monad.return (case (out_data c, ps) of (Some d, Some ps) \<Rightarrow> Some (d # ps) | _ \<Rightarrow> None)
         }
   }"

text \<open>A tagged value: four letters, the length in four bytes, the value.\<close>

definition tagged :: "string \<Rightarrow> bytes \<Rightarrow> bytes" where
  "tagged tag val = map ord8 tag @ be32 (of_nat (length val)) @ val"

definition text_value :: "string \<Rightarrow> bytes" where
  "text_value s = map ord8 s @ [0]"

definition content_message :: "string \<Rightarrow> string \<Rightarrow> string \<Rightarrow> bytes" where
  "content_message itemname songartist songalbum =
     tagged ''mlit'' (tagged ''minm'' (text_value itemname) @ tagged ''asar'' (text_value songartist) @
       tagged ''asal'' (text_value songalbum))"

text \<open>Pieces one behind the other, each after a gap of zeros.\<close>

fun placed :: "nat \<Rightarrow> (nat \<times> bytes) list \<Rightarrow> (nat \<times> bytes) list" where
  "placed off [] = []"
| "placed off ((z, bs) # ps) = (off + z, bs) # placed (off + z + length bs) ps"

definition gapped :: "(nat \<times> bytes) list \<Rightarrow> bytes" where
  "gapped ps = concat (map (\<lambda>(z, bs). replicate z 0 @ bs) ps)"

subsection \<open>Chaining\<close>

text \<open>Cipher block chaining over whole blocks, with the rest left as it is, and its inverse.\<close>

function cbc_encrypt :: "(bytes \<Rightarrow> bytes) \<Rightarrow> bytes \<Rightarrow> bytes \<Rightarrow> bytes" where
  "cbc_encrypt enc v data =
     (if length data < 16 then data
      else let b = enc (map2 (XOR) (take 16 data) v) in b @ cbc_encrypt enc b (drop 16 data))"
  by pat_completeness auto

termination
  by (relation "measure (\<lambda>(enc, v, data). length data)") auto

function cbc_decrypt :: "(bytes \<Rightarrow> bytes) \<Rightarrow> bytes \<Rightarrow> bytes \<Rightarrow> bytes" where
  "cbc_decrypt dec v data =
     (if length data < 16 then data
      else map2 (XOR) (dec (take 16 data)) v @ cbc_decrypt dec (take 16 data) (drop 16 data))"
  by pat_completeness auto

termination
  by (relation "measure (\<lambda>(dec, v, data). length data)") auto

declare cbc_encrypt.simps [simp del] cbc_decrypt.simps [simp del] encrypt_loop.simps [simp del]

lemma xor_twice: "length xs = length ys \<Longrightarrow> map2 (XOR) (map2 (XOR) xs ys) ys = (xs :: bytes)"
  by (induction xs ys rule: list_induct2) (simp_all add: xor.assoc)

locale block_cipher =
  fixes enc dec :: "bytes \<Rightarrow> bytes"
  assumes enc_length: "length b = 16 \<Longrightarrow> length (enc b) = 16"
    and dec_enc: "length b = 16 \<Longrightarrow> dec (enc b) = b"
begin

lemma cbc_roundtrip:
  "length v = 16 \<Longrightarrow> cbc_decrypt dec v (cbc_encrypt enc v data) = data"
proof (induction "length data" arbitrary: v data rule: less_induct)
  case less
  show ?case
  proof (cases "length data < 16")
    case True
    then show ?thesis by (simp add: cbc_encrypt.simps [of enc] cbc_decrypt.simps [of dec])
  next
    case False
    let ?x = "map2 (XOR) (take 16 data) v" and ?r = "drop 16 data"
    have x: "length ?x = 16" "length (enc ?x) = 16" using False less.prems by (simp_all add: enc_length)
    have e: "cbc_encrypt enc v data = enc ?x @ cbc_encrypt enc (enc ?x) ?r"
      using False by (subst cbc_encrypt.simps) (simp add: Let_def)
    have "cbc_decrypt dec v (enc ?x @ cbc_encrypt enc (enc ?x) ?r) =
        map2 (XOR) (dec (enc ?x)) v @ cbc_decrypt dec (enc ?x) (cbc_encrypt enc (enc ?x) ?r)"
      using x by (subst cbc_decrypt.simps) simp
    also have "\<dots> = take 16 data @ ?r"
      using less.hyps [of ?r "enc ?x"] False x less.prems by (simp add: dec_enc xor_twice)
    finally show ?thesis by (simp add: e)
  qed
qed

lemma cbc_encrypt_length: "length v = 16 \<Longrightarrow> length (cbc_encrypt enc v data) = length data"
proof (induction "length data" arbitrary: v data rule: less_induct)
  case less
  show ?case
    using less.hyps [of "drop 16 data" "enc (map2 (XOR) (take 16 data) v)"] less.prems
    by (subst cbc_encrypt.simps) (simp add: Let_def enc_length)
qed

lemma cbc_encrypt_rest:
  "length v = 16 \<Longrightarrow> drop (16 * (length data div 16)) (cbc_encrypt enc v data) =
    drop (16 * (length data div 16)) data"
proof (induction "length data" arbitrary: v data rule: less_induct)
  case less
  show ?case
  proof (cases "length data < 16")
    case True
    then show ?thesis by (simp add: cbc_encrypt.simps [of enc])
  next
    case False
    let ?b = "enc (map2 (XOR) (take 16 data) v)" and ?n = "length (drop 16 data) div 16"
    have b: "length ?b = 16" using False less.prems by (simp add: enc_length)
    have n: "16 * (length data div 16) = 16 + 16 * ?n"
      using False by (simp add: le_div_geq not_less)
    have "drop (16 + 16 * ?n) (cbc_encrypt enc v data) = drop (16 * ?n) (cbc_encrypt enc ?b (drop 16 data))"
      using False b by (subst cbc_encrypt.simps) (simp add: Let_def)
    also have "\<dots> = drop (16 * ?n) (drop 16 data)" using less.hyps [of "drop 16 data" ?b] False b by simp
    finally show ?thesis unfolding n by (simp add: add.commute)
  qed
qed

end

lemma encrypt_loop_cbc:
  assumes "\<forall>b. length b = 16 \<longrightarrow> length (aes_encrypt t cx b b) = 16"
  shows "length data = sz \<Longrightarrow> i \<le> sz \<Longrightarrow> length v = 16 \<Longrightarrow>
    encrypt_loop t cx sz i v data = (i', v', data') \<Longrightarrow>
    data' = take i data @ cbc_encrypt (\<lambda>b. aes_encrypt t cx b b) v (drop i data) \<and>
    i' = i + 16 * ((sz - i) div 16)"
proof (induction "sz - i" arbitrary: i v data rule: less_induct)
  case less
  show ?case
  proof (cases "i + 16 \<le> sz")
    case True
    let ?b = "map2 (XOR) (take 16 (drop i data)) v"
    let ?e = "aes_encrypt t cx ?b ?b"
    let ?d = "take i data @ ?e @ drop (i + 16) data"
    have b: "length ?e = 16" using assms True less.prems by simp
    have "encrypt_loop t cx sz (i + 16) ?e ?d = (i', v', data')"
      using less.prems(4) True by (subst (asm) encrypt_loop.simps) (simp add: Let_def)
    then have r: "data' = take (i + 16) ?d @ cbc_encrypt (\<lambda>b. aes_encrypt t cx b b) ?e (drop (i + 16) ?d)"
        "i' = i + 16 + 16 * ((sz - (i + 16)) div 16)"
      using less.hyps [of "i + 16" ?d ?e] True b less.prems by auto
    have "take (i + 16) ?d = take i data @ ?e" "drop (i + 16) ?d = drop 16 (drop i data)"
      using True b less.prems by (simp_all add: add.commute)
    moreover have "cbc_encrypt (\<lambda>b. aes_encrypt t cx b b) v (drop i data) =
        ?e @ cbc_encrypt (\<lambda>b. aes_encrypt t cx b b) ?e (drop 16 (drop i data))"
    proof -
      have "\<not> length (drop i data) < 16" using True less.prems by simp
      then show ?thesis by (subst cbc_encrypt.simps) (simp only: Let_def if_False)
    qed
    moreover have "16 + 16 * ((sz - (i + 16)) div 16) = 16 * ((sz - i) div 16)"
      using True by (simp add: le_div_geq)
    ultimately show ?thesis using r by simp
  next
    case False
    then have "length (drop i data) < 16" using less.prems by simp
    then have "cbc_encrypt (\<lambda>b. aes_encrypt t cx b b) v (drop i data) = drop i data"
      by (subst cbc_encrypt.simps) (simp only: if_True)
    then show ?thesis
      using less.prems False by (simp add: encrypt_loop.simps [of t cx sz i])
  qed
qed

lemma context_cipher:
  assumes "context_for key 4 cx"
  shows "block_cipher (\<lambda>b. aes_encrypt aes_fixed_tables cx b b) (\<lambda>b. aes_decrypt aes_fixed_tables cx b b)"
proof
  fix b :: bytes
  assume b: "length b = 16"
  note e = encrypt_context [OF assms _ b b, simplified]
  show l: "length (aes_encrypt aes_fixed_tables cx b b) = 16" unfolding e using b by (simp add: Cipher_length)
  show "aes_decrypt aes_fixed_tables cx (aes_encrypt aes_fixed_tables cx b b) (aes_encrypt aes_fixed_tables cx b b) = b"
    using decrypt_context [OF assms _ l l, simplified] b unfolding e by (simp add: InvCipher_Cipher)
qed

lemma session_context_ok: "context_for key 4 (session_context key)"
proof -
  obtain ret g' ctx' where c: "aes_set_key (replicate 256 0) (replicate 256 0) start_globals blank_context key 128 =
      (ret, g', ctx')" by (metis prod_cases3)
  from aes_set_key_ok [OF start_globals_ok _ _ _ _ _ c] c show ?thesis
    by (simp add: session_context_def blank_context_def key_len_def)
qed

interpretation aes128: block_cipher
  "\<lambda>b. aes_encrypt aes_fixed_tables (session_context key) b b"
  "\<lambda>b. aes_decrypt aes_fixed_tables (session_context key) b b" for key
  by (rule context_cipher) (rule session_context_ok)

lemma encrypt_cbc:
  assumes "context_for key 4 (ctx c)" and "length (iv c) = 16" and "encrypt aes_fixed_tables c data = (i, c', data')"
  shows "data' = cbc_encrypt (\<lambda>b. aes_encrypt aes_fixed_tables (ctx c) b b) (iv c) data"
    and "i = 16 * (length data div 16)" and "\<exists>v. c' = c\<lparr>nv := v\<rparr>"
proof -
  obtain v where l: "encrypt_loop aes_fixed_tables (ctx c) (length data) 0 (iv c) data = (i, v, data')"
      and v: "c' = c\<lparr>nv := v\<rparr>"
    using assms(3) by (auto simp: encrypt_def split: prod.splits)
  have "\<forall>b. length b = 16 \<longrightarrow> length (aes_encrypt aes_fixed_tables (ctx c) b b) = 16"
    using block_cipher.enc_length [OF context_cipher [OF assms(1)]] by blast
  from encrypt_loop_cbc [OF this _ _ assms(2) l] v
  show "data' = cbc_encrypt (\<lambda>b. aes_encrypt aes_fixed_tables (ctx c) b b) (iv c) data"
    "i = 16 * (length data div 16)" "\<exists>v. c' = c\<lparr>nv := v\<rparr>" by auto
qed

text \<open>C1. Encrypting a chunk of samples is undone by cipher block decryption with the same key and vector,
  and the bytes beyond the last whole block go out in the clear, as the returned count says.\<close>

theorem encrypt_undone:
  assumes "encrypt aes_fixed_tables c data = (i, c', data')" and "ctx c = session_context key"
    and "length (iv c) = 16"
  shows "cbc_decrypt (\<lambda>b. aes_decrypt aes_fixed_tables (ctx c) b b) (iv c) data' = data \<and>
    length data' = length data \<and> i = length data - length data mod 16 \<and> drop i data' = drop i data"
proof -
  note e = encrypt_cbc [OF _ assms(3,1), of key, unfolded assms(2), OF session_context_ok]
  show ?thesis
    unfolding assms(2) e(1,2) using assms(3)
    by (simp add: aes128.cbc_roundtrip aes128.cbc_encrypt_length aes128.cbc_encrypt_rest
        minus_mod_eq_mult_div)
qed

theorem encrypt_undone_witness:
  "\<exists>i c' data'. encrypt aes_fixed_tables (zero_raopcl\<lparr>ctx := session_context (replicate 16 7)\<rparr>) (replicate 40 1) =
     (i, c', data') \<and> i = 32 \<and> drop 32 data' = replicate 8 1"
proof -
  let ?c = "zero_raopcl\<lparr>ctx := session_context (replicate 16 7)\<rparr>"
  obtain i c' data' where c: "encrypt aes_fixed_tables ?c (replicate 40 1) = (i, c', data')" by (metis prod_cases3)
  from encrypt_undone [OF c, of "replicate 16 7"] have "i = 32" "drop i data' = drop i (replicate 40 1)"
    by (auto simp: zero_raopcl_def)
  then show ?thesis using c by simp
qed

subsection \<open>Network time\<close>

declare bit_length.simps [simp del]

lemma bit_length_le: "n < 2 ^ k \<Longrightarrow> bit_length n \<le> k"
proof (induction n arbitrary: k rule: bit_length.induct)
  case (1 n)
  show ?case
  proof (cases k)
    case (Suc j)
    then have "n div 2 < 2 ^ j" using 1(2) by auto
    then show ?thesis using 1(1) Suc by (subst bit_length.simps) auto
  qed (use 1(2) in \<open>simp add: bit_length.simps\<close>)
qed

text \<open>Rounding a number below \<open>2\<^sup>5\<^sup>3\<^sup>+\<^sup>m\<close> is off by at most half of \<open>2\<^sup>m\<close> and does not fall below a multiple
  of \<open>2\<^sup>m\<close>.\<close>

lemma round53_bounds:
  assumes "n < 2 ^ (53 + m)"
  shows "2 * round53 n \<le> 2 * n + 2 ^ m" and "2 * n \<le> 2 * round53 n + 2 ^ m" and "2 ^ m dvd k \<Longrightarrow> k \<le> n \<Longrightarrow> k \<le> round53 n"
proof -
  define s where "s = bit_length n - 53"
  have sm: "s \<le> m" using bit_length_le [OF assms] by (simp add: s_def)
  then have pm: "(2::nat) ^ s \<le> 2 ^ m" by simp
  define q r where "q = n div 2 ^ s" and "r = n mod 2 ^ s"
  have n: "n = q * 2 ^ s + r" unfolding q_def r_def by (rule div_mult_mod_eq [symmetric])
  have r: "r < 2 ^ s" by (simp add: r_def)
  have e: "round53 n = (if 2 ^ s < 2 * r \<or> 2 * r = 2 ^ s \<and> odd q then q + 1 else q) * 2 ^ s"
    by (simp add: round53_def Let_def s_def q_def r_def)
  have up: "(q + 1) * 2 ^ s = q * 2 ^ s + 2 ^ s" by simp
  have "2 * round53 n \<le> 2 * n + 2 ^ m \<and> 2 * n \<le> 2 * round53 n + 2 ^ m"
  proof (cases "2 ^ s < 2 * r \<or> 2 * r = 2 ^ s \<and> odd q")
    case True
    then have "round53 n = q * 2 ^ s + 2 ^ s" "2 ^ s \<le> 2 * r" using e up by auto
    then show ?thesis using n r pm by linarith
  next
    case False
    then have "round53 n = q * 2 ^ s" "2 * r \<le> 2 ^ s" using e by auto
    then show ?thesis using n r pm by linarith
  qed
  then show "2 * round53 n \<le> 2 * n + 2 ^ m" "2 * n \<le> 2 * round53 n + 2 ^ m" by auto
  assume "2 ^ m dvd k" "k \<le> n"
  then obtain j where "k = 2 ^ m * j" by (elim dvdE)
  then have k: "k = j * 2 ^ (m - s) * 2 ^ s" using sm by (simp flip: power_add mult.assoc)
  have "j * 2 ^ (m - s) \<le> q"
    using \<open>k \<le> n\<close> k by (simp add: q_def less_eq_div_iff_mult_less_eq)
  then have "k \<le> q * 2 ^ s" unfolding k by (rule mult_le_mono1)
  then show "k \<le> round53 n" unfolding e by auto
qed

lemma ntp_seconds: "unat (push_bit 32 (scast sec + 2208988800 :: u64)) = 2 ^ 32 * unat (sec + 2208988800 :: u32)"
proof -
  have *: "unat (push_bit 32 x) = 2 ^ 32 * unat (ucast x :: u32)" for x :: u64
    using mod_mult_mult1 [of "2 ^ 32" "unat x" "2 ^ 32"]
    by (subst unsigned_push_bit_eq) (simp add: unsigned_ucast_eq push_bit_eq_mult take_bit_eq_mod mult.commute)
  have "scast sec + 2208988800 = (word_of_int (sint sec + 2208988800) :: u64)"
    by (simp only: scast_eq of_int_add of_int_numeral)
  moreover have "(ucast (word_of_int k :: u64) :: u32) = word_of_int k" for k
    by (rule bit_word_eqI) (auto simp: bit_simps)
  ultimately have "(ucast (scast sec + 2208988800 :: u64) :: u32) = word_of_int (sint sec + 2208988800)"
    by (simp only:)
  then show ?thesis by (simp add: *)
qed

lemma fraction_close:
  assumes "F = v * NTP_SCALE" and "v < 1000000"
    and "2 * D \<le> 2 * F + (2 ^ 19 + 2 ^ 51)" and "2 * F \<le> 2 * D + (2 ^ 19 + 2 ^ 51)"
  shows "\<bar>1000000 * int (D div 2 ^ 40) - int v * 2 ^ 32\<bar> \<le> 1000000 * 1026"
proof -
  define x u m where "x = int (D div 2 ^ 40)" and "u = int v" and "m = D mod 2 ^ 40"
  have "D = 2 ^ 40 * (D div 2 ^ 40) + m" unfolding m_def by (rule mult_div_mod_eq [symmetric])
  from arg_cong [OF this, of int] have x: "int D = 1099511627776 * x + int m" by (simp add: x_def)
  have m: "m < 1099511627776" by (simp add: m_def)
  have u: "u < 1000000" "0 \<le> u" using assms(2) unfolding u_def by linarith+
  have F: "int F = u * 4722366482869645" by (simp add: assms(1) u_def NTP_SCALE_def)
  have "2 * int D \<le> 2 * int F + 2251799814209536" "2 * int F \<le> 2 * int D + 2251799814209536"
    using assms(3,4) by simp_all
  then have "1000000 * x - u * 4294967296 \<le> 1026000000" "- (1000000 * x - u * 4294967296) \<le> 1026000000"
    using x m F u by linarith+
  then have "\<bar>1000000 * x - u * 4294967296\<bar> \<le> 1026000000" by (rule abs_leI)
  then show ?thesis unfolding x_def u_def by simp
qed

text \<open>C26. The network time sent to the speaker has the right seconds, the Unix time shifted to 1900 and taken
  modulo \<open>2\<^sup>3\<^sup>2\<close>, and a fraction of a second that is off by at most 1026 of \<open>2\<^sup>3\<^sup>2\<close> parts, a quarter of
  a microsecond, although it is computed in floating point.\<close>

theorem timestamp_accurate:
  assumes "unat usec < 1000000"
  shows "drop_bit 32 (calculate_timestamp (sec, usec)) = ucast (sec + 2208988800) \<and>
    \<bar>1000000 * (uint (calculate_timestamp (sec, usec)) mod 2 ^ 32) - uint usec * 2 ^ 32\<bar> \<le> 1000000 * 1026"
proof -
  define h F f N R where d: "h = unat (sec + 2208988800 :: u32)" "F = unat usec * NTP_SCALE" "f = round53 F"
    "N = h * 2 ^ 72 + f" "R = round53 N"
  have h: "h < 2 ^ 32" using unsigned_less [of "sec + 2208988800 :: u32"] by (simp add: d(1))
  have "F \<le> 999999 * NTP_SCALE" unfolding d(2) using assms by (intro mult_le_mono1) simp
  then have F: "F \<le> 999999 * 4722366482869645" by (simp add: NTP_SCALE_def)
  then have "F < 2 ^ (53 + 19)" by simp
  note f = round53_bounds(1,2) [OF this, folded d(3)]
  have "N < 2 ^ (53 + 51)" using h f F by (simp add: d(4))
  note R = round53_bounds [OF this, folded d(5)]
  have lo: "h * 2 ^ 72 \<le> R" by (rule R(3)) (simp_all add: d(4) dvd_mult le_imp_power_dvd)
  have hi: "R < h * 2 ^ 72 + 2 ^ 72" using R(1) f(1) F by (simp add: d(4))
  let ?r = "calculate_timestamp (sec, usec)"
  have "2 ^ 32 * h * 2 ^ 40 + f = N" by (simp add: d(4))
  then have "?r = of_nat (R div 2 ^ 40)"
    by (simp add: calculate_timestamp_def ntp_seconds Let_def flip: d)
  moreover have "R div 2 ^ 40 < 2 ^ 64" using hi h by (simp add: div_less_iff_less_mult)
  ultimately have r: "unat ?r = R div 2 ^ 40" by (simp add: unsigned_of_nat take_bit_nat_eq_self)
  obtain D where D: "R = h * 2 ^ 72 + D" "D < 2 ^ 72" using lo hi by (metis le_Suc_ex nat_add_left_cancel_less)
  have q: "R div 2 ^ 40 = h * 2 ^ 32 + D div 2 ^ 40" "D div 2 ^ 40 < 2 ^ 32"
    using D by (simp_all add: div_less_iff_less_mult)
  have "unat (drop_bit 32 ?r) = unat ?r div 2 ^ 32" by (simp add: drop_bit_eq_div unat_div)
  also have "\<dots> = h" using q by (simp add: r)
  finally have "drop_bit 32 ?r = ucast (sec + 2208988800 :: u32)"
    using h by (simp add: d(1) word_unat_eq_iff unsigned_ucast_eq take_bit_nat_eq_self del: unsigned_drop_bit_eq)
  moreover have "uint ?r mod 2 ^ 32 = int (D div 2 ^ 40)"
  proof -
    have "uint ?r mod 2 ^ 32 = int (unat ?r mod 2 ^ 32)" by (simp add: of_nat_mod)
    also have "unat ?r mod 2 ^ 32 = D div 2 ^ 40" using q by (simp add: r)
    finally show ?thesis .
  qed
  moreover have "\<bar>1000000 * int (D div 2 ^ 40) - int (unat usec) * 2 ^ 32\<bar> \<le> 1000000 * 1026"
    by (rule fraction_close [OF d(2) assms]) (use R(1,2) f D(1) d(4) in linarith)+
  ultimately show ?thesis by simp
qed

theorem timestamp_accurate_witness:
  "drop_bit 32 (calculate_timestamp (1700000000, 500000)) = 3908988800 \<and>
    \<bar>1000000 * (uint (calculate_timestamp (1700000000, 500000)) mod 2 ^ 32) - 500000 * 2 ^ 32\<bar> \<le> 1026000000"
  using timestamp_accurate [of 500000 1700000000] by simp

subsection \<open>Delivering a packet\<close>

lemma idle_raop_simps [simp]:
  "answers (idle_raop as ins es) = as" "inputs (idle_raop as ins es) = ins" "trace (idle_raop as ins es) = []"
  "fds (idle_raop as ins es) = es" "seq_number (idle_raop as ins es) = 0" "first_packet (idle_raop as ins es)"
  "totalcount (idle_raop as ins es) = 0" "crypto (idle_raop as ins es) = start_globals"
  "clock (idle_raop as ins es) = []"
  by (simp_all add: idle_raop_def idle_host_def quiet_os_def os.defs host.defs)

lemma fd_write_step:
  assumes "out_data c = Some d" and "0 \<le> wblk_wsize c" and "wblk_wsize c + wblk_remsize c = int (length d)"
    and "answers w = n # ns" and "0 < n" and "n \<le> wblk_remsize c"
  obtains w' where "run_state (fd_event_callback (Some c) RAOP_FD_WRITE) w =
      ((0, Some (c\<lparr>wblk_wsize := wblk_wsize c + n, wblk_remsize := wblk_remsize c - n\<rparr>)), w')"
    and "answers w' = ns" and "sent (trace w') = sent (trace w) @ [map chr8 (drop (nat (wblk_wsize c)) d)]"
    and "n = wblk_remsize c \<Longrightarrow> fds w' = snd (set_slot (stream_fd c) RAOP_FD_READ Fd_event_callback (fds w))"
    and "n \<noteq> wblk_remsize c \<Longrightarrow> fds w' = fds w"
proof -
  let ?bs = "drop (nat (wblk_wsize c)) d"
  let ?w = "w\<lparr>answers := ns, trace := trace w @ [Write_call (stream_fd c) ?bs]\<rparr>"
  have t: "take (nat (wblk_remsize c)) ?bs = ?bs" using assms(2,3) by simp
  have r: "wblk_remsize c \<noteq> 0" using assms(5,6) by simp
  show thesis
  proof (cases "n = wblk_remsize c")
    case True
    show thesis
      by (rule that [of "?w\<lparr>fds := snd (set_slot (stream_fd c) RAOP_FD_READ Fd_event_callback (fds w))\<rparr>"])
        (use assms True r t in \<open>simp_all add: fd_event_callback_def RAOP_FD_READ_def RAOP_FD_WRITE_def sys_def
          set_fd_event_def Let_def case_prod_beta\<close>)
  next
    case False
    show thesis
      by (rule that [of ?w]) (use assms False r t in \<open>simp_all add: fd_event_callback_def RAOP_FD_READ_def
          RAOP_FD_WRITE_def sys_def\<close>)
  qed
qed

lemma write_calls_deliver:
  assumes "out_data c = Some d" and "0 \<le> wblk_wsize c" and "wblk_wsize c + wblk_remsize c = int (length d)"
    and "answers w = ns @ rest" and "\<forall>n \<in> set ns. 0 < n" and "sum_list ns = wblk_remsize c"
  shows "\<exists>w' bss. run_state (write_calls (length ns) c) w =
      ((0, c\<lparr>wblk_wsize := int (length d), wblk_remsize := 0\<rparr>), w') \<and>
     sent (trace w') = sent (trace w) @ bss \<and> accepted ns bss = map chr8 (drop (nat (wblk_wsize c)) d) \<and>
     (ns \<noteq> [] \<longrightarrow> fds w' = snd (set_slot (stream_fd c) RAOP_FD_READ Fd_event_callback (fds w)))"
  using assms
proof (induction ns arbitrary: c w)
  case Nil
  then show ?case by (intro exI [of _ w] exI [of _ "[]"]) (simp add: accepted_def)
next
  case (Cons n ns)
  note prems = Cons.prems(5)
  have sum: "sum_list ns = wblk_remsize c - n" and n: "0 < n" using Cons.prems(5,6) by simp_all
  have pos: "0 \<le> sum_list ns" using Cons.prems(5) by (intro sum_list_nonneg) auto
  let ?c = "c\<lparr>wblk_wsize := wblk_wsize c + n, wblk_remsize := wblk_remsize c - n\<rparr>"
  let ?bs = "map chr8 (drop (nat (wblk_wsize c)) d)"
  from Cons.prems(1-4) n sum pos obtain w1 where w1:
    "run_state (fd_event_callback (Some c) RAOP_FD_WRITE) w = ((0, Some ?c), w1)" "answers w1 = ns @ rest"
    "sent (trace w1) = sent (trace w) @ [?bs]"
    "n = wblk_remsize c \<Longrightarrow> fds w1 = snd (set_slot (stream_fd c) RAOP_FD_READ Fd_event_callback (fds w))"
    "n \<noteq> wblk_remsize c \<Longrightarrow> fds w1 = fds w"
    using fd_write_step [of c d w n "ns @ rest"] by (metis append_Cons diff_ge_0_iff_ge)
  from Cons.IH [of ?c w1] obtain w' bss where IH:
    "run_state (write_calls (length ns) ?c) w1 = ((0, ?c\<lparr>wblk_wsize := int (length d), wblk_remsize := 0\<rparr>), w')"
    "sent (trace w') = sent (trace w1) @ bss" "accepted ns bss = map chr8 (drop (nat (wblk_wsize c + n)) d)"
    "ns \<noteq> [] \<longrightarrow> fds w' = snd (set_slot (stream_fd c) RAOP_FD_READ Fd_event_callback (fds w1))"
    using Cons.prems(1-3,5) w1(2) n sum by auto
  have "take (nat n) ?bs @ map chr8 (drop (nat (wblk_wsize c + n)) d) = ?bs"
    using Cons.prems(2) n by (simp add: nat_add_distrib take_map drop_map add.commute flip: map_append drop_drop)
  then have "accepted (n # ns) (?bs # bss) = ?bs" using IH(3) by (simp add: accepted_def)
  moreover have "ns = [] \<longleftrightarrow> n = wblk_remsize c"
  proof (cases ns)
    case (Cons a l)
    have "0 \<le> sum_list l" using prems Cons by (intro sum_list_nonneg) auto
    then show ?thesis using sum prems Cons by auto
  qed (use sum in simp)
  moreover have "run_state (write_calls (length (n # ns)) c) w =
      ((0, c\<lparr>wblk_wsize := int (length d), wblk_remsize := 0\<rparr>), w')"
    using w1(1) IH(1) by simp
  moreover have "ns = [] \<Longrightarrow> w' = w1" using IH(1) by simp
  ultimately show ?case
    using w1 IH(2,4) by (intro exI [of _ w'] exI [of _ "?bs # bss"]) auto
qed

text \<open>C11. A queued packet leaves whole and in order: however the system splits the writes, as long as each takes
  something and together they take the packet, the other side receives exactly the packet, nothing is left
  to write, and the socket is from then on watched for reading only.\<close>

theorem packet_delivered_whole:
  assumes "out_data c = Some d" and "wblk_wsize c = 0" and "wblk_remsize c = int (length d)" and "d \<noteq> []"
    and "answers w = ns @ rest" and "\<forall>n \<in> set ns. 0 < n" and "sum_list ns = int (length d)"
    and "slots_ok (fds w)" and "watched (fds w) (stream_fd c) \<noteq> None" and "0 \<le> stream_fd c"
  shows "\<exists>c' w' bss. run_state (write_calls (length ns) c) w = ((0, c'), w') \<and>
     sent (trace w') = sent (trace w) @ bss \<and> accepted ns bss = map chr8 d \<and> wblk_remsize c' = 0 \<and>
     watched (fds w') (stream_fd c) = Some (Fd_event_callback, RAOP_FD_READ)"
proof -
  have "ns \<noteq> []" using assms(4,7) by auto
  with write_calls_deliver [OF assms(1) _ _ assms(5,6)] assms(2,3,7)
  obtain w' bss where w': "run_state (write_calls (length ns) c) w =
        ((0, c\<lparr>wblk_wsize := int (length d), wblk_remsize := 0\<rparr>), w')"
      "sent (trace w') = sent (trace w) @ bss" "accepted ns bss = map chr8 d"
      "fds w' = snd (set_slot (stream_fd c) RAOP_FD_READ Fd_event_callback (fds w))"
    by auto
  obtain es where "set_slot (stream_fd c) RAOP_FD_READ Fd_event_callback (fds w) = (0, es)"
    using fdt.insert_known [OF assms(8,10,9)] by (metis prod.collapse)
  then have "watched (fds w') (stream_fd c) = Some (Fd_event_callback, RAOP_FD_READ)"
    using fdt.insert_same [OF assms(8,10)] w'(4) by simp
  then show ?thesis using w' by auto
qed

theorem packet_delivered_whole_witness:
  "\<exists>c' w' bss. run_state (write_calls 2 (zero_raopcl\<lparr>out_data := Some [65, 66, 67], wblk_remsize := 3, stream_fd := 5\<rparr>))
      (idle_raop [2, 1] [] [\<lparr>fd_num = 5, fd_cbf = Fd_event_callback, fd_flags = 3\<rparr>, free_slot, free_slot, free_slot]) =
      ((0, c'), w') \<and> sent (trace w') = bss \<and> accepted [2, 1] bss = ''ABC'' \<and> wblk_remsize c' = 0"
proof -
  let ?c = "zero_raopcl\<lparr>out_data := Some [65, 66, 67], wblk_remsize := 3, stream_fd := 5\<rparr>"
  let ?w = "idle_raop [2, 1] [] [\<lparr>fd_num = 5, fd_cbf = Fd_event_callback, fd_flags = 3\<rparr>, free_slot, free_slot, free_slot]"
  have "slots_ok (fds ?w)" "watched (fds ?w) 5 \<noteq> None"
    by (simp_all add: slots_ok_def MAX_NUM_OF_FDS_def free_slot_def watched_def)
  moreover have l: "length [2, 1 :: int] = 2" and "map chr8 [65, 66, 67] = ''ABC''" by simp code_simp
  moreover have "wblk_wsize ?c = 0" by (simp add: zero_raopcl_def)
  ultimately show ?thesis
    using packet_delivered_whole [of ?c "[65, 66, 67]" ?w "[2, 1]" "[]", unfolded l] by auto
qed

subsection \<open>Sequences of packets\<close>

lemma count_samples_run:
  "\<exists>w'. run_state (raopcl_count_samples n) w = (0, w') \<and> seq_number w' = seq_number w \<and>
     first_packet w' = first_packet w \<and> crypto w' = crypto w"
  by (simp add: raopcl_count_samples_def msleep_def Let_def)

lemma encrypt_frame:
  "\<exists>v. fst (snd (encrypt t c s)) = c\<lparr>nv := v\<rparr>"
  by (auto simp: encrypt_def split: prod.split)

lemma realloc_statics [simp]:
  fixes w :: "'a raop_host_scheme"
  shows "seq_number (snd (run_state (realloc_memory p n) w)) = seq_number w"
    and "first_packet (snd (run_state (realloc_memory p n) w)) = first_packet w"
  by (simp_all add: realloc_memory_def sys_def split: list.split)

lemma set_fd_statics [simp]:
  fixes w :: "'a raop_host_scheme"
  shows "seq_number (snd (run_state (set_fd_event f fl cb) w)) = seq_number w"
    and "first_packet (snd (run_state (set_fd_event f fl cb) w)) = first_packet w"
  by (simp_all add: set_fd_event_def split: prod.split)

lemma send_udp_packet:
  fixes w w' :: "'a raop_host_scheme"
  assumes "run_state (raopcl_send_sample (Some c) s) w = ((0, p), w')" and "udp c"
  obtains c' body where "p = Some c'"
    and "out_data c' = Some (rtp_header (first_packet w) (seq_number w) (timestamp c) (ssrc c) @ body)"
    and "\<not> encrypted c \<Longrightarrow> body = s" and "encrypted c' = encrypted c" and "udp c'" and "ssrc c' = ssrc c"
    and "timestamp c' = timestamp c + of_nat (length s)" and "seq_number w' = seq_number w + 1"
    and "\<not> first_packet w'"
proof -
  let ?t = "tabs (crypto w)" and ?c = "c\<lparr>timestamp := timestamp c + of_nat (length s)\<rparr>"
  obtain r q w1 where re: "run_state (realloc_memory 0 (int (length s + 12))) w = ((r, q), w1)" by (metis surj_pair)
  have st1: "seq_number w1 = seq_number w" "first_packet w1 = first_packet w"
    using realloc_statics [of 0 "int (length s + 12)" w] unfolding re by simp_all
  obtain i ce body where e: "(if encrypted c then encrypt ?t ?c s else (0, ?c, s)) = (i, ce, body)"
    by (metis prod_cases3)
  obtain v where "fst (snd (encrypt ?t ?c s)) = ?c\<lparr>nv := v\<rparr>" using encrypt_frame by blast
  then have ce: "stream_fd ce = stream_fd c" "encrypted ce = encrypted c" "udp ce = udp c" "ssrc ce = ssrc c"
      "timestamp ce = timestamp c + of_nat (length s)" "\<not> encrypted c \<Longrightarrow> body = s"
    using e by (auto split: if_splits)
  obtain r2 w2 where f: "run_state (set_fd_event (stream_fd c) READ_WRITE Fd_event_callback) w1 = (r2, w2)"
    by (metis surj_pair)
  have st2: "seq_number w2 = seq_number w" "first_packet w2 = first_packet w"
    using set_fd_statics [of "stream_fd c" READ_WRITE Fd_event_callback w1] st1 unfolding f by simp_all
  obtain w3 where cs: "run_state (raopcl_count_samples (int (length s)))
      (w2\<lparr>seq_number := seq_number w2 + 1, first_packet := False\<rparr>) = (0, w3)"
      "seq_number w3 = seq_number w2 + 1" "\<not> first_packet w3"
    using count_samples_run [of "int (length s)" "w2\<lparr>seq_number := seq_number w2 + 1, first_packet := False\<rparr>"] by auto
  let ?p = "ce\<lparr>out_data := Some (rtp_header (first_packet w) (seq_number w) (timestamp c) (ssrc c) @ body),
      wblk_remsize := int (length s) + 12, wblk_wsize := 0\<rparr>"
  have "run_state (raopcl_send_sample (Some c) s) w =
      (if r \<noteq> 0 then ((-1, Some (?c\<lparr>out_data := None\<rparr>)), w1)
       else if r2 \<noteq> 0 then ((-1, Some ?p), w2) else ((0, Some ?p), w3))"
    using assms(2) re f cs(1) by (simp add: raopcl_send_sample_def send_udp_def Let_def e ce(1))
  then have "p = Some ?p" "w' = w3" using assms(1) by (auto split: if_splits)
  then show thesis using that [of ?p body] ce cs st2 assms(2) by simp
qed

text \<open>C12. Consecutive packets are numbered consecutively: the chunks of a stream go out under sequence numbers
  that count up by one and wrap with the sixteen bits of the header, with time stamps that advance by the
  size of what was sent before, and with the marker on the first packet of the process only.\<close>

theorem packets_in_sequence:
  assumes "run_state (send_all ss c) w = (Some ps, w')" and "udp c"
  shows "length ps = length ss \<and> (\<forall>i < length ss. \<exists>body. ps ! i =
     rtp_header (first_packet w \<and> i = 0) (seq_number w + of_nat i)
       (timestamp c + of_nat (sum_list (map length (take i ss)))) (ssrc c) @ body \<and>
     (\<not> encrypted c \<longrightarrow> body = ss ! i))"
  using assms
proof (induction ss arbitrary: c w ps)
  case (Cons s ss)
  obtain r p w1 where snd: "run_state (raopcl_send_sample (Some c) s) w = ((r, p), w1)" by (metis surj_pair)
  obtain c' d qs where c': "r = 0" "p = Some c'" "out_data c' = Some d" "ps = d # qs"
      "run_state (send_all ss c') w1 = (Some qs, w')"
    using Cons.prems(1) snd by (auto split: option.splits if_splits prod.splits)
  from send_udp_packet [OF snd [unfolded c'(1)] Cons.prems(2)] c'(2)
  obtain body where b: "out_data c' = Some (rtp_header (first_packet w) (seq_number w) (timestamp c) (ssrc c) @ body)"
      "\<not> encrypted c \<Longrightarrow> body = s" "encrypted c' = encrypted c" "udp c'" "ssrc c' = ssrc c"
      "timestamp c' = timestamp c + of_nat (length s)" "seq_number w1 = seq_number w + 1" "\<not> first_packet w1"
    by blast
  note IH = Cons.IH [OF c'(5) b(4)]
  show ?case
  proof (intro conjI allI impI)
    show "length ps = length (s # ss)" using IH c'(4) by simp
    fix i assume i: "i < length (s # ss)"
    show "\<exists>body. ps ! i = rtp_header (first_packet w \<and> i = 0) (seq_number w + of_nat i)
       (timestamp c + of_nat (sum_list (map length (take i (s # ss))))) (ssrc c) @ body \<and>
       (\<not> encrypted c \<longrightarrow> body = (s # ss) ! i)"
    proof (cases i)
      case 0
      then show ?thesis using b(1,2) c'(3,4) by auto
    next
      case (Suc j)
      then show ?thesis using IH i b(3,5-8) c'(4) by (auto simp: add_ac)
    qed
  qed
qed auto

theorem packets_in_sequence_witness:
  "\<exists>p1 p2 w'. run_state (send_all [[1, 2], [3]] (zero_raopcl\<lparr>udp := True, stream_fd := 5\<rparr>))
      (idle_raop [] [] empty_slots) = (Some [p1, p2], w') \<and>
     p1 = rtp_header True 0 0 0 @ [1, 2] \<and> p2 = rtp_header False 1 2 0 @ [3]"
proof -
  let ?c = "zero_raopcl\<lparr>udp := True, stream_fd := 5\<rparr>" and ?w = "idle_raop [] [] empty_slots"
  obtain ps w' where r: "run_state (send_all [[1, 2], [3]] ?c) ?w = (Some ps, w')"
    by (simp add: raopcl_send_sample_def send_udp_def zero_raopcl_def realloc_memory_def sys_def
        set_fd_event_def set_slot_def empty_slots_def MAX_NUM_OF_FDS_def free_slot_def raopcl_count_samples_def
        BUFFER_def MAX_SAMPLES_IN_CHUNK_def Let_def eval_nat_numeral)
  from packets_in_sequence [OF r] obtain p1 p2 where "ps = [p1, p2]"
    by (auto simp: zero_raopcl_def length_Suc_conv)
  with packets_in_sequence [OF r] r show ?thesis
    by (simp add: zero_raopcl_def All_less_Suc numeral_2_eq_2)
qed

subsection \<open>Titles\<close>

lemma put_at_next:
  assumes "off = length pre + z" and "z + length bs \<le> k"
  shows "put_at (off, bs) (Some (pre @ replicate k 0)) =
    Some ((pre @ replicate z 0 @ bs) @ replicate (k - z - length bs) 0)"
proof -
  have "off + length bs \<le> length (pre @ replicate k (0 :: u8))" using assms by simp
  moreover have "take off (pre @ replicate k 0) = pre @ replicate z (0 :: u8)" using assms by simp
  moreover have "drop (off + length bs) (pre @ replicate k 0) = replicate (k - z - length bs) (0 :: u8)"
    using assms by simp
  ultimately show ?thesis unfolding put_at_def by (simp only: prod.case option.case if_True) simp
qed

lemma put_placed:
  "length (gapped ps) \<le> k \<Longrightarrow> fold put_at (placed (length pre) ps) (Some (pre @ replicate k 0)) =
    Some (pre @ gapped ps @ replicate (k - length (gapped ps)) 0)"
proof (induction ps arbitrary: pre k)
  case (Cons p ps)
  obtain z bs where p: "p = (z, bs)" by (cases p)
  have k: "z + length bs \<le> k" "length (gapped ps) \<le> k - z - length bs"
    using Cons.prems by (simp_all add: gapped_def p)
  have "fold put_at (placed (length pre) (p # ps)) (Some (pre @ replicate k 0)) =
      fold put_at (placed (length (pre @ replicate z 0 @ bs)) ps)
        (Some ((pre @ replicate z 0 @ bs) @ replicate (k - z - length bs) 0))"
    using put_at_next [OF refl k(1), of pre] by (simp add: p add.assoc)
  also have "\<dots> = Some ((pre @ replicate z 0 @ bs) @ gapped ps @ replicate (k - z - length bs - length (gapped ps)) 0)"
    by (rule Cons.IH [OF k(2)])
  finally show ?case by (simp add: gapped_def p)
qed (simp add: gapped_def)

lemma be32_length [simp]: "length (be32 w) = 4"
  by (simp add: be32_def)

lemma content_message_length:
  "length (content_message a b c) = content_size a b c + 8"
  by (simp add: content_message_def tagged_def text_value_def content_size_def)

lemma content_writes_message:
  assumes "length (content_message a b c) \<le> 512"
  shows "fold put_at (content_writes a b c) (Some (replicate 512 0)) =
    Some (content_message a b c @ replicate (512 - length (content_message a b c)) 0)"
proof -
  let ?ps = "[(0, map ord8 ''mlit''), (0, be32 (of_nat (content_size a b c))),
     (0, map ord8 ''minm''), (0, be32 (of_nat (length a + 1))), (0, map ord8 a),
     (1, map ord8 ''asar''), (0, be32 (of_nat (length b + 1))), (0, map ord8 b),
     (1, map ord8 ''asal''), (0, be32 (of_nat (length c + 1))), (0, map ord8 c)]"
  have w: "content_writes a b c = placed 0 ?ps" by (simp add: content_writes_def Let_def)
  have m: "content_message a b c = gapped ?ps @ [0]"
    by (simp add: content_message_def tagged_def text_value_def gapped_def content_size_def add_ac)
  then have l: "length (gapped ?ps) < 512" using assms by simp
  have "fold put_at (content_writes a b c) (Some (replicate 512 0)) =
      Some (gapped ?ps @ replicate (512 - length (gapped ?ps)) 0)"
    using put_placed [of ?ps 512 "[]"] l unfolding w by (simp del: placed.simps)
  also have "replicate (512 - length (gapped ?ps)) (0 :: u8) = 0 # replicate (512 - length (gapped ?ps) - 1) 0"
    using l by (cases "512 - length (gapped ?ps)") simp_all
  finally show ?thesis unfolding m by simp
qed

text \<open>The titles are sent as one tagged container with three tagged texts, lengths and all: when the message
  fits the 512 bytes of its array, the array starts with exactly that message and the length given to the
  request is its length.  When it does not fit, the code writes past the array.\<close>

lemma set_content_message:
  assumes "rtsp c \<noteq> None" and "length (content_message a b d) \<le> 512"
  shows "raopcl_set_content (Some c) a b d = if_client (Some c) (\<lambda>c. on_rtsp c (\<lambda>p. rtspcl_set_daap p
      (map chr8 (content_message a b d @ replicate (512 - length (content_message a b d)) 0)) (timestamp c)
      (int (length (content_message a b d))))) \<and>
    request_body (Some t) (Some (map chr8 (content_message a b d @
      replicate (512 - length (content_message a b d)) 0))) (int (length (content_message a b d))) =
    map chr8 (content_message a b d)"
proof -
  obtain h where "rtsp c = Some h" using assms(1) by blast
  moreover have "content_size a b d + (4 + 4) = length (content_message a b d)" by (simp add: content_message_length)
  moreover have "content_message a b d \<noteq> []" by (simp add: content_message_def tagged_def)
  ultimately show ?thesis
    using content_writes_message [OF assms(2)]
    by (simp add: raopcl_set_content_def if_client_def request_body_def)
qed

subsection \<open>The speaker's buffer\<close>

text \<open>The waiting time for the speaker's buffer is what the last report leaves of it: the samples it had, at
  44100 a second, less the time since the report, in whole microseconds, and zero once that has passed.  The
  result is a normalised time.\<close>

lemma aexbuf_time_remaining:
  assumes "size_in_aex c > 0" and "clock w = (sec, usec) # ts" and "last_read_tv c = (ls, lu)"
    and "0 \<le> lu" and "lu < 1000000" and "0 \<le> sint usec" and "sint usec < 1000000"
    and "left = size_in_aex c * 1000000 div 44100 - ((sint sec - ls) * 1000000 + (sint usec - lu))"
    and "fst (run_state (raopcl_aexbuf_time (Some c)) w) = (r, dsec, dusec)"
  shows "r = 0 \<and> 0 \<le> dusec \<and> dusec < 1000000 \<and> dsec * 1000000 + dusec = max 0 left"
proof -
  let ?n = "size_in_aex c"
  have d: "?n * 1000000 div 44100 = ?n div 44100 * 1000000 + ?n mod 44100 * 10000 div 441"
  proof -
    define q k where "q = ?n div 44100" and "k = ?n mod 44100"
    have "?n = q * 44100 + k" unfolding q_def k_def by (rule div_mult_mod_eq [symmetric])
    then have "?n * 1000000 = k * 1000000 + (q * 1000000) * 44100" by simp
    then have "?n * 1000000 div 44100 = k * 1000000 div 44100 + q * 1000000" by simp
    moreover have "k * 1000000 div 44100 = k * 10000 div 441"
      using div_mult_mult1 [of 100 "k * 10000" 441] by (simp add: mult.assoc)
    ultimately show ?thesis by (simp add: q_def k_def)
  qed
  have k: "0 \<le> ?n mod 44100 * 10000 div 441" "?n mod 44100 * 10000 div 441 < 1000000"
    by (simp_all add: div_less_iff_less_mult)
  define A B where "A = ?n div 44100" and "B = ?n mod 44100 * 10000 div 441"
  have run: "(r, dsec, dusec) = (let s = A - (sint sec - ls); u = B - (sint usec - lu);
      (s, u) = (if u \<ge> 1000000 then (s + 1, u - 1000000) else if u < 0 then (s - 1, u + 1000000) else (s, u))
      in if s < 0 then (0, 0, 0) else (0, s, u))"
    using assms(1-3) unfolding assms(9) [symmetric] A_def B_def
    by (simp add: raopcl_aexbuf_time_def gettimeofday_def Let_def)
  have B: "0 \<le> B" "B < 1000000" using k by (simp_all add: B_def)
  have l: "left = A * 1000000 + B - ((sint sec - ls) * 1000000 + (sint usec - lu))"
    using assms(8) d by (simp add: A_def B_def)
  define s u where "s = A - (sint sec - ls)" and "u = B - (sint usec - lu)"
  have u: "- 1000000 < u" "u < 2000000" "left = s * 1000000 + u" using B l assms(4-7) by (simp_all add: s_def u_def)
  show ?thesis
    using run u unfolding s_def [symmetric] u_def [symmetric] Let_def
    by (auto simp: max_def split: if_splits)
qed

end
