(* ===== verification/RaopPlay.thy ===== *)
theory RaopPlay
  imports RaopClient
begin

text \<open>
  The player \<^verbatim>\<open>src/jni/raop_play/raop_play.c\<close>: the event handler, the console, the arguments, the main loop
  and its entry from Java.  The descriptor table \<open>fds\<close> of \<open>raopld_t\<close> is in the world's record \<open>host\<close>, the rest
  of it is the record \<open>raopld\<close>.  The main loop is a sequence of steps, each a computation, because it
  may run for as long as the stream is active.
\<close>

definition SERVER_PORT :: int where
  "SERVER_PORT = 5000"

definition MAIN_EVENT_TIMEOUT :: int where
  "MAIN_EVENT_TIMEOUT = 3"

record raopld =
  client :: "raopcl option"
  player_auds :: "auds option"

definition RAOP_SONGDONE :: string where
  "RAOP_SONGDONE = ''done''"

definition RAOP_ERROR :: string where
  "RAOP_ERROR = ''error''"

subsection \<open>The console\<close>

definition pausing :: "raopld \<Rightarrow> bool" where
  "pausing d \<longleftrightarrow> raopcl_get_pause (client d) \<noteq> Some NO_PAUSE"

definition set_pause ::
  "raopld \<Rightarrow> pause_state \<Rightarrow> ('a raop_host_scheme, raopld option) state" where
  "set_pause d ps = do {
     r \<leftarrow> raopcl_set_pause (client d) ps;
     State_Monad.return (map_option (\<lambda>(v, c). d\<lparr>client := c\<rparr>) r)
   }"

text \<open>\<open>play\<close>: resume, or open the named song.  The stream that was open before is not closed.\<close>

definition play_command ::
  "string \<Rightarrow> raopld \<Rightarrow> ('a raop_host_scheme, (int \<times> raopld) option) state" where
  "play_command str d =
     (if pausing d then do {
        r \<leftarrow> set_pause d NO_PAUSE;
        State_Monad.return (map_option (\<lambda>d. (0, d)) r)
      }
      else (case split_at CHR '' '' str of
          None \<Rightarrow> State_Monad.return (Some (0, d))
        | Some (_, ps) \<Rightarrow> do {
            a \<leftarrow> auds_open ps AUD_TYPE_NONE;
            let d = d\<lparr>player_auds := a\<rparr>;
            if a = None then do {
              emit (Print_call RAOP_ERROR);
              State_Monad.return (Some (-1, d))
            } else do {
              r \<leftarrow> raopcl_flush_stream (client d);
              State_Monad.return (map_option (\<lambda>(v, c). (0, d\<lparr>client := c\<rparr>)) r)
            }
          }))"

definition stop_command :: "raopld \<Rightarrow> ('a raop_host_scheme, (int \<times> raopld) option) state" where
  "stop_command d = do {
     r \<leftarrow> (if pausing d then set_pause d NO_PAUSE else State_Monad.return (Some d));
     case r of
       None \<Rightarrow> State_Monad.return None
     | Some d \<Rightarrow> do {
         _ \<leftarrow> (case player_auds d of None \<Rightarrow> State_Monad.return 0 | Some a \<Rightarrow> auds_close a);
         State_Monad.return (Some (-1, d\<lparr>player_auds := None\<rparr>))
       }
   }"

text \<open>With nothing after \<open>volume\<close> the number is read behind the end of the line.\<close>

definition volume_command ::
  "string \<Rightarrow> raopld \<Rightarrow> ('a raop_host_scheme, (int \<times> raopld) option) state" where
  "volume_command ps d = do {
     i \<leftarrow> (if length ps \<ge> 7 then State_Monad.return (atoi (drop 7 ps)) else result2);
     r \<leftarrow> raopcl_update_volume (client d) i;
     State_Monad.return (map_option (\<lambda>(v, c). (v, d\<lparr>client := c\<rparr>)) r)
   }"

definition console_command ::
  "string \<Rightarrow> raopld \<Rightarrow> ('a raop_host_scheme, (int \<times> raopld) option) state" where
  "console_command str d =
     (if prefix_of ''play'' str then play_command str d
      else if str = ''pause'' then (case client d of
          None \<Rightarrow> State_Monad.return None
        | Some c \<Rightarrow>
            if fst (raopcl_wait_songdone c 0) \<noteq> 0 then State_Monad.return (Some (-2, d))
            else if player_auds d \<noteq> None then do {
              r \<leftarrow> set_pause d OP_PAUSE;
              State_Monad.return (map_option (\<lambda>d. (-1, d)) r)
            }
            else State_Monad.return (Some (-1, d)))
      else if str = ''stop'' then stop_command d
      else if str = ''quit'' then State_Monad.return (Some (-2, d))
      else (case find_sub ''volume'' str of
          Some ps \<Rightarrow> volume_command ps d
        | None \<Rightarrow> State_Monad.return (Some (-1, d))))"

definition console_read :: "raopld \<Rightarrow> ('a raop_host_scheme, (int \<times> raopld) option) state" where
  "console_read d = do {
     buf \<leftarrow> State (\<lambda>w. (stack_line w, w));
     (r, line) \<leftarrow> read_line 0 buf 256 100 False;
     _ \<leftarrow> (if r = -1 then clear_fd_event 0 else State_Monad.return 0);
     res \<leftarrow> console_command (cstr line) d;
     State_Monad.return (map_option (\<lambda>(v, d). (if v = -2 then -1 else 0, d)) res)
   }"

definition terminate_cbf :: "int \<Rightarrow> int" where
  "terminate_cbf flags = -1"

datatype signal = SIGCHLD | SIGINT | SIGTERM

text \<open>The handler of the three signals; its result is the child-exit callback that is called, if any.\<close>

definition sig_action :: "signal \<Rightarrow> raopld \<Rightarrow> ('a host_scheme, nat option) state" where
  "sig_action signo d =
     (if signo = SIGCHLD then State_Monad.return (auds_sigchld (player_auds d))
      else do {
        _ \<leftarrow> set_fd_event 1 RAOP_FD_WRITE Terminate_cbf;
        State_Monad.return None
      })"

subsection \<open>The event handler\<close>

definition call_back ::
  "callback \<Rightarrow> int \<Rightarrow> raopld \<Rightarrow> ('a raop_host_scheme, (int \<times> raopld) option) state" where
  "call_back cbf flags d = (case cbf of
       No_callback \<Rightarrow> State_Monad.return (Some (0, d))
     | Console_read \<Rightarrow> console_read d
     | Terminate_cbf \<Rightarrow> State_Monad.return (Some (terminate_cbf flags, d))
     | Fd_event_callback \<Rightarrow> do {
         (r, c) \<leftarrow> fd_event_callback (client d) flags;
         State_Monad.return (Some (r, d\<lparr>client := c\<rparr>))
       })"

definition watched_for :: "int \<Rightarrow> fdev list \<Rightarrow> fd list" where
  "watched_for flag es = map fd_num (filter (\<lambda>e. 0 \<le> fd_num e \<and> and (fd_flags e) flag \<noteq> 0) es)"

text \<open>\<open>select\<close> narrows the two sets to the descriptors that are ready; the answer has two bits for each
  descriptor.  On an error, -1, it leaves them as they are.\<close>

definition select_fds ::
  "fd list \<Rightarrow> fd list \<Rightarrow> int \<times> int \<Rightarrow> ('a os_scheme, fd list \<times> fd list) state" where
  "select_fds rd wr tout = do {
     m \<leftarrow> sys (Select_call rd wr tout);
     State_Monad.return
       (filter (\<lambda>f. bit m (nat (2 * f))) rd, filter (\<lambda>f. bit m (nat (2 * f + 1))) wr)
   }"

definition slot :: "nat \<Rightarrow> ('a host_scheme, fdev) state" where
  "slot i = State (\<lambda>w. (fds w ! i, w))"

text \<open>One of the two tests of a slot.  The slot is looked up again for each, because a callback may have
  changed the table.\<close>

definition dispatch ::
  "nat \<Rightarrow> int \<Rightarrow> fd list \<Rightarrow> raopld \<Rightarrow> ('a raop_host_scheme, (int \<times> raopld) option) state" where
  "dispatch i flag ready_fds d = do {
     e \<leftarrow> slot i;
     if and (fd_flags e) flag \<noteq> 0 \<and> fd_num e \<in> set ready_fds then call_back (fd_cbf e) flag d
     else State_Monad.return (Some (0, d))
   }"

fun handle_slots ::
  "nat list \<Rightarrow> fd list \<Rightarrow> fd list \<Rightarrow> raopld \<Rightarrow>
   ('a raop_host_scheme, (int \<times> raopld) option) state" where
  "handle_slots [] rd wr d = State_Monad.return (Some (0, d))"
| "handle_slots (i # is) rd wr d = do {
     e \<leftarrow> slot i;
     if fd_num e < 0 then handle_slots is rd wr d
     else then_ok (dispatch i RAOP_FD_READ rd d)
            (\<lambda>d. then_ok (dispatch i RAOP_FD_WRITE wr d) (handle_slots is rd wr))
   }"

text \<open>The end of the song is reported once the speaker has played what it has.\<close>

definition check_songdone :: "raopcl \<Rightarrow> ('a raop_host_scheme, raopcl) state" where
  "check_songdone c =
     (if fst (raopcl_wait_songdone c 0) \<noteq> 0 then do {
        (r, tout) \<leftarrow> raopcl_aexbuf_time (Some c);
        if tout = (0, 0) then do {
          emit (Print_call RAOP_SONGDONE);
          State_Monad.return (snd (raopcl_wait_songdone c (-1)))
        } else State_Monad.return c
      } else State_Monad.return c)"

definition main_event_handler ::
  "raopld \<Rightarrow> ('a raop_host_scheme, (int \<times> raopld) option) state" where
  "main_event_handler d = (case client d of
       None \<Rightarrow> State_Monad.return None
     | Some c \<Rightarrow> do {
         es \<leftarrow> State (\<lambda>w. (fds w, w));
         tout \<leftarrow> (if fst (raopcl_wait_songdone c 0) \<noteq> 0 then do {
             (r, t) \<leftarrow> raopcl_aexbuf_time (Some c);
             State_Monad.return t
           } else State_Monad.return (MAIN_EVENT_TIMEOUT, 0));
         (rd, wr) \<leftarrow> select_fds (watched_for RAOP_FD_READ es) (watched_for RAOP_FD_WRITE es) tout;
         then_ok (handle_slots [0..<MAX_NUM_OF_FDS] rd wr d) (\<lambda>d. case client d of
             None \<Rightarrow> State_Monad.return None
           | Some c \<Rightarrow> do {
               c \<leftarrow> check_songdone c;
               r \<leftarrow> raopcl_pause_check c;
               State_Monad.return (map_option (\<lambda>(v, c). (0, d\<lparr>client := Some c\<rparr>)) r)
             })
       })"

subsection \<open>The arguments\<close>

record options =
  o_host :: "string option"
  o_fname :: "string option"
  o_port :: int
  o_volume :: int
  o_encrypt :: bool
  o_udp :: bool
  o_iact :: bool

definition default_options :: options where
  "default_options = \<lparr>o_host = None, o_fname = None, o_port = SERVER_PORT, o_volume = 100,
     o_encrypt = True, o_udp = False, o_iact = False\<rparr>"

datatype parsed = Parsed options | Usage | Args_undefined

text \<open>The first argument is how many of \<open>argc\<close> are left; the elements of \<open>argv\<close> may be fewer.\<close>

fun parse_args :: "nat \<Rightarrow> string list \<Rightarrow> options \<Rightarrow> parsed" where
  "parse_args 0 argv o1 = Parsed o1"
| "parse_args (Suc k) [] o1 = Args_undefined"
| "parse_args (Suc k) (a # argv) o1 =
     (if a = ''-i'' then parse_args k argv (o1\<lparr>o_iact := True\<rparr>)
      else if a = ''--port'' then
        (case argv of [] \<Rightarrow> Args_undefined
         | b # argv \<Rightarrow> parse_args (k - 1) argv (o1\<lparr>o_port := atoi b\<rparr>))
      else if a = ''--vol'' then
        (case argv of [] \<Rightarrow> Args_undefined
         | b # argv \<Rightarrow> parse_args (k - 1) argv (o1\<lparr>o_volume := atoi b\<rparr>))
      else if a = ''-e'' then parse_args k argv (o1\<lparr>o_encrypt := False\<rparr>)
      else if a = ''--proto'' then
        (case argv of [] \<Rightarrow> Args_undefined
         | b # argv \<Rightarrow> parse_args (k - 1) argv (o1\<lparr>o_udp := (b = ''udp'')\<rparr>))
      else if a = ''--help'' \<or> a = ''-h'' then Usage
      else if o_host o1 = None then parse_args k argv (o1\<lparr>o_host := Some a\<rparr>)
      else if o_fname o1 = None then parse_args k argv (o1\<lparr>o_fname := Some a\<rparr>)
      else parse_args k argv o1)"

definition print_usage :: "string \<Rightarrow> ('a os_scheme, int) state" where
  "print_usage prog = do {
     emit (Print_call (prog @ '' [--port port_number] [--vol volume(0-100)] [-i interactive mode] '' @
       ''[-e no-encrypt-mode] [--proto [udp|tcp]]  server_ip audio_filename'' @ [CHR 0x0A]));
     State_Monad.return (-1)
   }"

subsection \<open>Calls to and from Java\<close>

definition isActivated :: "string \<Rightarrow> ('a os_scheme, int) state" where
  "isActivated address = do {
     r \<leftarrow> sys (Active_call address);
     State_Monad.return (if r = 1 then 1 else 0)
   }"

definition notifyReady :: "int \<Rightarrow> ('a os_scheme, unit) state" where
  "notifyReady r = emit (Notify_call (r \<noteq> 0))"

subsection \<open>The main loop\<close>

text \<open>Where the program is: at the test of the loop with a value of \<open>rval\<close>, in the inner loop that waits for
  a packet to be written, or out of \<open>main\<close>.  \<open>Undefined\<close> is undefined behaviour.\<close>

datatype phase = Looping int | Sending | Finished int | Undefined

text \<open>From \<open>erexit\<close> on.\<close>

definition main_exit :: "string \<Rightarrow> raopld \<Rightarrow> int \<Rightarrow> ('a raop_host_scheme, phase \<times> raopld) state" where
  "main_exit host d rval = do {
     _ \<leftarrow> (case player_auds d of None \<Rightarrow> State_Monad.return 0 | Some a \<Rightarrow> auds_close a);
     emit (Free_call 3);
     _ \<leftarrow> isActivated host;
     State_Monad.return (Finished rval, d)
   }"

definition undefined_at :: "raopld \<Rightarrow> ('a raop_host_scheme, phase \<times> raopld) state" where
  "undefined_at d = State_Monad.return (Undefined, d)"

text \<open>A call whose result is tested: on to \<open>erexit\<close> with -1, or on to the next.\<close>

definition or_exit ::
  "string \<Rightarrow> raopld \<Rightarrow> (int \<times> raopcl option) option \<Rightarrow>
   (raopld \<Rightarrow> ('a raop_host_scheme, phase \<times> raopld) state) \<Rightarrow>
   ('a raop_host_scheme, phase \<times> raopld) state" where
  "or_exit host d r k = (case r of
       None \<Rightarrow> undefined_at d
     | Some (v, c) \<Rightarrow>
         let d = d\<lparr>client := c\<rparr> in if v \<noteq> 0 then main_exit host d (-1) else k d)"

text \<open>The set-up once the table is empty: the session, the volume, the titles, the audio source and the
  console.\<close>

definition main_start ::
  "rsa_fun \<Rightarrow> string \<Rightarrow> options \<Rightarrow> raopld \<Rightarrow> ('a raop_host_scheme, phase \<times> raopld) state" where
  "main_start rsa host opts d = do {
     c \<leftarrow> raopcl_open;
     case c of
       None \<Rightarrow> undefined_at d
     | Some None \<Rightarrow> main_exit host d (-1)
     | Some (Some c) \<Rightarrow> do {
         r \<leftarrow> raopcl_connect rsa (Some c) host (of_int (o_port opts)) (o_encrypt opts) (o_udp opts);
         or_exit host d r (\<lambda>d. do {
           r \<leftarrow> raopcl_update_volume (client d) (o_volume opts);
           or_exit host d r (\<lambda>d. do {
             r \<leftarrow> (if o_udp opts then raopcl_set_content (client d) ''ROAP PLAY'' ''Via Waveplay'' []
                  else State_Monad.return (Some (0, client d)));
             or_exit host d r (\<lambda>d. do {
               a \<leftarrow> (case o_fname opts of
                   None \<Rightarrow> State_Monad.return None
                 | Some f \<Rightarrow> auds_open f AUD_TYPE_NONE);
               let d = d\<lparr>player_auds := a\<rparr>;
               if o_fname opts \<noteq> None \<and> a = None then main_exit host d (-1)
               else do {
                 _ \<leftarrow> set_fd_event 0 RAOP_FD_READ Console_read;
                 State_Monad.return (Looping 0, d)
               }
             })
           })
         })
       }
   }"

text \<open>The set-up, from the allocation of \<open>raopld\<close> to the test of the loop.  Without the allocation the code
  goes to \<open>erexit\<close> and dereferences the null pointer there.\<close>

definition main_setup ::
  "rsa_fun \<Rightarrow> string \<Rightarrow> options \<Rightarrow> ('a raop_host_scheme, phase \<times> raopld) state" where
  "main_setup rsa host opts = do {
     let d = \<lparr>client = None, player_auds = None\<rparr>;
     p \<leftarrow> sys (Malloc_call 72);
     if p = 0 then undefined_at d
     else do {
       State (\<lambda>w. ((), w\<lparr>fds := empty_slots\<rparr>));
       main_start rsa host opts d
     }
   }"

text \<open>The event handler with its result in \<open>rval\<close>.\<close>

definition handle_events :: "raopld \<Rightarrow> ('a raop_host_scheme, phase \<times> raopld) state" where
  "handle_events d = do {
     r \<leftarrow> main_event_handler d;
     State_Monad.return (case r of None \<Rightarrow> (Undefined, d) | Some (v, d) \<Rightarrow> (Looping v, d))
   }"

text \<open>The next chunk is fetched and sent.  When there is none the stream is closed, and the code sends the
  chunk all the same, from memory that has been freed or through pointers that were never set.
  When the packet cannot be queued, the loop goes on with \<open>rval\<close> still zero.\<close>

definition send_next :: "raopld \<Rightarrow> auds \<Rightarrow> ('a raop_host_scheme, phase \<times> raopld) state" where
  "send_next d a = do {
     r \<leftarrow> auds_get_next_sample a;
     case r of
       None \<Rightarrow> undefined_at d
     | Some (v, sz, a) \<Rightarrow>
         if v \<noteq> 0 then do {
           _ \<leftarrow> auds_close a;
           undefined_at (d\<lparr>player_auds := None\<rparr>)
         }
         else (case (sz, stream (lower_auds a)) of
             (Some n, Some pcm) \<Rightarrow> do {
               let d = d\<lparr>player_auds := Some a\<rparr>;
               (v, c) \<leftarrow> raopcl_send_sample (client d) (take (nat n) (pdata pcm));
               State_Monad.return (if v \<noteq> 0 then Looping 0 else Sending, d\<lparr>client := c\<rparr>)
             }
           | _ \<Rightarrow> undefined_at d)
   }"

definition case_no_pause :: "raopld \<Rightarrow> auds \<Rightarrow> ('a raop_host_scheme, phase \<times> raopld) state" where
  "case_no_pause d a = do {
     r \<leftarrow> auds_poll_next_sample a;
     if r = 0 then do {
       r \<leftarrow> set_pause d NODATA_PAUSE;
       case r of None \<Rightarrow> undefined_at d | Some d \<Rightarrow> State_Monad.return (Looping 0, d)
     }
     else send_next d a
   }"

definition main_body :: "raopld \<Rightarrow> ('a raop_host_scheme, phase \<times> raopld) state" where
  "main_body d = (case player_auds d of
       None \<Rightarrow> handle_events d
     | Some a \<Rightarrow> (case raopcl_get_pause (client d) of
         Some OP_PAUSE \<Rightarrow> handle_events d
       | Some NODATA_PAUSE \<Rightarrow> do {
           r \<leftarrow> auds_poll_next_sample a;
           if r \<noteq> 0 then do {
             r \<leftarrow> set_pause d NO_PAUSE;
             case r of None \<Rightarrow> undefined_at d | Some d \<Rightarrow> case_no_pause d a
           }
           else handle_events d
         }
       | Some NO_PAUSE \<Rightarrow> case_no_pause d a
       | None \<Rightarrow> State_Monad.return (Looping (-1), d)))"

definition main_step ::
  "string \<Rightarrow> phase \<times> raopld \<Rightarrow> ('a raop_host_scheme, phase \<times> raopld) state" where
  "main_step host s = (case s of (ph, d) \<Rightarrow> (case ph of
       Looping rval \<Rightarrow> do {
         act \<leftarrow> (if rval = 0 then isActivated host else State_Monad.return 0);
         if rval = 0 \<and> act = 1 then main_body d
         else do {
           r \<leftarrow> raopcl_close (client d);
           case r of None \<Rightarrow> undefined_at d | Some v \<Rightarrow> main_exit host d v
         }
       }
     | Sending \<Rightarrow> do {
         r \<leftarrow> main_event_handler d;
         case r of
           None \<Rightarrow> undefined_at d
         | Some (v, d) \<Rightarrow>
             State_Monad.return
               (if v = 0 \<and> player_auds d \<noteq> None \<and> raopcl_sample_remsize (client d) \<noteq> 0 then Sending
                else Looping v, d)
       }
     | Finished v \<Rightarrow> State_Monad.return s
     | Undefined \<Rightarrow> State_Monad.return s))"

text \<open>A number of steps one after the other, and everything they can reach.\<close>

fun run_main ::
  "nat \<Rightarrow> string \<Rightarrow> phase \<times> raopld \<Rightarrow> ('a raop_host_scheme, phase \<times> raopld) state" where
  "run_main 0 host s = State_Monad.return s"
| "run_main (Suc n) host s = do { s \<leftarrow> main_step host s; run_main n host s }"

text \<open>A signal may come between two steps.\<close>

inductive reaches ::
  "string \<Rightarrow> (phase \<times> raopld) \<times> 'a raop_host_scheme \<Rightarrow> (phase \<times> raopld) \<times> 'a raop_host_scheme \<Rightarrow> bool"
  for host where
  start: "reaches host x x"
| step: "reaches host x (s, w) \<Longrightarrow> reaches host x (run_state (main_step host s) w)"
| signalled: "reaches host x ((ph, d), w) \<Longrightarrow>
    reaches host x ((ph, d), snd (run_state (sig_action signo d) w))"

definition main ::
  "rsa_fun \<Rightarrow> nat \<Rightarrow> nat \<Rightarrow> string list \<Rightarrow> ('a raop_host_scheme, phase) state" where
  "main rsa n argc argv = (case parse_args (argc - 1) (tl argv) default_options of
       Args_undefined \<Rightarrow> State_Monad.return Undefined
     | Usage \<Rightarrow> do { v \<leftarrow> print_usage (hd argv); State_Monad.return (Finished v) }
     | Parsed opts \<Rightarrow> (case o_host opts of
         None \<Rightarrow> do { v \<leftarrow> print_usage (hd argv); State_Monad.return (Finished v) }
       | Some host \<Rightarrow>
           if \<not> o_iact opts \<and> o_fname opts = None
           then do { v \<leftarrow> print_usage (hd argv); State_Monad.return (Finished v) }
           else do {
             s \<leftarrow> main_setup rsa host opts;
             (ph, d) \<leftarrow> run_main n host s;
             State_Monad.return ph
           }))"

text \<open>Seven strings are handed over with a count of eight.  The result is -1 once \<open>main\<close> has returned.\<close>

definition raopPlay ::
  "rsa_fun \<Rightarrow> nat \<Rightarrow> string list \<Rightarrow> ('a raop_host_scheme, int option) state" where
  "raopPlay rsa n elements = do {
     ph \<leftarrow> main rsa n 8 (take 7 elements);
     State_Monad.return (case ph of Finished v \<Rightarrow> Some (-1) | _ \<Rightarrow> None)
   }"

end
