(* ===== verification/Keeps.thy ===== *)
theory Keeps
  imports RaopClient
begin

text \<open>
  What a computation keeps.  A predicate on the world that every part of a computation keeps is kept by
  the whole: there is one rule for each way the operations are composed.  The operations that only call the
  system change the record \<open>os\<close> and nothing of what extends it, so they keep every predicate on the extension;
  the locale \<open>above_os\<close> says so once, for the library, the RTSP client, the audio source and the session.
\<close>

named_theorems keeps_rules

definition keeps :: "('w \<Rightarrow> bool) \<Rightarrow> ('w, 'a) state \<Rightarrow> bool" where
  "keeps P m \<longleftrightarrow> (\<forall>w. P w \<longrightarrow> P (snd (run_state m w)))"

lemma keepsI: "(\<And>w. P w \<Longrightarrow> P (snd (run_state m w))) \<Longrightarrow> keeps P m"
  by (simp add: keeps_def)

lemma keepsD: "keeps P m \<Longrightarrow> P w \<Longrightarrow> P (snd (run_state m w))"
  by (simp add: keeps_def)

lemma keeps_return [keeps_rules]: "keeps P (State_Monad.return x)"
  by (simp add: keeps_def)

lemma keeps_bind [keeps_rules]: "keeps P m \<Longrightarrow> (\<And>x. keeps P (f x)) \<Longrightarrow> keeps P (m \<bind> f)"
  by (simp add: keeps_def split: prod.split) (metis snd_conv)

lemma keeps_if [keeps_rules]:
  "(b \<Longrightarrow> keeps P m) \<Longrightarrow> (\<not> b \<Longrightarrow> keeps P n) \<Longrightarrow> keeps P (if b then m else n)"
  by simp

lemma keeps_Let [keeps_rules]: "(\<And>y. keeps P (f y)) \<Longrightarrow> keeps P (Let x f)"
  by (simp add: Let_def)

lemma keeps_option [keeps_rules]:
  "keeps P m \<Longrightarrow> (\<And>y. keeps P (f y)) \<Longrightarrow> keeps P (case x of None \<Rightarrow> m | Some y \<Rightarrow> f y)"
  by (simp split: option.split)

lemma keeps_prod [keeps_rules]: "(\<And>y z. keeps P (f y z)) \<Longrightarrow> keeps P (case x of (y, z) \<Rightarrow> f y z)"
  by (simp split: prod.split)

lemma keeps_list [keeps_rules]:
  "keeps P m \<Longrightarrow> (\<And>y ys. keeps P (f y ys)) \<Longrightarrow> keeps P (case x of [] \<Rightarrow> m | y # ys \<Rightarrow> f y ys)"
  by (simp split: list.split)

lemma keeps_header_step [keeps_rules]:
  "(\<And>es. keeps P (f es)) \<Longrightarrow> (\<And>kd. keeps P (g kd)) \<Longrightarrow> keeps P m \<Longrightarrow>
   keeps P (case s of Header_next es \<Rightarrow> f es | Header_fail kd \<Rightarrow> g kd | Header_undefined \<Rightarrow> m)"
  by (simp split: header_step.split)

lemma keeps_header_result [keeps_rules]:
  "(\<And>es buf t. keeps P (f es buf t)) \<Longrightarrow> (\<And>kd. keeps P (g kd)) \<Longrightarrow> keeps P m \<Longrightarrow> keeps P n \<Longrightarrow>
   keeps P (case s of Headers es buf t \<Rightarrow> f es buf t | Headers_fail kd \<Rightarrow> g kd | Headers_undefined \<Rightarrow> m
     | Headers_stuck \<Rightarrow> n)"
  by (simp split: header_result.split)

lemma keeps_data_source [keeps_rules]:
  "(\<And>f. keeps P (k f)) \<Longrightarrow> (\<And>f. keeps P (g f)) \<Longrightarrow> (\<And>sz mem. keeps P (h sz mem)) \<Longrightarrow>
   keeps P (case ds of DESCRIPTOR f \<Rightarrow> k f | STREAM f \<Rightarrow> g f | MEMORY sz mem \<Rightarrow> h sz mem)"
  by (simp split: data_source.split)

lemma keeps_data_type [keeps_rules]:
  "keeps P m \<Longrightarrow> keeps P n \<Longrightarrow> keeps P (case t of AUD_TYPE_NONE \<Rightarrow> m | AUD_TYPE_PCM \<Rightarrow> n)"
  by (simp split: data_type.split)

lemma keeps_then_ok [keeps_rules]: "keeps P m \<Longrightarrow> (\<And>c. keeps P (f c)) \<Longrightarrow> keeps P (then_ok m f)"
  unfolding then_ok_def by (intro keeps_bind keeps_option keeps_prod keeps_if keeps_return)

lemma keeps_pause [keeps_rules]:
  "keeps P a \<Longrightarrow> keeps P b \<Longrightarrow> keeps P c \<Longrightarrow>
   keeps P (case ps of OP_PAUSE \<Rightarrow> a | NODATA_PAUSE \<Rightarrow> b | NO_PAUSE \<Rightarrow> c)"
  by (simp split: pause_state.split)

lemma keeps_look [keeps_rules]: "keeps P (State (\<lambda>w. (f w, w)))"
  by (simp add: keeps_def)

locale above_os =
  fixes P :: "'a os_scheme \<Rightarrow> bool"
  assumes only_more: "os.more w = os.more w' \<Longrightarrow> P w = P w'"
begin

lemma os_step:
  assumes "\<And>w. os.more (snd (run_state m w)) = os.more w"
  shows "keeps P m"
  using only_more [OF assms] by (simp add: keeps_def)

lemma os_emit [keeps_rules]: "keeps P (emit e)"
  by (rule os_step) (simp add: emit_def)

lemma os_sys [keeps_rules]: "keeps P (sys e)"
  by (rule os_step) (simp add: sys_def split: list.split)

lemma os_sys_read [keeps_rules]: "keeps P (sys_read f n)"
  by (rule os_step) (simp add: sys_read_def split: list.split option.split)

lemma os_result2 [keeps_rules]: "keeps P result2"
  by (rule os_step) (simp add: result2_def split: list.split)

lemma os_gettimeofday [keeps_rules]: "keeps P gettimeofday"
  by (rule os_step) (simp add: gettimeofday_def split: list.split)

lemma os_take_input [keeps_rules]:
  "keeps P (State (\<lambda>w. case inputs w of Some bs # rest \<Rightarrow> (bs, w\<lparr>inputs := rest\<rparr>)
     | None # rest \<Rightarrow> ([], w\<lparr>inputs := rest\<rparr>) | [] \<Rightarrow> ([], w)))"
  by (rule os_step) (simp split: list.split option.split)

lemma os_rand_bytes [keeps_rules]: "keeps P (rand_bytes n)"
  unfolding rand_bytes_def by (intro keeps_rules)

subsection \<open>The library\<close>

lemma lib_sockets [keeps_rules]:
  "keeps P (get_tcp_connect sd addr port)" "keeps P (get_tcp_connect_by_host sd host dp)"
  "keeps P (bind_host sd h a port)" "keeps P (open_tcp_socket h port)" "keeps P (open_udp_socket h port)"
  unfolding get_tcp_connect_def get_tcp_connect_by_host_def bind_addr_def bind_host_def open_tcp_socket_def
    open_udp_socket_def gethostbyname_def inet_addr_of_def
  by (intro keeps_rules)+

lemma lib_read_line [keeps_rules]: "keeps P (read_line sd buf maxlen timeout np)"
proof -
  have "keeps P (read_line_loop sd maxlen timeout np k pos buf)" for k pos buf
    by (induction k arbitrary: pos buf) (simp_all only: read_line_loop.simps, (intro keeps_rules | assumption)+)
  then show ?thesis by (simp add: read_line_def)
qed

lemma lib_realloc [keeps_rules]: "keeps P (realloc_memory p n)"
  unfolding realloc_memory_def by (intro keeps_rules)

subsection \<open>The RTSP client\<close>

lemma rtsp_if_handle [keeps_rules]: "(\<And>c. keeps P (f c)) \<Longrightarrow> keeps P (if_handle p f)"
  unfolding if_handle_def by (intro keeps_rules)

lemma rtsp_add_exthds [keeps_rules]: "keeps P (rtspcl_add_exthds p k d)"
  unfolding rtspcl_add_exthds_def put_exthd_def by (intro keeps_rules)

lemma rtsp_header_loop [keeps_rules]: "keeps P (header_loop n sd buf timeout es)"
proof (induction n arbitrary: buf timeout es)
  case (Suc n)
  then show ?case
    unfolding header_loop.simps header_line_def by (intro keeps_rules)
qed (simp only: header_loop.simps keeps_return)

lemma rtsp_body_loop [keeps_rules]: "keeps P (body_loop n sd buf timeout)"
  by (induction n arbitrary: buf timeout) (simp_all only: body_loop.simps, (intro keeps_rules | assumption)+)

lemma rtsp_read_headers [keeps_rules]: "keeps P (read_headers c buf kd)"
  unfolding read_headers_def line_bound_def by (intro keeps_rules)

lemma rtsp_own_request [keeps_rules]: "keeps P (own_request c cmd ct b len gr hds url)"
  and rtsp_exec_request [keeps_rules]: "keeps P (exec_request c cmd ct b len gr hds kd url)"
  unfolding own_request_def exec_request_def read_response_def by (intro keeps_rules)+

lemma rtsp_session [keeps_rules]:
  "keeps P (rtspcl_open b)" "keeps P (rtspcl_connect p h port sid)" "keeps P (rtspcl_close p)"
  unfolding rtspcl_open_def rtspcl_connect_def rtspcl_close_def rtspcl_disconnect_def by (intro keeps_rules)+

lemma rtsp_requests [keeps_rules]:
  "keeps P (rtspcl_annouce_sdp p s)" "keeps P (rtspcl_setup p kd)" "keeps P (rtspcl_record p)"
  "keeps P (rtspcl_set_parameter p s)" "keeps P (rtspcl_set_daap p s t len)" "keeps P (rtspcl_options p)"
  "keeps P (rtspcl_auth_setup p)" "keeps P (rtspcl_flush p)" "keeps P (rtspcl_teardown p)"
  unfolding rtspcl_annouce_sdp_def rtspcl_setup_def setup_response_def rtspcl_record_def rtspcl_set_parameter_def
    rtspcl_set_daap_def rtspcl_options_def rtspcl_auth_setup_def rtspcl_flush_def rtspcl_teardown_def
  by (intro keeps_rules)+

subsection \<open>The audio source\<close>

lemma audio_pcm_loop [keeps_rules]: "keeps P (pcm_loop k ds n bsize i one s)"
proof (induction k arbitrary: i one s)
  case (Suc k)
  then show ?case unfolding pcm_loop.simps fetch_one_def by (intro keeps_rules)
qed (simp only: pcm_loop.simps keeps_return)

lemma audio_write [keeps_rules]: "keeps P (auds_write_pcm n sz buf bsize ds)"
  unfolding auds_write_pcm_def by (intro keeps_rules)

lemma audio_operations [keeps_rules]:
  "keeps P (pcm_open a f)" "keeps P (pcm_get_next_sample a)" "keeps P (auds_close a)" "keeps P (auds_open f t)"
  "keeps P (auds_get_next_sample a)"
  unfolding pcm_open_def pcm_finish_def pcm_fail_def pcm_close_def pcm_get_next_sample_def auds_close_def auds_open_def
    auds_get_next_sample_def
  by (intro keeps_rules)+

subsection \<open>The session\<close>

lemma raop_if_client [keeps_rules]: "(\<And>c. keeps P (f c)) \<Longrightarrow> keeps P (if_client p f)"
  unfolding if_client_def by (intro keeps_rules)

lemma raop_on_rtsp [keeps_rules]: "(\<And>p. keeps P (f p)) \<Longrightarrow> keeps P (on_rtsp c f)"
  unfolding on_rtsp_def by (intro keeps_rules)

lemma raop_rtsp_step [keeps_rules]: "(\<And>p. keeps P (f p)) \<Longrightarrow> keeps P (rtsp_step f c)"
  unfolding rtsp_step_def by (intro keeps_rules)

lemma raop_free_texts [keeps_rules]: "keeps P (free_texts ts)"
  by (induction ts) (simp_all only: free_texts.simps, (intro keeps_rules | assumption)+)

lemma raop_sockets [keeps_rules]:
  "keeps P (raopcl_connectcontrol c port)" "keeps P (raopcl_sync c)" "keeps P (raopcl_connecttime c port)"
  "keeps P (raopcl_time_connect c b)" "keeps P (raopcl_stream_connect c)" "keeps P (msleep n)"
  unfolding raopcl_connectcontrol_def raopcl_sync_def raopcl_connecttime_def raopcl_time_connect_def
    raopcl_stream_connect_def msleep_def connect_to_def time_now_def
  by (intro keeps_rules)+

lemma raop_operations [keeps_rules]:
  "keeps P (raopcl_flush_stream p)" "keeps P (raopcl_aexbuf_time p)" "keeps P (raopcl_update_volume p v)"
  "keeps P (raopcl_set_content p a b d)" "keeps P (raopcl_close p)"
  unfolding raopcl_flush_stream_def raopcl_aexbuf_time_def raopcl_update_volume_def raopcl_set_content_def
    raopcl_close_def
  by (intro keeps_rules)+

lemma raop_connect [keeps_rules]: "keeps P (raopcl_connect rsa p h port e u)"
  unfolding raopcl_connect_def connect_begin_def connect_open_def connect_announce_def base64_text_def connect_setup_def
    connect_stream_def connect_end_def kill_session_def
  by (intro keeps_rules)

end

end
