(* ===== verification/PlayerInv.thy ===== *)
theory PlayerInv
  imports RaopPlay Keeps
begin

text \<open>
  What holds in every state the player reaches: the table of watched descriptors that the client, the audio
  source, the console and the signal handler share stays a table, whatever the system, the speaker and the user
  do.  Then how a stop request takes effect.
\<close>

subsection \<open>The table of watched descriptors\<close>

text \<open>The table has its four slots, no descriptor twice, and the two handlers that are tied to a descriptor
  only there.\<close>

definition table_ok :: "fdev list \<Rightarrow> bool" where
  "table_ok es \<longleftrightarrow> slots_ok es \<and>
     (\<forall>e \<in> set es. (fd_cbf e = Console_read \<longrightarrow> fd_num e = 0) \<and> (fd_cbf e = Terminate_cbf \<longrightarrow> fd_num e = 1))"

text \<open>The descriptors of the RTSP connection and of the audio source.\<close>

definition session_fds :: "raopcl \<Rightarrow> fd list" where
  "session_fds c = (case rtsp c of None \<Rightarrow> [] | Some r \<Rightarrow> if rfd r > 0 then [rfd r] else [])"

definition source_fds :: "auds option \<Rightarrow> fd list" where
  "source_fds p = (case p of None \<Rightarrow> [] | Some a \<Rightarrow>
     if aud_type a = AUD_TYPE_PCM then (case stream a of None \<Rightarrow> []
       | Some pcm \<Rightarrow> filter (\<lambda>f. f \<ge> 0) [dfd pcm, sfd pcm]) else [])"

abbreviation table_kept :: "'a host_scheme \<Rightarrow> bool" where
  "table_kept w \<equiv> table_ok (fds w)"

interpretation above_table: above_os "table_kept :: 'a host_scheme \<Rightarrow> bool"
proof
  fix w w' :: "'a host_scheme"
  assume "os.more w = os.more w'"
  then show "table_kept w = table_kept w'" by (cases w; cases w') (simp add: host.defs)
qed

lemma table_set [keeps_rules]:
  assumes "cb = Console_read \<Longrightarrow> f = 0" and "cb = Terminate_cbf \<Longrightarrow> f = 1"
  shows "keeps table_kept (set_fd_event f fl cb)"
proof (rule keepsI)
  fix w :: "'a host_scheme"
  assume ok: "table_kept w"
  obtain r es where s: "set_slot f fl cb (fds w) = (r, es)" by force
  have "table_ok es"
    using s ok assms by (cases rule: set_slot_cases) (auto simp: table_ok_def slots_ok_def)
  then show "table_kept (snd (run_state (set_fd_event f fl cb) w))" by (simp add: set_fd_event_def s)
qed

lemma table_clear [keeps_rules]: "keeps table_kept (clear_fd_event f)"
proof (rule keepsI)
  fix w :: "'a host_scheme"
  assume ok: "table_kept w"
  obtain r es where s: "clear_slot f (fds w) = (r, es)" by force
  have "table_ok es"
    using s ok by (cases rule: clear_slot_cases) (auto simp: table_ok_def slots_ok_def free_slot_def split: if_splits)
  then show "table_kept (snd (run_state (clear_fd_event f) w))" by (simp add: clear_fd_event_def s)
qed

text \<open>The statics of the client and the key tables are no part of it.\<close>

lemma table_statics [keeps_rules]:
  "keeps table_kept (State (\<lambda>w :: 'a raop_host_scheme. (f w, w\<lparr>totalcount := g w\<rparr>)))"
  "keeps table_kept (State (\<lambda>w :: 'a raop_host_scheme. (f w, w\<lparr>seq_number := h w, first_packet := b w\<rparr>)))"
  "keeps table_kept (State (\<lambda>w :: 'a raop_host_scheme. case k w of (r, y, x) \<Rightarrow> (x, w\<lparr>crypto := y\<rparr>)))"
  by (simp_all add: keeps_def split: prod.split)

lemma table_client [keeps_rules]:
  "keeps table_kept (pcm_poll_next_sample a)" "keeps table_kept (auds_poll_next_sample a)"
  "keeps table_kept (fd_event_callback p fl)" "keeps table_kept (raopcl_send_sample p b)"
  "keeps table_kept (raopcl_set_pause p ps)" "keeps table_kept (raopcl_pause_check c)" "keeps table_kept raopcl_open"
  unfolding pcm_poll_next_sample_def auds_poll_next_sample_def fd_event_callback_def raopcl_send_sample_def send_udp_def
    send_tcp_def raopcl_count_samples_def raopcl_set_pause_def raopcl_pause_check_def raopcl_small_silent_def time_now_def
    raopcl_open_def
  by (intro keeps_rules; simp)+

subsection \<open>The player\<close>

lemma keeps_callback [keeps_rules]:
  "keeps P a \<Longrightarrow> keeps P b \<Longrightarrow> keeps P c \<Longrightarrow> keeps P d \<Longrightarrow>
   keeps P (case cb of No_callback \<Rightarrow> a | Console_read \<Rightarrow> b | Terminate_cbf \<Rightarrow> c | Fd_event_callback \<Rightarrow> d)"
  by (simp split: callback.split)

lemma keeps_phase [keeps_rules]:
  "(\<And>v. keeps P (a v)) \<Longrightarrow> keeps P b \<Longrightarrow> (\<And>v. keeps P (c v)) \<Longrightarrow> keeps P d \<Longrightarrow>
   keeps P (case ph of Looping v \<Rightarrow> a v | Sending \<Rightarrow> b | Finished v \<Rightarrow> c v | Undefined \<Rightarrow> d)"
  by (simp split: phase.split)

lemma table_commands [keeps_rules]:
  "keeps table_kept (set_pause d ps)" "keeps table_kept (play_command s d)" "keeps table_kept (stop_command d)"
  "keeps table_kept (volume_command s d)"
  unfolding set_pause_def play_command_def stop_command_def volume_command_def
  by (intro keeps_rules)+

lemma table_console [keeps_rules]: "keeps table_kept (console_read d)"
  unfolding console_read_def console_command_def by (intro keeps_rules)

lemma table_callbacks [keeps_rules]: "keeps table_kept (call_back cb fl d)" "keeps table_kept (sig_action sg d)"
  unfolding call_back_def sig_action_def by (intro keeps_rules; simp)+

lemma table_slots [keeps_rules]: "keeps table_kept (handle_slots js rd wr d)"
proof (induction js arbitrary: d)
  case (Cons i js)
  then show ?case unfolding handle_slots.simps dispatch_def slot_def by (intro keeps_rules)
qed (simp only: handle_slots.simps keeps_return)

lemma table_handler [keeps_rules]: "keeps table_kept (main_event_handler d)"
  unfolding main_event_handler_def check_songdone_def select_fds_def by (intro keeps_rules)

lemma table_exit [keeps_rules]: "keeps table_kept (main_exit h d v)"
  unfolding main_exit_def isActivated_def by (intro keeps_rules)

lemma table_step [keeps_rules]: "keeps table_kept (main_step h s)"
  unfolding main_step_def main_body_def case_no_pause_def send_next_def handle_events_def undefined_at_def isActivated_def
  by (intro keeps_rules)

lemma table_start [keeps_rules]: "keeps table_kept (main_start rsa h opts d)"
  unfolding main_start_def or_exit_def undefined_at_def by (intro keeps_rules; simp)

lemma table_setup:
  assumes "run_state (main_setup rsa h opts) w = ((ph, d), w')" and "ph \<noteq> Undefined"
  shows "table_kept w'"
proof -
  obtain p w1 where p: "run_state (sys (Malloc_call 72)) w = (p, w1)" by force
  have "p \<noteq> 0" using assms p by (auto simp: main_setup_def undefined_at_def Let_def)
  then have "run_state (main_start rsa h opts \<lparr>client = None, player_auds = None\<rparr>) (w1\<lparr>fds := empty_slots\<rparr>) =
      ((ph, d), w')"
    using assms(1) p by (simp add: main_setup_def Let_def)
  moreover have "table_ok empty_slots"
    by (simp add: table_ok_def slots_ok_def empty_slots_def MAX_NUM_OF_FDS_def free_slot_def)
  ultimately show ?thesis
    using keepsD [OF table_start [of rsa h opts "\<lparr>client = None, player_auds = None\<rparr>"], of "w1\<lparr>fds := empty_slots\<rparr>"]
    by simp
qed

lemma undefined_stays: "run_state (main_step h (Undefined, d)) w = ((Undefined, d), w)"
  by (simp add: main_step_def)


subsection \<open>Stopping\<close>

lemma run_close:
  "\<exists>w'. run_state (raopcl_close (Some c)) w = (Some 0, w') \<and>
     (\<exists>es. trace w' = trace w @ es \<and> closed_fds es = session_fds c)"
  by (auto simp: raopcl_close_def rtspcl_close_def rtspcl_disconnect_def rtspcl_remove_all_exthds_def session_fds_def
      closed_fds_def split: option.split)

lemma run_auds_close:
  "\<exists>w'. run_state (auds_close a) w = (0, w') \<and>
     (\<exists>es. trace w' = trace w @ es \<and> closed_fds es = source_fds (Some a))"
  by (auto simp: auds_close_def pcm_close_def source_fds_def closed_fds_def Let_def split: option.split data_type.split)

lemma closed_fds_append: "closed_fds (a @ b) = closed_fds a @ closed_fds b"
  by (simp add: closed_fds_def)

lemma run_isActivated:
  "\<exists>r w'. run_state (isActivated h) w = (r, w') \<and> trace w' = trace w @ [Active_call h]"
  by (auto simp: isActivated_def sys_def split: list.split)

lemma run_main_exit:
  "\<exists>w' es. run_state (main_exit h d v) w = ((Finished v, d), w') \<and> trace w' = trace w @ es \<and>
     closed_fds es = source_fds (player_auds d)"
proof -
  let ?close = "case player_auds d of None \<Rightarrow> State_Monad.return 0 | Some a \<Rightarrow> auds_close a"
  obtain r w1 es where c: "run_state ?close w = (r, w1)" "trace w1 = trace w @ es"
      "closed_fds es = source_fds (player_auds d)"
    using run_auds_close [of "the (player_auds d)" w] by (cases "player_auds d") (auto simp: source_fds_def closed_fds_def)
  obtain x w2 where "run_state (isActivated h) (w1\<lparr>trace := trace w1 @ [Free_call 3]\<rparr>) = (x, w2)" "trace w2 = trace w1 @ [Free_call 3, Active_call h]"
    using run_isActivated [of h "w1\<lparr>trace := trace w1 @ [Free_call 3]\<rparr>"] by auto
  then show ?thesis
    using c by (auto simp: main_exit_def closed_fds_append closed_fds_def intro!: exI [of _ "es @ [Free_call 3, Active_call h]"])
qed

lemma loop_test_ends:
  assumes "client d = Some c" and "rval \<noteq> 0 \<or> answers w = a # as \<and> a \<noteq> 1"
  shows "\<exists>w' es. run_state (main_step host (Looping rval, d)) w = ((Finished 0, d), w') \<and> trace w' = trace w @ es \<and>
    closed_fds es = session_fds c @ source_fds (player_auds d)"
proof -
  let ?test = "if rval = 0 then isActivated host else State_Monad.return 0"
  obtain act w1 e1 where t: "run_state ?test w = (act, w1)" "trace w1 = trace w @ e1" "closed_fds e1 = []"
      and no: "\<not> (rval = 0 \<and> act = 1)"
  proof (cases "rval = 0")
    case True
    then have "run_state ?test w = (0, w\<lparr>answers := as, trace := trace w @ [Active_call host]\<rparr>)"
      using assms(2) by (simp add: isActivated_def sys_def)
    then show ?thesis by (rule that [of _ _ "[Active_call host]"]) (simp_all add: closed_fds_def)
  next
    case False
    then show ?thesis using that [of 0 w "[]"] by (simp add: closed_fds_def)
  qed
  obtain w2 e2 where c: "run_state (raopcl_close (Some c)) w1 = (Some 0, w2)" "trace w2 = trace w1 @ e2"
      "closed_fds e2 = session_fds c"
    using run_close by blast
  obtain w3 e3 where x: "run_state (main_exit host d 0) w2 = ((Finished 0, d), w3)" "trace w3 = trace w2 @ e3"
      "closed_fds e3 = source_fds (player_auds d)"
    using run_main_exit by blast
  have "run_state (main_step host (Looping rval, d)) w = ((Finished 0, d), w3)"
    using t(1) no c(1) x(1) assms(1) unfolding main_step_def by auto
  moreover have "trace w3 = trace w @ e1 @ e2 @ e3" "closed_fds (e1 @ e2 @ e3) = session_fds c @ source_fds (player_auds d)"
    using t c x by (simp_all add: closed_fds_append)
  ultimately show ?thesis by blast
qed

lemma handle_slots_quiet: "run_state (handle_slots js [] [] d) w = (Some (0, d), w)"
  by (induction js) (simp_all add: slot_def dispatch_def then_ok_def)

lemma sending_quiet:
  assumes "client d = Some c" and "songdone c = 0" and "pause c = NO_PAUSE" and "wblk_remsize c \<noteq> 0"
    and "player_auds d \<noteq> None" and "answers w = 0 # as"
  shows "\<exists>rd wr. run_state (main_step host (Sending, d)) w =
    ((Sending, d), w\<lparr>answers := as, trace := trace w @ [Select_call rd wr (MAIN_EVENT_TIMEOUT, 0)]\<rparr>)"
proof -
  have "d\<lparr>client := Some c\<rparr> = d" using assms(1) by simp
  then show ?thesis
    using assms by (auto simp: main_step_def main_event_handler_def raopcl_wait_songdone_def select_fds_def sys_def
        handle_slots_quiet then_ok_def check_songdone_def raopcl_pause_check_def raopcl_sample_remsize_def)
qed

text \<open>A stop is not seen while a packet waits to be written: as long as no descriptor becomes ready the player
  stays in the inner loop, for any number of rounds, and never asks the application whether to go on.\<close>

lemma stop_waits_for_packet:
  assumes "client d = Some c" and "songdone c = 0" and "pause c = NO_PAUSE" and "wblk_remsize c \<noteq> 0"
    and "player_auds d \<noteq> None" and "answers w = replicate n 0 @ as"
  shows "\<exists>w' es. run_state (run_main n host (Sending, d)) w = ((Sending, d), w') \<and> trace w' = trace w @ es \<and>
    Active_call host \<notin> set es"
  using assms(6)
proof (induction n arbitrary: w)
  case (Suc n)
  then have "answers w = 0 # (replicate n 0 @ as)" by simp
  from sending_quiet [OF assms(1-5) this, of host] obtain rd wr where s: "run_state (main_step host (Sending, d)) w =
      ((Sending, d), w\<lparr>answers := replicate n 0 @ as, trace := trace w @ [Select_call rd wr (MAIN_EVENT_TIMEOUT, 0)]\<rparr>)"
    by blast
  from Suc.IH [of "w\<lparr>answers := replicate n 0 @ as, trace := trace w @ [Select_call rd wr (MAIN_EVENT_TIMEOUT, 0)]\<rparr>"]
  show ?case using s by fastforce
qed simp


end
