(* ===== verification/JavaText.thy ===== *)
theory JavaText
  imports Prelude
begin

text \<open>
  Text of the Java part: a string is a list of sixteen-bit characters.  The conversions of the Java library that the
  code uses: hexadecimal and decimal numbers, trimming and splitting.
\<close>

type_synonym jchar = u16
type_synonym jstring = "jchar list"

text \<open>A literal of the source.\<close>

definition J :: "string \<Rightarrow> jstring" where
  "J s = map (\<lambda>c. of_nat (of_char c)) s"

subsection \<open>Numbers\<close>

definition hex_char :: "nat \<Rightarrow> jchar" where
  "hex_char d = of_nat (if d < 10 then 48 + d else 87 + d)"

text \<open>\<open>Integer.toHexString\<close> of a character.\<close>

fun toHexString :: "nat \<Rightarrow> jstring" where
  "toHexString n = (if n < 16 then [hex_char n] else toHexString (n div 16) @ [hex_char (n mod 16)])"

declare toHexString.simps [simp del]

text \<open>\<open>Character.digit (c, radix)\<close> on the letters and digits below 128.\<close>

definition digit_of :: "nat \<Rightarrow> jchar \<Rightarrow> nat option" where
  "digit_of radix c =
     (let v = (if 48 \<le> c \<and> c \<le> 57 then Some (unat c - 48)
               else if 97 \<le> c \<and> c \<le> 122 then Some (unat c - 87)
               else if 65 \<le> c \<and> c \<le> 90 then Some (unat c - 55) else None)
      in case v of None \<Rightarrow> None | Some d \<Rightarrow> if d < radix then Some d else None)"

fun digits_from :: "nat \<Rightarrow> nat \<Rightarrow> jstring \<Rightarrow> nat option" where
  "digits_from radix acc [] = Some acc"
| "digits_from radix acc (c # s) =
     (case digit_of radix c of None \<Rightarrow> None | Some d \<Rightarrow> digits_from radix (acc * radix + d) s)"

text \<open>\<open>Integer.parseInt (s, radix)\<close>: digits with an optional minus, in the range of 32 bits.  \<open>None\<close> is
  the exception.\<close>

definition parseInt :: "nat \<Rightarrow> jstring \<Rightarrow> int option" where
  "parseInt radix s =
     (let neg = (s \<noteq> [] \<and> hd s = 45); ds = (if neg then tl s else s)
      in if ds = [] then None
         else case digits_from radix 0 ds of
                None \<Rightarrow> None
              | Some n \<Rightarrow>
                  let v = (if neg then - int n else int n)
                  in if - (2 ^ 31) \<le> v \<and> v < 2 ^ 31 then Some v else None)"

fun decimal :: "nat \<Rightarrow> jstring" where
  "decimal n = (if n < 10 then [hex_char n] else decimal (n div 10) @ [hex_char (n mod 10)])"

declare decimal.simps [simp del]

text \<open>\<open>Integer.toString\<close>.\<close>

definition toString :: "int \<Rightarrow> jstring" where
  "toString v = (if v < 0 then 45 # decimal (nat (- v)) else decimal (nat v))"

subsection \<open>Strings\<close>

text \<open>\<open>trim\<close> cuts everything up to the blank.\<close>

definition jtrim :: "jstring \<Rightarrow> jstring" where
  "jtrim s = rev (dropWhile (\<lambda>c. c \<le> 32) (rev (dropWhile (\<lambda>c. c \<le> 32) s)))"

text \<open>\<open>split\<close> at a character: the parts between its occurrences, without empty ones at the end; a string
  without it is the only part.\<close>

fun parts :: "jchar \<Rightarrow> jstring \<Rightarrow> jstring list" where
  "parts d [] = [[]]"
| "parts d (c # s) = (if c = d then [] # parts d s else (c # hd (parts d s)) # tl (parts d s))"

definition jsplit :: "jchar \<Rightarrow> jstring \<Rightarrow> jstring list" where
  "jsplit d s = (if d \<in> set s then rev (dropWhile (\<lambda>p. p = []) (rev (parts d s))) else [s])"

subsection \<open>Laws\<close>

lemma unat_hex_char: "d < 16 \<Longrightarrow> unat (hex_char d) = (if d < 10 then 48 + d else 87 + d)"
  unfolding hex_char_def unat_of_nat by (simp split: if_split)

lemma digit_hex_char: "d < 16 \<Longrightarrow> digit_of 16 (hex_char d) = Some d"
  by (simp add: digit_of_def word_le_nat_alt unat_hex_char Let_def)

lemma digit_dec_char: "d < 10 \<Longrightarrow> digit_of 10 (hex_char d) = Some d"
  by (simp add: digit_of_def word_le_nat_alt unat_hex_char Let_def)

lemma digits_from_append:
  "digits_from r acc (s @ t) = (case digits_from r acc s of None \<Rightarrow> None | Some n \<Rightarrow> digits_from r n t)"
  by (induction r acc s rule: digits_from.induct) (auto split: option.split)

lemma digits_from_hex: "digits_from 16 0 (toHexString n) = Some n"
proof (induction n rule: toHexString.induct)
  case (1 n)
  then show ?case by (simp add: toHexString.simps [of n] digits_from_append digit_hex_char)
qed

lemma digits_from_dec: "digits_from 10 0 (decimal n) = Some n"
proof (induction n rule: decimal.induct)
  case (1 n)
  then show ?case by (simp add: decimal.simps [of n] digits_from_append digit_dec_char)
qed

lemma decimal_not_minus: "decimal n \<noteq> [] \<and> hd (decimal n) \<noteq> 45"
proof (induction n rule: decimal.induct)
  case (1 n)
  have h: "d < 10 \<Longrightarrow> hex_char d \<noteq> 45" for d using unat_hex_char [of d] by auto
  have "hex_char (n mod 10) \<noteq> 45" by (rule h) simp
  moreover note h [of n]
  ultimately show ?case using 1 by (simp add: decimal.simps [of n] hd_append)
qed

text \<open>Numbers printed in decimal are read back.\<close>

lemma parseInt_toString:
  assumes "- (2 ^ 31) \<le> v" and "v < 2 ^ 31"
  shows "parseInt 10 (toString v) = Some v"
  using assms decimal_not_minus [of "nat v"] decimal_not_minus [of "nat (- v)"]
  by (auto simp: parseInt_def toString_def digits_from_dec Let_def)

end
