(* ===== verification/PropertyManager.thy ===== *)
theory PropertyManager
  imports JavaText "HOL-Library.AList"
begin

text \<open>
  The properties of the services, \<^verbatim>\<open>src/src/com/nixus/raop/core/PropertyManager.java\<close>.  A line of the
  file is a \<open>Prop\<close>, read from text and written back.  \<open>ServiceProperties\<close> keeps the lines in order and a map from
  keys to them; both refer to the same objects, which are changed in place, so the objects have addresses and
  \<open>cells\<close> is the store.  \<open>None\<close> is a null value, and for a whole operation an exception.
\<close>

subsection \<open>A property\<close>

text \<open>\<open>Character.isUnicodeIdentifierPart\<close>, with the characters from 128 on as a parameter.\<close>

definition unicode_part :: "(jchar \<Rightarrow> bool) \<Rightarrow> jchar \<Rightarrow> bool" where
  "unicode_part uni c =
     (if c < 128
      then 65 \<le> c \<and> c \<le> 90 \<or> 97 \<le> c \<and> c \<le> 122 \<or> 48 \<le> c \<and> c \<le> 57 \<or> c = 95 \<or>
           c \<le> 8 \<or> 14 \<le> c \<and> c \<le> 27 \<or> c = 127
      else uni c)"

definition special_chars :: jstring where
  "special_chars = [91, 93, 33, 64, 0xA3, 36, 37, 94, 38, 42, 40, 41, 45, 43, 60, 62, 44, 46, 47, 63, 126, 0x20AC,
     124, 34, 92, 39]"

definition isIdentifierPart :: "(jchar \<Rightarrow> bool) \<Rightarrow> jchar \<Rightarrow> bool" where
  "isIdentifierPart uni c \<longleftrightarrow> unicode_part uni c \<or> c \<in> set special_chars"

record prop_line =
  pkey :: "jstring option"
  pvalue :: "jstring option"
  pcomment :: jstring
  preadonly :: bool
  pline :: int

text \<open>The readers take the rest of the line and return what is left of it.\<close>

definition readSpaces :: "jstring \<Rightarrow> jstring" where
  "readSpaces s = dropWhile (\<lambda>c. c = 32 \<or> c = 9) s"

text \<open>\<open>\u\<close> and four digits are a character; anything else after \<open>\u\<close> leaves the \<open>u\<close>.\<close>

fun readQuotedString ::
  "(jchar \<Rightarrow> bool) \<Rightarrow> jstring \<Rightarrow> jchar \<Rightarrow> jstring \<Rightarrow> (jstring \<times> jstring) option" where
  "readQuotedString uni [] q sb = (if q \<noteq> 0 then None else Some (sb, []))"
| "readQuotedString uni (c # s) q sb =
     (if isIdentifierPart uni c \<or> q \<noteq> 0 then
        if c = 92 then
          (case s of
             [] \<Rightarrow> None
           | d # t \<Rightarrow>
               if d = 110 then readQuotedString uni t q (sb @ [10])
               else if d = 114 then readQuotedString uni t q (sb @ [13])
               else if d = 116 then readQuotedString uni t q (sb @ [9])
               else if d = 117 then
                 (case (if length t \<ge> 4 then parseInt 16 (take 4 t) else None) of
                    Some v \<Rightarrow> readQuotedString uni (drop 4 t) q (sb @ [of_int v])
                  | None \<Rightarrow> readQuotedString uni t q (sb @ [d]))
               else readQuotedString uni t q (sb @ [d]))
        else if (c = 39 \<or> c = 34) \<and> (q = 0 \<or> q = c) then
          readQuotedString uni s (if q = 0 then c else 0) sb
        else readQuotedString uni s q (sb @ [c])
      else Some (sb, c # s))"

definition escape :: "jchar \<Rightarrow> jstring" where
  "escape c =
     (if c = 10 then [92, 110]
      else if c = 13 then [92, 114]
      else if c = 34 then [92, 34]
      else if c < 32 \<or> c \<ge> 128
      then let t = J ''000'' @ toHexString (unat c) in [92, 117] @ drop (length t - 4) t
      else [c])"

definition needsquote :: "(jchar \<Rightarrow> bool) \<Rightarrow> jstring \<Rightarrow> bool" where
  "needsquote uni s \<longleftrightarrow> (\<exists>c \<in> set s. \<not> isIdentifierPart uni c)"

definition quote :: "(jchar \<Rightarrow> bool) \<Rightarrow> jstring \<Rightarrow> jstring" where
  "quote uni s =
     (if needsquote uni s then [34] @ concat (map escape s) @ [34] else concat (map escape s))"

text \<open>\<open>new Prop (s)\<close>.  After a colon the equals sign is only looked for when more than two characters are
  left.\<close>

definition read_value :: "(jchar \<Rightarrow> bool) \<Rightarrow> jstring \<Rightarrow> bool \<Rightarrow> jstring \<Rightarrow> prop_line option" where
  "read_value uni key ro s = (case readQuotedString uni (readSpaces s) 0 [] of
       None \<Rightarrow> None
     | Some (v, rest) \<Rightarrow>
         let r = readSpaces rest
         in if r = [] \<or> hd r = 35
            then Some \<lparr>pkey = Some key, pvalue = Some v, pcomment = rest, preadonly = ro, pline = 0\<rparr>
            else None)"

definition read_prop :: "(jchar \<Rightarrow> bool) \<Rightarrow> jstring \<Rightarrow> prop_line option" where
  "read_prop uni s = (case readQuotedString uni (readSpaces s) 0 [] of
       None \<Rightarrow> None
     | Some (k, rest) \<Rightarrow>
         if k = [] then Some \<lparr>pkey = None, pvalue = None, pcomment = s, preadonly = False, pline = 0\<rparr>
         else (case readSpaces rest of
             [] \<Rightarrow> None
           | c # t \<Rightarrow>
               if c = 61 then read_value uni k False t
               else if c = 58 \<and> length t > 2 \<and> hd t = 61 then read_value uni k True (tl t)
               else None))"

definition text_of_prop :: "(jchar \<Rightarrow> bool) \<Rightarrow> prop_line \<Rightarrow> jstring" where
  "text_of_prop uni p = (case pkey p of
       None \<Rightarrow> pcomment p
     | Some k \<Rightarrow> quote uni k @ (if preadonly p then J '' := '' else J '' = '') @
         quote uni (case pvalue p of None \<Rightarrow> [] | Some v \<Rightarrow> v) @ pcomment p)"

subsection \<open>The properties of a service\<close>

record service_props =
  cells :: "prop_line list"
  sp_lines :: "nat list"
  sp_props :: "(jstring \<times> nat) list"
  permanent :: bool
  servicename :: "jstring option"
  classname :: jstring

definition new_service_props :: "jstring option \<Rightarrow> jstring \<Rightarrow> bool \<Rightarrow> service_props" where
  "new_service_props name cname perm = (case name of
       None \<Rightarrow> \<lparr>cells = [], sp_lines = [], sp_props = [], permanent = perm, servicename = None,
         classname = cname\<rparr>
     | Some n \<Rightarrow> \<lparr>cells = [\<lparr>pkey = None, pvalue = None, pcomment = J ''['' @ n @ J '' '' @ cname @ J '']'',
           preadonly = True, pline = 0\<rparr>],
         sp_lines = [0], sp_props = [], permanent = perm, servicename = name, classname = cname\<rparr>)"

text \<open>A new object at the end of the store.\<close>

definition addLine :: "(jchar \<Rightarrow> bool) \<Rightarrow> jstring \<Rightarrow> service_props \<Rightarrow> service_props option" where
  "addLine uni line sp = (case read_prop uni line of
       None \<Rightarrow> None
     | Some p \<Rightarrow>
         let a = length (cells sp);
             p = p\<lparr>pline := int (length (sp_lines sp))\<rparr>
         in Some (sp\<lparr>cells := cells sp @ [p], sp_lines := sp_lines sp @ [a],
              sp_props := (case pkey p of None \<Rightarrow> sp_props sp | Some k \<Rightarrow> AList.update k a (sp_props sp))\<rparr>))"

definition close_props :: "(jchar \<Rightarrow> bool) \<Rightarrow> service_props \<Rightarrow> service_props" where
  "close_props uni sp = sp\<lparr>sp_lines :=
     rev (dropWhile (\<lambda>a. text_of_prop uni (cells sp ! a) = []) (rev (sp_lines sp)))\<rparr>"

definition set_cell :: "nat \<Rightarrow> (prop_line \<Rightarrow> prop_line) \<Rightarrow> prop_line list \<Rightarrow> prop_line list" where
  "set_cell a f cs = cs[a := f (cs ! a)]"

text \<open>The line is taken out by the number its object has, and the numbers behind it are counted down.\<close>

definition remove_prop :: "jstring \<Rightarrow> nat \<Rightarrow> service_props \<Rightarrow> service_props option" where
  "remove_prop key a sp =
     (let l = pline (cells sp ! a) in
      if l < 0 \<or> l \<ge> int (length (sp_lines sp)) then None
      else
        let ls = take (nat l) (sp_lines sp) @ drop (Suc (nat l)) (sp_lines sp)
        in Some (sp\<lparr>sp_props := AList.delete key (sp_props sp), sp_lines := ls,
             cells := fold (\<lambda>b. set_cell b (\<lambda>p. p\<lparr>pline := pline p - 1\<rparr>)) (drop (nat l) ls) (cells sp)\<rparr>))"

definition put_prop :: "jstring \<Rightarrow> jstring option \<Rightarrow> service_props \<Rightarrow> (bool \<times> service_props) option" where
  "put_prop key value sp = (case map_of (sp_props sp) key of
       None \<Rightarrow> (case value of
           None \<Rightarrow> Some (False, sp)
         | Some v \<Rightarrow>
             let a = length (cells sp)
             in Some (permanent sp, sp\<lparr>
                  cells := cells sp @ [\<lparr>pkey = Some key, pvalue = Some v, pcomment = [], preadonly = False,
                    pline = int (length (sp_lines sp))\<rparr>],
                  sp_lines := sp_lines sp @ [a], sp_props := AList.update key a (sp_props sp)\<rparr>))
     | Some a \<Rightarrow> (case value of
           None \<Rightarrow> map_option (Pair (permanent sp)) (remove_prop key a sp)
         | Some v \<Rightarrow>
             if \<not> preadonly (cells sp ! a) \<and> pvalue (cells sp ! a) \<noteq> Some v
             then Some (permanent sp, sp\<lparr>cells := set_cell a (\<lambda>p. p\<lparr>pvalue := Some v\<rparr>) (cells sp)\<rparr>)
             else Some (False, sp)))"

definition get_prop :: "jstring \<Rightarrow> service_props \<Rightarrow> jstring option" where
  "get_prop key sp =
     (if servicename sp \<noteq> None \<and> key = J ''name'' then servicename sp
      else if servicename sp \<noteq> None \<and> key = J ''class'' then Some (classname sp)
      else case map_of (sp_props sp) key of None \<Rightarrow> None | Some a \<Rightarrow> pvalue (cells sp ! a))"

definition keySet :: "service_props \<Rightarrow> jstring list" where
  "keySet sp = map fst (sp_props sp)"

definition write_props :: "(jchar \<Rightarrow> bool) \<Rightarrow> service_props \<Rightarrow> jstring list" where
  "write_props uni sp = map (\<lambda>a. text_of_prop uni (cells sp ! a)) (sp_lines sp)"

subsection \<open>The properties of all services\<close>

record manager =
  all_props :: "(jstring option \<times> service_props) list"
  propertiesdirty :: bool

definition new_manager :: manager where
  "new_manager = \<lparr>all_props = [], propertiesdirty = False\<rparr>"

text \<open>The body of \<open>queuewrite\<close> is commented out.\<close>

definition queuewrite :: "manager \<Rightarrow> manager" where
  "queuewrite m = m"

text \<open>No file is ever set, so that writing would fail.\<close>

definition write_all :: "manager \<Rightarrow> manager option" where
  "write_all m = (if propertiesdirty m then None else Some m)"

definition put_service :: "jstring option \<Rightarrow> service_props \<Rightarrow> manager \<Rightarrow> manager" where
  "put_service name sp m = m\<lparr>all_props := AList.update name sp (all_props m)\<rparr>"

fun put_each :: "(jstring \<times> jstring option) list \<Rightarrow> service_props \<Rightarrow> service_props option" where
  "put_each [] sp = Some sp"
| "put_each ((k, v) # es) sp = (case put_prop k v sp of None \<Rightarrow> None | Some (b, sp) \<Rightarrow> put_each es sp)"

definition create_service ::
  "jstring option \<Rightarrow> jstring \<Rightarrow> (jstring \<times> jstring option) list \<Rightarrow> bool \<Rightarrow> manager \<Rightarrow> manager option" where
  "create_service name cname properties perm m =
     (if map_of (all_props m) name \<noteq> None then None
      else case put_each properties (new_service_props name cname perm) of
             None \<Rightarrow> None
           | Some sp \<Rightarrow>
               let m = put_service name sp m in Some (if perm then queuewrite m else m))"

definition remove_service :: "jstring option \<Rightarrow> manager \<Rightarrow> manager" where
  "remove_service key m = m\<lparr>all_props := AList.delete key (all_props m)\<rparr>"

definition isPermanent :: "jstring option \<Rightarrow> manager \<Rightarrow> bool" where
  "isPermanent name m = (case map_of (all_props m) name of None \<Rightarrow> False | Some sp \<Rightarrow> permanent sp)"

definition get_property :: "jstring option \<Rightarrow> jstring \<Rightarrow> manager \<Rightarrow> jstring option" where
  "get_property name key m = (case map_of (all_props m) name of None \<Rightarrow> None | Some sp \<Rightarrow> get_prop key sp)"

text \<open>The properties without a service; there are none, which is a null pointer.\<close>

definition get_global :: "jstring \<Rightarrow> manager \<Rightarrow> jstring option option" where
  "get_global key m = map_option (get_prop key) (map_of (all_props m) None)"

text \<open>An unknown service is a null pointer.\<close>

definition put_property :: "jstring option \<Rightarrow> jstring \<Rightarrow> jstring option \<Rightarrow> manager \<Rightarrow> manager option" where
  "put_property name key value m = (case map_of (all_props m) name of
       None \<Rightarrow> None
     | Some sp \<Rightarrow> (case put_prop key value sp of
         None \<Rightarrow> None
       | Some (changed, sp) \<Rightarrow>
           let m = put_service name sp m
           in Some (if changed \<and> permanent sp then queuewrite m else m)))"

definition getNames :: "jstring option \<Rightarrow> manager \<Rightarrow> jstring list option" where
  "getNames name m = map_option keySet (map_of (all_props m) name)"

definition init_manager :: "manager \<Rightarrow> manager" where
  "init_manager m = fold (\<lambda>(n, c). put_service (Some (J n)) (new_service_props (Some (J n)) (J c) True))
     [(''zeroconffactory'', ''com.nixus.raop.zeroconf.ZeroConfFactory''),
      (''airportfactory'', ''com.nixus.raop.speaker.airport.Finder''),
      (''main'', ''com.nixus.raop.player.PlayerImpl'')] m"

subsection \<open>What is proved of them\<close>

text \<open>Texts that survive being written and read: no backslash, and an apostrophe only where the text is quoted
  anyway.\<close>

definition plain_text :: "(jchar \<Rightarrow> bool) \<Rightarrow> jstring \<Rightarrow> bool" where
  "plain_text uni s \<longleftrightarrow> 92 \<notin> set s \<and> (39 \<in> set s \<longrightarrow> needsquote uni s)"

definition plain_comment :: "jstring \<Rightarrow> bool" where
  "plain_comment c \<longleftrightarrow> c = [] \<or> (\<exists>n t. c = replicate (Suc n) 32 @ 35 # t)"

definition plain_prop :: "(jchar \<Rightarrow> bool) \<Rightarrow> prop_line \<Rightarrow> bool" where
  "plain_prop uni p \<longleftrightarrow> (\<exists>k v. pkey p = Some k \<and> pvalue p = Some v \<and> k \<noteq> [] \<and> plain_text uni k \<and> plain_text uni v \<and>
     plain_comment (pcomment p) \<and> (v = [] \<longrightarrow> pcomment p = [] \<and> \<not> preadonly p))"

text \<open>The invariant of the store: the lines are distinct objects, every object knows its line number, and the map
  leads to lines with that key and a value.\<close>

definition lines_ok :: "nat list \<Rightarrow> prop_line list \<Rightarrow> bool" where
  "lines_ok ls cs \<longleftrightarrow> distinct ls \<and> set ls \<subseteq> {..<length cs} \<and> (\<forall>i < length ls. pline (cs ! (ls ! i)) = int i)"

definition map_ok :: "(jstring \<rightharpoonup> nat) \<Rightarrow> nat list \<Rightarrow> prop_line list \<Rightarrow> bool" where
  "map_ok m ls cs \<longleftrightarrow>
     (\<forall>k a. m k = Some a \<longrightarrow> a \<in> set ls \<and> pkey (cs ! a) = Some k \<and> pvalue (cs ! a) \<noteq> None)"

definition props_ok :: "service_props \<Rightarrow> bool" where
  "props_ok sp \<longleftrightarrow> lines_ok (sp_lines sp) (cells sp) \<and> map_ok (map_of (sp_props sp)) (sp_lines sp) (cells sp) \<and>
     distinct (map fst (sp_props sp))"

definition value_at :: "service_props \<Rightarrow> jstring \<Rightarrow> jstring option" where
  "value_at sp k = (case map_of (sp_props sp) k of None \<Rightarrow> None | Some a \<Rightarrow> pvalue (cells sp ! a))"

definition fixed_at :: "service_props \<Rightarrow> jstring \<Rightarrow> bool" where
  "fixed_at sp k = (case map_of (sp_props sp) k of None \<Rightarrow> False | Some a \<Rightarrow> preadonly (cells sp ! a))"

definition manager_ok :: "manager \<Rightarrow> bool" where
  "manager_ok m \<longleftrightarrow> (\<forall>name sp. map_of (all_props m) name = Some sp \<longrightarrow> props_ok sp \<and> servicename sp = name)"

text \<open>Everything that changes the properties of a service, in any order.\<close>

datatype props_op = Add_line jstring | Close_props | Put_prop jstring "jstring option"

fun props_step :: "(jchar \<Rightarrow> bool) \<Rightarrow> props_op \<Rightarrow> service_props \<Rightarrow> service_props option" where
  "props_step uni (Add_line l) sp = addLine uni l sp"
| "props_step uni Close_props sp = Some (close_props uni sp)"
| "props_step uni (Put_prop k v) sp = map_option snd (put_prop k v sp)"

fun props_run :: "(jchar \<Rightarrow> bool) \<Rightarrow> props_op list \<Rightarrow> service_props \<Rightarrow> service_props option" where
  "props_run uni [] sp = Some sp"
| "props_run uni (x # xs) sp = Option.bind (props_step uni x sp) (props_run uni xs)"

text \<open>The two names that every service answers itself.\<close>

definition own_keys :: "jstring set" where
  "own_keys = {J ''name'', J ''class''}"

subsection \<open>Reading and writing a property\<close>

lemma special_ident:
  "isIdentifierPart uni 92" "isIdentifierPart uni 34" "isIdentifierPart uni 39"
  "\<not> isIdentifierPart uni 32" "\<not> isIdentifierPart uni 9" "\<not> isIdentifierPart uni 35" "\<not> isIdentifierPart uni 61"
  "\<not> isIdentifierPart uni 58"
  by (simp_all add: isIdentifierPart_def special_chars_def unicode_part_def)

lemma length_hex: "n < 16 ^ Suc k \<Longrightarrow> length (toHexString n) \<le> Suc k"
proof (induction k arbitrary: n)
  case (Suc k)
  then have "n div 16 < 16 ^ Suc k" by (simp add: div_less_iff_less_mult)
  from Suc.IH [OF this] show ?case by (simp add: toHexString.simps [of n])
qed (simp add: toHexString.simps)

lemma hex_not_minus: "toHexString n \<noteq> [] \<and> 45 \<notin> set (toHexString n)"
proof (induction n rule: toHexString.induct)
  case (1 n)
  have "d < 16 \<Longrightarrow> hex_char d \<noteq> 45" for d using unat_hex_char [of d] by (auto split: if_splits)
  then have "hex_char (n mod 16) \<noteq> 45" "n < 16 \<Longrightarrow> hex_char n \<noteq> 45" by simp_all
  with 1 show ?case by (auto simp: toHexString.simps [of n])
qed

lemma digits_zeros: "digits_from 16 0 (replicate k 48 @ s) = digits_from 16 0 s"
  by (induction k) (simp_all add: digit_of_def)

lemma hex4:
  fixes c :: jchar
  obtains h where "drop (length (J ''000'' @ toHexString (unat c)) - 4) (J ''000'' @ toHexString (unat c)) = h"
    and "length h = 4" and "parseInt 16 h = Some (int (unat c))"
proof -
  let ?h = "toHexString (unat c)"
  define k where "k = 4 - length ?h"
  have c: "unat c < 65536" using unsigned_less [of c, where ?'a = nat] by simp
  then have l: "length ?h \<le> 4" "?h \<noteq> []" "45 \<notin> set ?h"
    using length_hex [of "unat c" 3] hex_not_minus [of "unat c"] by simp_all
  have z: "J ''000'' = replicate 3 48" by (simp add: J_def eval_nat_numeral)
  have d: "drop (length (J ''000'' @ ?h) - 4) (J ''000'' @ ?h) = replicate k 48 @ ?h"
    using l(1) \<open>?h \<noteq> []\<close> unfolding z k_def by (cases ?h) (auto simp flip: replicate_add)
  have "hd ?h \<noteq> 45" using hd_in_set [OF l(2)] l(3) by metis
  then have m: "hd (replicate k 48 @ ?h) \<noteq> 45" using l(2) by (cases k) simp_all
  have "parseInt 16 (replicate k 48 @ ?h) = Some (int (unat c))"
    using l(2) m unsigned_less [of c, where ?'a = int] order_trans [OF _ unsigned_greater_eq [of c, where ?'a = int]]
    by (auto simp: parseInt_def digits_zeros digits_from_hex Let_def)
  then show thesis using l(1) by (intro that [OF d]) (simp_all add: k_def)
qed

lemma read_escape:
  assumes "c \<noteq> 92" and "q = 34 \<or> q = 0 \<and> isIdentifierPart uni c \<and> c \<noteq> 39"
  shows "readQuotedString uni (escape c @ s) q sb = readQuotedString uni s q (sb @ [c])"
proof (cases "c = 10 \<or> c = 13 \<or> c = 34 \<or> \<not> (c < 32 \<or> c \<ge> 128)")
  case True
  then show ?thesis using assms by (auto simp: escape_def special_ident)
next
  case False
  obtain h where h: "drop (length (J ''000'' @ toHexString (unat c)) - 4) (J ''000'' @ toHexString (unat c)) = h"
      "length h = 4" "parseInt 16 h = Some (int (unat c))" by (rule hex4)
  have "escape c = [92, 117] @ h" using False h(1) unfolding escape_def by (auto simp: Let_def)
  then show ?thesis using assms h(2,3) by (simp add: special_ident)
qed

lemma read_escapes:
  assumes "92 \<notin> set t" and "q = 34 \<or> q = 0 \<and> \<not> needsquote uni t \<and> 39 \<notin> set t"
  shows "readQuotedString uni (concat (map escape t) @ s) q sb = readQuotedString uni s q (sb @ t)"
  using assms
  by (induction t arbitrary: sb) (auto simp: read_escape needsquote_def)

lemma read_quote:
  assumes "plain_text uni t" and "s = [] \<or> \<not> isIdentifierPart uni (hd s)"
  shows "readQuotedString uni (quote uni t @ s) 0 [] = Some (t, s)"
proof (cases "needsquote uni t")
  case True
  then show ?thesis
    using assms read_escapes [of t 34 uni "34 # s" "[]"]
    by (cases s) (simp_all add: quote_def plain_text_def special_ident)
next
  case False
  then show ?thesis
    using assms read_escapes [of t 0 uni s "[]"]
    by (cases s) (auto simp: quote_def plain_text_def)
qed

lemma quote_not_space:
  assumes "t \<noteq> []"
  shows "quote uni t \<noteq> [] \<and> hd (quote uni t) \<noteq> 32 \<and> hd (quote uni t) \<noteq> 9"
proof -
  obtain c u where t: "t = c # u" using assms by (cases t) auto
  have e: "escape c \<noteq> []" "c \<noteq> 32 \<Longrightarrow> c \<noteq> 9 \<Longrightarrow> hd (escape c) \<noteq> 32 \<and> hd (escape c) \<noteq> 9"
    by (auto simp: escape_def Let_def)
  have "\<not> needsquote uni t \<Longrightarrow> c \<noteq> 32 \<and> c \<noteq> 9" using special_ident(4,5) [of uni] by (auto simp: needsquote_def t)
  with e show ?thesis by (auto simp: quote_def t)
qed

lemma readSpaces_quote: "t \<noteq> [] \<Longrightarrow> readSpaces (quote uni t @ s) = quote uni t @ s"
  using quote_not_space [of t uni] by (cases "quote uni t") (auto simp: readSpaces_def)

lemma readSpaces_comment:
  assumes "plain_comment c"
  shows "readSpaces c = [] \<or> hd (readSpaces c) = 35" and "c = [] \<or> hd c = 32"
proof -
  have "dropWhile (\<lambda>c. c = 32 \<or> c = 9) (replicate n (32 :: jchar) @ 35 # t) = 35 # t" for n t by (induction n) auto
  then show "readSpaces c = [] \<or> hd (readSpaces c) = 35" "c = [] \<or> hd c = 32"
    using assms by (auto simp: plain_comment_def readSpaces_def simp del: replicate_Suc)
qed

lemma read_value_quote:
  assumes "plain_text uni v" and "plain_comment c" and "v = [] \<longrightarrow> c = []"
  shows "read_value uni k ro (32 # quote uni v @ c) =
    Some \<lparr>pkey = Some k, pvalue = Some v, pcomment = c, preadonly = ro, pline = 0\<rparr>"
proof -
  note rc = readSpaces_comment [OF assms(2)]
  have "readSpaces (32 # quote uni v @ c) = quote uni v @ c"
  proof (cases "v = []")
    case True
    then show ?thesis using assms(3) by (simp add: readSpaces_def quote_def needsquote_def)
  next
    case False
    then show ?thesis using readSpaces_quote [OF False, of uni c] by (simp add: readSpaces_def)
  qed
  moreover have "readQuotedString uni (quote uni v @ c) 0 [] = Some (v, c)"
    using rc(2) special_ident(4) [of uni] by (intro read_quote [OF assms(1)]) auto
  ultimately show ?thesis using rc(1) by (simp add: read_value_def Let_def)
qed


text \<open>A backslash is written as it is and read as an escape, and a lone apostrophe opens a quotation.\<close>

lemma backslash_lost:
  "read_prop uni (text_of_prop uni \<lparr>pkey = Some (J ''k''), pvalue = Some (J ''a'' @ [92, 110]), pcomment = [],
     preadonly = False, pline = 0\<rparr>) = Some \<lparr>pkey = Some (J ''k''), pvalue = Some (J ''a'' @ [10]), pcomment = [],
     preadonly = False, pline = 0\<rparr>"
  "read_prop uni (text_of_prop uni \<lparr>pkey = Some (J ''k''), pvalue = Some (J ''it'' @ [39] @ J ''s''), pcomment = [],
     preadonly = False, pline = 0\<rparr>) = None"
  by (simp_all add: text_of_prop_def quote_def needsquote_def escape_def isIdentifierPart_def special_chars_def unicode_part_def
      J_def read_prop_def readSpaces_def read_value_def Let_def)


subsection \<open>The store is a map\<close>

locale property_map =
  fixes lookup :: "'t \<Rightarrow> 'k \<Rightarrow> 'v option"
    and read_only :: "'t \<Rightarrow> 'k \<Rightarrow> bool"
    and put :: "'k \<Rightarrow> 'v option \<Rightarrow> 't \<Rightarrow> (bool \<times> 't) option"
    and inv :: "'t \<Rightarrow> bool"
  assumes put_total: "inv t \<Longrightarrow> put k v t \<noteq> None"
    and put_inv: "inv t \<Longrightarrow> put k v t = Some (b, t') \<Longrightarrow> inv t'"
    and put_lookup: "inv t \<Longrightarrow> put k v t = Some (b, t') \<Longrightarrow>
      lookup t' j = (if j = k \<and> (v = None \<or> \<not> read_only t k) then v else lookup t j)"
    and put_read_only: "inv t \<Longrightarrow> put k v t = Some (b, t') \<Longrightarrow>
      read_only t' j = (read_only t j \<and> (j \<noteq> k \<or> v \<noteq> None))"
begin

text \<open>A sequence of assignments leaves the last one for each key that can be written.\<close>

fun put_all :: "('k \<times> 'v option) list \<Rightarrow> 't \<Rightarrow> 't option" where
  "put_all [] t = Some t"
| "put_all ((k, v) # es) t = (case put k v t of None \<Rightarrow> None | Some (b, t) \<Rightarrow> put_all es t)"

lemma put_all_lookup:
  assumes "inv t" and "\<not> read_only t j"
  shows "\<exists>t'. put_all es t = Some t' \<and> inv t' \<and>
    lookup t' j = (case map_of (rev es) j of None \<Rightarrow> lookup t j | Some v \<Rightarrow> v)"
  using assms
proof (induction es arbitrary: t)
  case (Cons e es)
  obtain k v where e: "e = (k, v)" by force
  obtain b t1 where p: "put k v t = Some (b, t1)" using put_total [OF Cons.prems(1), of k v] by auto
  have "inv t1" "\<not> read_only t1 j" "lookup t1 j = (if j = k then v else lookup t j)"
    using put_inv [OF Cons.prems(1) p] put_read_only [OF Cons.prems(1) p, of j] put_lookup [OF Cons.prems(1) p, of j]
      Cons.prems(2) by auto
  then show ?case using Cons.IH [of t1] p e by (auto simp: map_add_def split: option.splits)
qed simp

end

lemma length_set_cells: "length (fold (\<lambda>b. set_cell b f) bs cs) = length cs"
  by (induction bs arbitrary: cs) (simp_all add: set_cell_def)

lemma nth_set_cells:
  assumes "distinct bs" and "set bs \<subseteq> {..<length cs}"
  shows "fold (\<lambda>b. set_cell b f) bs cs ! x = (if x \<in> set bs then f (cs ! x) else cs ! x)"
  using assms
proof (induction bs arbitrary: cs)
  case (Cons b bs)
  have l: "length (set_cell b f cs) = length cs" by (simp add: set_cell_def)
  have "fold (\<lambda>b. set_cell b f) bs (set_cell b f cs) ! x =
      (if x \<in> set bs then f (set_cell b f cs ! x) else set_cell b f cs ! x)"
    using Cons.prems by (intro Cons.IH) (simp_all add: l)
  moreover have "set_cell b f cs ! x = (if x = b then f (cs ! b) else cs ! x)"
    using Cons.prems(2) by (simp add: set_cell_def nth_list_update)
  ultimately show ?case using Cons.prems by auto
qed simp

text \<open>Counting down the numbers behind a line that is taken out leaves every line with its number.\<close>

lemma remove_line:
  assumes ok: "lines_ok ls cs" and i: "i < length ls"
  defines "ls' \<equiv> take i ls @ drop (Suc i) ls"
    and "cs' \<equiv> fold (\<lambda>b. set_cell b (\<lambda>p. p\<lparr>pline := pline p - 1\<rparr>)) (drop (Suc i) ls) cs"
  shows "lines_ok ls' cs'" and "set ls' = set ls - {ls ! i}" and "\<exists>n. cs' ! x = (cs ! x)\<lparr>pline := n\<rparr>"
proof -
  have d: "distinct ls" "set ls \<subseteq> {..<length cs}" and c: "\<And>j. j < length ls \<Longrightarrow> pline (cs ! (ls ! j)) = int j"
    using ok by (auto simp: lines_ok_def)
  have sub: "set (drop (Suc i) ls) \<subseteq> {..<length cs}" using d(2) by (auto dest: in_set_dropD)
  have n: "cs' ! x = (if x \<in> set (drop (Suc i) ls) then (cs ! x)\<lparr>pline := pline (cs ! x) - 1\<rparr> else cs ! x)" for x
    unfolding cs'_def by (rule nth_set_cells [OF distinct_drop [OF d(1)] sub])
  show "\<exists>n. cs' ! x = (cs ! x)\<lparr>pline := n\<rparr>" unfolding n by (auto intro: exI [of _ "pline (cs ! x)"])
  have s: "ls = take i ls @ ls ! i # drop (Suc i) ls" using i id_take_nth_drop by blast
  have e: "distinct (take i ls @ ls ! i # drop (Suc i) ls)" using d(1) s by simp
  then show q: "set ls' = set ls - {ls ! i}" unfolding ls'_def by (subst s) auto
  have "pline (cs' ! (ls' ! j)) = int j" if j: "j < length ls'" for j
  proof (cases "j < i")
    case True
    then have "ls ! j \<notin> set (drop (Suc i) ls)" using d(1) i by (auto simp: in_set_conv_nth nth_eq_iff_index_eq)
    then show ?thesis using True i c [of j] n by (simp add: ls'_def nth_append)
  next
    case False
    then have l: "ls' ! j = ls ! Suc j" "Suc j < length ls" using j i by (simp_all add: ls'_def nth_append)
    then have "ls ! Suc j \<in> set (drop (Suc i) ls)" using False by (auto simp: in_set_conv_nth intro!: exI [of _ "j - i"])
    then show ?thesis using l c [of "Suc j"] n by simp
  qed
  then show "lines_ok ls' cs'" using e d(2) q by (auto simp: lines_ok_def ls'_def cs'_def length_set_cells)
qed

lemma map_ok_remove:
  assumes "map_ok m ls cs" and "m k = Some a" and "set ls' = set ls - {a}" and "\<And>x. \<exists>n. cs' ! x = (cs ! x)\<lparr>pline := n\<rparr>"
  shows "map_ok (m(k := None)) ls' cs'"
proof -
  have e: "pkey (cs' ! x) = pkey (cs ! x)" "pvalue (cs' ! x) = pvalue (cs ! x)" for x using assms(4) [of x] by auto
  have h: "b \<in> set ls' \<and> pkey (cs ! b) = Some j \<and> pvalue (cs ! b) \<noteq> None" if "(m(k := None)) j = Some b" for j b
  proof -
    have "j \<noteq> k" "m j = Some b" using that by (auto split: if_splits)
    then have f: "b \<in> set ls" "pkey (cs ! b) = Some j" "pvalue (cs ! b) \<noteq> None" "pkey (cs ! a) = Some k"
      using assms(1,2) by (simp_all add: map_ok_def)
    have "b \<noteq> a" using f(2,4) \<open>j \<noteq> k\<close> by (cases "b = a") simp_all
    then show ?thesis unfolding assms(3) using f(1-3) by simp
  qed
  show ?thesis unfolding map_ok_def e by (intro allI impI) (rule h)
qed

lemma remove_prop_ok:
  assumes ok: "props_ok sp" and m: "map_of (sp_props sp) k = Some a"
  shows "\<exists>sp'. remove_prop k a sp = Some sp' \<and> props_ok sp' \<and> map_of (sp_props sp') = (map_of (sp_props sp))(k := None) \<and>
    (\<forall>x. \<exists>n. cells sp' ! x = (cells sp ! x)\<lparr>pline := n\<rparr>)"
proof -
  have l: "lines_ok (sp_lines sp) (cells sp)" and mo: "map_ok (map_of (sp_props sp)) (sp_lines sp) (cells sp)"
    and d: "distinct (map fst (sp_props sp))" using ok by (simp_all add: props_ok_def)
  have "a \<in> set (sp_lines sp)" using mo m by (auto simp: map_ok_def)
  then obtain i where i: "i < length (sp_lines sp)" "sp_lines sp ! i = a" by (auto simp: in_set_conv_nth)
  then have p: "pline (cells sp ! a) = int i" using l by (auto simp: lines_ok_def)
  note r = remove_line [OF l i(1)]
  show ?thesis
    using r(1,3) map_ok_remove [OF mo m r(2) [unfolded i(2)] r(3)] AList.distinct_delete [OF d, of k] i(1) p
    by (auto simp: remove_prop_def Let_def props_ok_def AList.delete_conv')
qed

lemma lines_lt: "lines_ok ls cs \<Longrightarrow> a \<in> set ls \<Longrightarrow> a < length cs"
  by (auto simp: lines_ok_def)

lemma lines_ok_append:
  assumes "lines_ok ls cs" and "pline p = int (length ls)"
  shows "lines_ok (ls @ [length cs]) (cs @ [p])"
proof -
  have "ls ! i < length cs" if "i < length ls" for i using assms(1) that by (auto simp: lines_ok_def dest!: nth_mem)
  then show ?thesis using assms by (auto simp: lines_ok_def nth_append less_Suc_eq)
qed

lemma map_ok_append:
  assumes "map_ok m ls cs" and "lines_ok ls cs"
  shows "map_ok m (ls @ [a]) (cs @ [p])"
    and "pkey p = Some k \<Longrightarrow> pvalue p \<noteq> None \<Longrightarrow> map_ok (m(k := Some (length cs))) (ls @ [length cs]) (cs @ [p])"
  using assms(1) lines_lt [OF assms(2)] by (simp_all add: map_ok_def nth_append)

lemma set_value_ok:
  assumes "lines_ok ls cs" and "map_ok m ls cs"
  shows "lines_ok ls (set_cell a (\<lambda>p. p\<lparr>pvalue := Some v\<rparr>) cs)" and "map_ok m ls (set_cell a (\<lambda>p. p\<lparr>pvalue := Some v\<rparr>) cs)"
proof -
  have c: "set_cell a f cs ! x = (if x = a \<and> a < length cs then f (cs ! a) else cs ! x)" for f x
    by (cases "a < length cs") (simp_all add: set_cell_def nth_list_update list_update_beyond)
  show "lines_ok ls (set_cell a (\<lambda>p. p\<lparr>pvalue := Some v\<rparr>) cs)" "map_ok m ls (set_cell a (\<lambda>p. p\<lparr>pvalue := Some v\<rparr>) cs)"
    using assms unfolding lines_ok_def map_ok_def c by (auto simp: set_cell_def)
qed

lemma put_prop_cases:
  assumes ok: "props_ok sp"
  shows "\<exists>b sp'. put_prop k v sp = Some (b, sp') \<and> props_ok sp' \<and>
    (\<forall>j. value_at sp' j = (if j = k \<and> (v = None \<or> \<not> fixed_at sp k) then v else value_at sp j)) \<and>
    (\<forall>j. fixed_at sp' j = (fixed_at sp j \<and> (j \<noteq> k \<or> v \<noteq> None)))"
proof -
  have l: "lines_ok (sp_lines sp) (cells sp)" and mo: "map_ok (map_of (sp_props sp)) (sp_lines sp) (cells sp)"
    and d: "distinct (map fst (sp_props sp))" using ok by (simp_all add: props_ok_def)
  have m: "map_of (sp_props sp) j = Some a \<Longrightarrow> a < length (cells sp) \<and> pkey (cells sp ! a) = Some j \<and> pvalue (cells sp ! a) \<noteq> None" for j a
    using l mo by (auto simp: lines_ok_def map_ok_def)
  consider (new) x where "map_of (sp_props sp) k = None" "v = Some x" | (skip) "map_of (sp_props sp) k = None" "v = None"
    | (remove) a where "map_of (sp_props sp) k = Some a" "v = None"
    | (change) a x where "map_of (sp_props sp) k = Some a" "v = Some x" by fastforce
  then show ?thesis
  proof cases
    case new
    let ?p = "\<lparr>pkey = Some k, pvalue = Some x, pcomment = [], preadonly = False, pline = int (length (sp_lines sp))\<rparr>"
    have "(cells sp @ [?p]) ! a = cells sp ! a" if "map_of (sp_props sp) j = Some a" for j a
      using m [OF that] by (simp add: nth_append)
    then show ?thesis
      using new lines_ok_append [OF l, of ?p] map_ok_append(2) [OF mo l, of ?p k] AList.distinct_update [OF d]
      by (auto simp: put_prop_def props_ok_def value_at_def fixed_at_def AList.update_conv' Let_def split: option.splits)
  next
    case skip
    then show ?thesis using ok by (auto simp: put_prop_def value_at_def fixed_at_def)
  next
    case remove
    obtain sp' where r: "remove_prop k a sp = Some sp'" "props_ok sp'" "map_of (sp_props sp') = (map_of (sp_props sp))(k := None)"
        "\<And>x. \<exists>n. cells sp' ! x = (cells sp ! x)\<lparr>pline := n\<rparr>"
      using remove_prop_ok [OF ok remove(1)] by blast
    have "pvalue (cells sp' ! x) = pvalue (cells sp ! x)" "preadonly (cells sp' ! x) = preadonly (cells sp ! x)" for x
      using r(4) [of x] by auto
    then have "value_at sp' j = (if j = k then None else value_at sp j)" "fixed_at sp' j = (fixed_at sp j \<and> j \<noteq> k)" for j
      by (simp_all add: value_at_def fixed_at_def r(3) split: option.split)
    then show ?thesis using remove r(1,2) by (simp add: put_prop_def)
  next
    case change
    let ?sp = "sp\<lparr>cells := set_cell a (\<lambda>p. p\<lparr>pvalue := Some x\<rparr>) (cells sp)\<rparr>"
    have o: "j \<noteq> k \<Longrightarrow> map_of (sp_props sp) j \<noteq> Some a" for j using m [OF change(1)] m [of j a] by auto
    have "value_at ?sp j = (if j = k then Some x else value_at sp j)" "fixed_at ?sp j = fixed_at sp j" for j
      using m [OF change(1)] change(1) o [of j]
      by (cases "map_of (sp_props sp) j"; cases "j = k"; simp add: value_at_def fixed_at_def set_cell_def nth_list_update)+
    moreover have "props_ok ?sp" using set_value_ok [OF l mo, of a x] d by (simp add: props_ok_def)
    moreover have "value_at sp k = pvalue (cells sp ! a)" "fixed_at sp k = preadonly (cells sp ! a)"
      using change(1) by (simp_all add: value_at_def fixed_at_def)
    ultimately show ?thesis using change ok by (auto simp: put_prop_def)
  qed
qed

interpretation pm: property_map value_at fixed_at put_prop props_ok
proof
  fix t t' :: service_props and k j v b
  assume ok: "props_ok t"
  note c = put_prop_cases [OF ok, of k v]
  show "put_prop k v t \<noteq> None" using c by auto
  assume "put_prop k v t = Some (b, t')"
  with c show "props_ok t'" "value_at t' j = (if j = k \<and> (v = None \<or> \<not> fixed_at t k) then v else value_at t j)"
    "fixed_at t' j = (fixed_at t j \<and> (j \<noteq> k \<or> v \<noteq> None))" by auto
qed

lemma put_prop_names: "put_prop k v sp = Some (b, sp') \<Longrightarrow> servicename sp' = servicename sp \<and> classname sp' = classname sp"
  by (auto simp: put_prop_def remove_prop_def Let_def split: option.splits if_splits)

lemma get_prop_value:
  "k \<notin> own_keys \<or> servicename sp = None \<Longrightarrow> get_prop k sp = value_at sp k"
  "servicename sp' = servicename sp \<Longrightarrow> classname sp' = classname sp \<Longrightarrow> k \<in> own_keys \<Longrightarrow> servicename sp \<noteq> None \<Longrightarrow>
     get_prop k sp' = get_prop k sp"
  by (auto simp: get_prop_def value_at_def own_keys_def)

lemma new_props_ok: "props_ok (new_service_props name cname perm)" "value_at (new_service_props name cname perm) k = None"
  "fixed_at (new_service_props name cname perm) k = False"
  by (auto simp: props_ok_def lines_ok_def map_ok_def new_service_props_def value_at_def fixed_at_def split: option.split)

lemma put_each_all: "put_each es sp = pm.put_all es sp"
  by (induction es arbitrary: sp) (auto split: option.split prod.split)

lemma put_each_names: "put_each es sp = Some sp' \<Longrightarrow> servicename sp' = servicename sp \<and> classname sp' = classname sp"
proof (induction es arbitrary: sp)
  case (Cons e es)
  then show ?case by (cases e) (auto split: option.splits dest: put_prop_names)
qed simp

lemma put_service_ok:
  "manager_ok m \<Longrightarrow> props_ok sp \<Longrightarrow> servicename sp = name \<Longrightarrow> manager_ok (put_service name sp m)"
  by (auto simp: manager_ok_def put_service_def AList.update_conv')

lemma init_manager_ok: "manager_ok (init_manager new_manager)"
proof -
  have "manager_ok new_manager" by (simp add: manager_ok_def new_manager_def)
  moreover have "servicename (new_service_props name cname perm) = name" for name cname perm
    by (simp add: new_service_props_def split: option.split)
  ultimately show ?thesis by (simp add: init_manager_def put_service_ok new_props_ok)
qed

lemma read_prop_value: "read_prop uni l = Some p \<Longrightarrow> pkey p = Some k \<Longrightarrow> pvalue p \<noteq> None"
  by (auto simp: read_prop_def read_value_def Let_def split: option.splits if_splits list.splits)

lemma addLine_ok:
  assumes "props_ok sp" and "addLine uni l sp = Some sp'"
  shows "props_ok sp'"
proof -
  have lo: "lines_ok (sp_lines sp) (cells sp)" and mo: "map_ok (map_of (sp_props sp)) (sp_lines sp) (cells sp)"
    and d: "distinct (map fst (sp_props sp))" using assms(1) by (simp_all add: props_ok_def)
  obtain p where p: "read_prop uni l = Some p" using assms(2) by (auto simp: addLine_def split: option.splits)
  let ?p = "p\<lparr>pline := int (length (sp_lines sp))\<rparr>"
  show ?thesis
    using assms(2) p lines_ok_append [OF lo, of ?p] map_ok_append(1) [OF mo lo, of "length (cells sp)" ?p]
      map_ok_append(2) [OF mo lo, of ?p] read_prop_value [OF p] AList.distinct_update [OF d]
    by (cases "pkey p") (auto simp: addLine_def props_ok_def AList.update_conv' Let_def d)
qed

text \<open>Closing drops blank lines from the end only: the line of a property is never blank.\<close>

lemma text_of_prop_blank: "text_of_prop uni p = [] \<Longrightarrow> pkey p = None"
  by (auto simp: text_of_prop_def J_def split: option.splits if_splits)

lemma rev_dropWhile_rev: "\<exists>n. rev (dropWhile P (rev xs)) = take n xs \<and> (\<forall>x \<in> set xs. \<not> P x \<longrightarrow> x \<in> set (take n xs))"
proof (induction xs rule: rev_induct)
  case (snoc x xs)
  then obtain n where n: "rev (dropWhile P (rev xs)) = take n xs" "\<forall>x \<in> set xs. \<not> P x \<longrightarrow> x \<in> set (take n xs)" by blast
  then show ?case
    by (cases "P x") (auto intro: exI [of _ "min n (length xs)"] exI [of _ "Suc (length xs)"] simp: min_def)
qed simp

lemma close_props_ok:
  assumes "props_ok sp"
  shows "props_ok (close_props uni sp)"
proof -
  obtain n where n: "sp_lines (close_props uni sp) = take n (sp_lines sp)"
      "\<forall>a \<in> set (sp_lines sp). text_of_prop uni (cells sp ! a) \<noteq> [] \<longrightarrow> a \<in> set (take n (sp_lines sp))"
    using rev_dropWhile_rev [of "\<lambda>a. text_of_prop uni (cells sp ! a) = []" "sp_lines sp"] by (auto simp: close_props_def)
  have f: "cells (close_props uni sp) = cells sp" "sp_props (close_props uni sp) = sp_props sp" by (simp_all add: close_props_def)
  have "lines_ok (take n (sp_lines sp)) (cells sp)"
    using assms by (auto simp: props_ok_def lines_ok_def dest: in_set_takeD)
  moreover have "map_ok (map_of (sp_props sp)) (take n (sp_lines sp)) (cells sp)"
    using assms n(2) text_of_prop_blank [of uni] unfolding props_ok_def map_ok_def by (metis option.distinct(1))
  ultimately show ?thesis using assms n(1) f by (simp add: props_ok_def)
qed

lemma props_step_ok: "props_ok sp \<Longrightarrow> props_step uni x sp = Some sp' \<Longrightarrow> props_ok sp'"
  by (cases x) (auto simp: addLine_ok close_props_ok dest: pm.put_inv)

text \<open>C18. The store of a service is well-formed at every moment: from its creation, through any sequence of lines read,
  blank ends closed, and properties stored, changed and removed, its lines are distinct objects that know their own
  line numbers, and every key leads to a line that is still in the list, has that key and has a value.  Removing a property
  by the number in its object, which is what the code does, therefore always removes that property's line.\<close>

theorem props_well_formed:
  assumes "props_run uni ops (new_service_props name cname perm) = Some sp"
  shows "props_ok sp"
proof -
  have "props_run uni ops sp0 = Some sp \<Longrightarrow> props_ok sp0 \<Longrightarrow> props_ok sp" for sp0
    by (induction ops arbitrary: sp0) (auto simp: bind_eq_Some_conv dest: props_step_ok)
  then show ?thesis using assms new_props_ok(1) by blast
qed

theorem props_well_formed_witness:
  "\<exists>sp. props_run (\<lambda>_. False) [Put_prop [97] (Some [98]), Add_line [], Put_prop [99] (Some [100]), Put_prop [97] None, Close_props]
       (new_service_props (Some [109]) [110] True) = Some sp \<and> props_ok sp \<and> length (sp_lines sp) = 3"
proof -
  obtain sp where r: "props_run (\<lambda>_. False) [Put_prop [97] (Some [98]), Add_line [], Put_prop [99] (Some [100]), Put_prop [97] None, Close_props]
       (new_service_props (Some [109]) [110] True) = Some sp" and l: "length (sp_lines sp) = 3"
    by (simp add: new_service_props_def put_prop_def addLine_def read_prop_def readSpaces_def remove_prop_def set_cell_def
        close_props_def text_of_prop_def quote_def needsquote_def escape_def J_def Let_def)
  show ?thesis using props_well_formed [OF r] r l by blast
qed

text \<open>C17. The properties are a map, for each service and each key, whatever was stored before: on the lists of
  lines and objects that are changed in place, storing a value makes exactly that value readable under exactly that
  service and key, a null value removes it, and the numbers the lines carry stay right.  Read-only properties
  and the two names a service answers itself are left out.\<close>

theorem put_property_refines:
  assumes "manager_ok m" and "map_of (all_props m) name = Some sp" and "k \<notin> own_keys" and "\<not> fixed_at sp k"
  shows "\<exists>m'. put_property name k v m = Some m' \<and> manager_ok m' \<and>
    (\<forall>n j. get_property n j m' = (if n = name \<and> j = k then v else get_property n j m))"
proof -
  have sp: "props_ok sp" "servicename sp = name" using assms(1,2) by (auto simp: manager_ok_def)
  obtain b sp' where p: "put_prop k v sp = Some (b, sp')" using pm.put_total [OF sp(1), of k v] by auto
  note n = put_prop_names [OF p] and i = pm.put_inv [OF sp(1) p] and l = pm.put_lookup [OF sp(1) p]
  define m' where "m' = put_service name sp' m"
  have g: "get_prop j sp' = (if j = k then v else get_prop j sp)" for j
    using l [of j] assms(3,4) n get_prop_value(1) [of j sp] get_prop_value(1) [of j sp'] get_prop_value(2) [of sp' sp j]
    by (cases "j \<in> own_keys \<and> servicename sp \<noteq> None") auto
  have "put_property name k v m = Some m'"
    using assms(2) p by (auto simp: put_property_def queuewrite_def m'_def Let_def)
  moreover have "manager_ok m'"
    using assms(1) i n sp(2) by (simp add: m'_def put_service_ok)
  moreover have "get_property na j m' = (if na = name \<and> j = k then v else get_property na j m)" for na j
    using g [of j] assms(2) by (auto simp: get_property_def m'_def put_service_def AList.update_conv')
  ultimately show ?thesis by blast
qed

lemma create_service_properties:
  assumes "create_service name cname es perm m = Some m'" and "k \<notin> own_keys"
  shows "get_property name k m' = (case map_of (rev es) k of None \<Rightarrow> None | Some v \<Rightarrow> v)"
proof -
  obtain sp where sp: "put_each es (new_service_props name cname perm) = Some sp" "m' = put_service name sp m"
    using assms(1) by (auto simp: create_service_def queuewrite_def Let_def split: if_splits option.splits)
  have "value_at sp k = (case map_of (rev es) k of None \<Rightarrow> None | Some v \<Rightarrow> v)"
    using pm.put_all_lookup [OF new_props_ok(1), of name cname perm k es] sp(1)
    by (simp add: put_each_all new_props_ok split: option.split)
  then show ?thesis using sp(2) assms(2) by (simp add: get_property_def put_service_def AList.update_conv' get_prop_value)
qed


theorem put_property_refines_witness:
  "\<exists>m'. put_property (Some (J ''main'')) (J ''volume'') (Some (J ''50'')) (init_manager new_manager) = Some m' \<and>
     get_property (Some (J ''main'')) (J ''volume'') m' = Some (J ''50'')"
proof -
  let ?sp = "new_service_props (Some (J ''main'')) (J ''com.nixus.raop.player.PlayerImpl'') True"
  have "map_of (all_props (init_manager new_manager)) (Some (J ''main'')) = Some ?sp"
    by (simp add: init_manager_def put_service_def AList.update_conv')
  moreover have "J ''volume'' \<notin> own_keys" by (simp add: own_keys_def J_def)
  ultimately show ?thesis
    using put_property_refines [OF init_manager_ok, of "Some (J ''main'')" ?sp "J ''volume''" "Some (J ''50'')"]
    by (auto simp: new_props_ok)
qed

end
