(* ===== verification/RaopHelper.thy ===== *)
theory RaopHelper
  imports PropertyManager
begin

text \<open>
  The application's side of the player, \<^verbatim>\<open>src/src/com/nixus/raop/RaopHelper.java\<close>: the services that were found,
  the streaming tasks, and the two switches the rest of the system looks at, the map \<open>raopSwitches\<close> that the native player
  asks through \<open>isActivated\<close> and the file \<^verbatim>\<open>/data/raop_switch\<close> that the mixer reads.  A task runs on a thread of
  its own, so its steps interleave with the buttons of the user; a run is a list of actions, each
  enabled where it happens.  The Boolean of a result says that an exception was thrown.
\<close>

datatype speaker_state = ON | OFF

record speaker_event =
  currentState :: speaker_state
  event_ip :: "jstring option"
  event_name :: "jstring option"
  event_protocol :: "jstring option"
  event_port :: "jstring option"

datatype notice = Text_notice jstring | Speaker_notice speaker_event

record service_context =
  sc_name :: jstring
  sc_speaker :: bool       \<comment> \<open>the service is a \<open>SpeakerImpl\<close>\<close>

datatype task_phase = Queued | Running | Exited | Posted

record task =
  task_address :: jstring
  task_proto :: jstring
  task_port :: jstring
  task_phase :: task_phase

record helper =
  contexts :: "(jstring \<times> service_context) list"
  services :: manager                            \<comment> \<open>the properties, \<open>pm\<close>\<close>
  raopTasks :: "task list"
  raopSwitches :: "jstring \<rightharpoonup> bool"
  switch_file :: string
  switch_writable :: bool
  notices :: "notice list"

definition new_helper :: "manager \<Rightarrow> string \<Rightarrow> helper" where
  "new_helper m file = \<lparr>contexts = [], services = m, raopTasks = [], raopSwitches = Map.empty, switch_file = file,
     switch_writable = True, notices = []\<rparr>"

text \<open>\<open>String.replace\<close> with nothing: every occurrence, from the left, is cut out.\<close>

function cut_all :: "jstring \<Rightarrow> jstring \<Rightarrow> jstring" where
  "cut_all p [] = []"
| "cut_all p (c # s) =
     (if p \<noteq> [] \<and> take (length p) (c # s) = p then cut_all p (drop (length p) (c # s)) else c # cut_all p s)"
  by pat_completeness auto

termination
  by (relation "measure (\<lambda>(p, s). length s)") auto

definition SPEAKER_PREFIX :: jstring where
  "SPEAKER_PREFIX = J ''speaker.airport.''"

definition sc_getProperty :: "service_context \<Rightarrow> jstring \<Rightarrow> helper \<Rightarrow> jstring option" where
  "sc_getProperty c key h = get_property (Some (sc_name c)) key (services h)"

definition notify :: "notice \<Rightarrow> helper \<Rightarrow> helper" where
  "notify n h = h\<lparr>notices := notices h @ [n]\<rparr>"

text \<open>A service that has no properties has no name either, which is a null pointer.\<close>

definition addServiceContext :: "service_context \<Rightarrow> helper \<Rightarrow> bool \<times> helper" where
  "addServiceContext c h =
     (let host = sc_getProperty c (J ''host'') h;
          h = h\<lparr>contexts := AList.update (case host of None \<Rightarrow> sc_name c | Some a \<Rightarrow> a) c (contexts h)\<rparr>
      in if sc_speaker c then
           (case sc_getProperty c (J ''name'') h of
              None \<Rightarrow> (True, h)
            | Some n \<Rightarrow> (False, notify (Speaker_notice \<lparr>currentState = ON,
                event_ip = host, event_name = Some (cut_all SPEAKER_PREFIX n),
                event_protocol = sc_getProperty c (J ''protocol'') h, event_port = sc_getProperty c (J ''port'') h\<rparr>) h))
         else (False, h))"

definition removeServiceContext :: "service_context \<Rightarrow> helper \<Rightarrow> helper" where
  "removeServiceContext c h = h"

definition getServices :: "helper \<Rightarrow> service_context list" where
  "getServices h = map snd (contexts h)"

definition setRaopSwitch :: "string \<Rightarrow> helper \<Rightarrow> helper" where
  "setRaopSwitch s h = (if switch_writable h then h\<lparr>switch_file := s\<rparr> else h)"

text \<open>An address of an interface: whether it is the loopback, whether it is of version 4, and its text.\<close>

definition getLocalIpAddress :: "(bool \<times> bool \<times> jstring) list list \<Rightarrow> jstring option" where
  "getLocalIpAddress interfaces =
     map_option (\<lambda>(lo, v4, a). a) (find (\<lambda>(lo, v4, a). \<not> lo \<and> v4) (concat interfaces))"

definition getAirportName :: "jstring \<Rightarrow> helper \<Rightarrow> jstring option" where
  "getAirportName address h = (case map_of (contexts h) address of
       None \<Rightarrow> None
     | Some c \<Rightarrow> map_option (cut_all SPEAKER_PREFIX) (sc_getProperty c (J ''name'') h))"

subsection \<open>The task\<close>

text \<open>The arguments of the native player.\<close>

definition task_args :: "task \<Rightarrow> jstring list" where
  "task_args t = [J ''raop-play'', J ''--port'', task_port t, J ''--proto'', task_proto t, task_address t, J ''socket://'']"

definition set_phase :: "nat \<Rightarrow> task_phase \<Rightarrow> helper \<Rightarrow> helper" where
  "set_phase i ph h = h\<lparr>raopTasks := (raopTasks h)[i := (raopTasks h ! i)\<lparr>task_phase := ph\<rparr>]\<rparr>"

text \<open>\<open>doInBackground\<close> up to the call of the native player, and after it.\<close>

definition doInBackground_begin :: "nat \<Rightarrow> helper \<Rightarrow> helper" where
  "doInBackground_begin i h = set_phase i Running
     (h\<lparr>raopSwitches := (raopSwitches h)(task_address (raopTasks h ! i) \<mapsto> True)\<rparr>)"

definition doInBackground_end :: "nat \<Rightarrow> helper \<Rightarrow> helper" where
  "doInBackground_end i h = set_phase i Exited h"

definition onPostExecute :: "nat \<Rightarrow> helper \<Rightarrow> helper" where
  "onPostExecute i h =
     (let a = task_address (raopTasks h ! i);
          h = setRaopSwitch ''O'' h;
          h = h\<lparr>raopSwitches := (raopSwitches h)(a \<mapsto> False)\<rparr>;
          h = setRaopSwitch ''O'' h
      in set_phase i Posted (notify (Speaker_notice \<lparr>currentState = OFF, event_ip = Some a, event_name = None,
           event_protocol = None, event_port = None\<rparr>) h))"

text \<open>The task has been handed to the framework when the name of the speaker is looked up.\<close>

definition startStreaming :: "jstring \<Rightarrow> jstring \<Rightarrow> jstring \<Rightarrow> helper \<Rightarrow> bool \<times> helper" where
  "startStreaming address proto port h =
     (let h = h\<lparr>raopTasks := raopTasks h @
            [\<lparr>task_address = address, task_proto = proto, task_port = port, task_phase = Queued\<rparr>]\<rparr>
      in case getAirportName address h of
           None \<Rightarrow> (True, h)
         | Some n \<Rightarrow> (False, notify (Text_notice (J ''Streaming on '' @ n)) h))"

definition stopStreaming :: "jstring \<Rightarrow> helper \<Rightarrow> helper" where
  "stopStreaming address h =
     (let h = setRaopSwitch ''0'' h;
          h = h\<lparr>raopSwitches := (raopSwitches h)(address \<mapsto> False)\<rparr>
      in notify (Text_notice (J ''Not streaming'')) h)"

definition java_notifyReady :: "bool \<Rightarrow> helper \<Rightarrow> bool \<times> helper" where
  "java_notifyReady ready h = (True, setRaopSwitch (if ready then ''1'' else ''0'') h)"

text \<open>\<open>None\<close> is the null pointer of an address that was never switched.\<close>

definition java_isActivated :: "jstring \<Rightarrow> helper \<Rightarrow> bool option" where
  "java_isActivated address h = raopSwitches h address"

subsection \<open>Discovery\<close>

definition startDeviceDiscovery :: "(bool \<times> bool \<times> jstring) list list \<Rightarrow> helper \<Rightarrow> helper" where
  "startDeviceDiscovery interfaces h =
     (let h = notify (Text_notice (J ''Running'')) h;
          h = h\<lparr>contexts := [], services := init_manager new_manager\<rparr>;
          put = (\<lambda>k v m. case put_property (Some (J ''zeroconffactory'')) (J k) v m of None \<Rightarrow> m | Some m \<Rightarrow> m);
          h = h\<lparr>services := put ''hostname'' (Some (J ''android'')) (put ''bind'' (getLocalIpAddress interfaces)
            (put ''implementation'' (Some (J ''jmdns'')) (services h)))\<rparr>;
          h = snd (addServiceContext \<lparr>sc_name = J ''zeroconffactory'', sc_speaker = False\<rparr> h);
          h = snd (addServiceContext \<lparr>sc_name = J ''airportfactory'', sc_speaker = False\<rparr> h)
      in snd (addServiceContext \<lparr>sc_name = J ''main'', sc_speaker = False\<rparr> h))"

subsection \<open>Interleaving\<close>

text \<open>What can happen: the finder reports a service, the user presses a button, and the framework moves a task on.  The
  player reports that it is ready while its task runs.\<close>

datatype action = Found service_context | Toggled_on jstring jstring jstring | Toggled_off jstring
  | Task_start nat | Task_ready nat bool | Task_exit nat | Task_post nat

definition in_phase :: "nat \<Rightarrow> task_phase \<Rightarrow> helper \<Rightarrow> bool" where
  "in_phase i ph h \<longleftrightarrow> i < length (raopTasks h) \<and> task_phase (raopTasks h ! i) = ph"

fun enabled :: "action \<Rightarrow> helper \<Rightarrow> bool" where
  "enabled (Task_start i) h = in_phase i Queued h"
| "enabled (Task_ready i b) h = in_phase i Running h"
| "enabled (Task_exit i) h = in_phase i Running h"
| "enabled (Task_post i) h = in_phase i Exited h"
| "enabled _ h = True"

fun act :: "action \<Rightarrow> helper \<Rightarrow> helper" where
  "act (Found c) h = snd (addServiceContext c h)"
| "act (Toggled_on a proto port) h = snd (startStreaming a proto port h)"
| "act (Toggled_off a) h = stopStreaming a h"
| "act (Task_start i) h = doInBackground_begin i h"
| "act (Task_ready i b) h = snd (java_notifyReady b h)"
| "act (Task_exit i) h = doInBackground_end i h"
| "act (Task_post i) h = onPostExecute i h"

fun run_actions :: "action list \<Rightarrow> helper \<Rightarrow> helper option" where
  "run_actions [] h = Some h"
| "run_actions (x # xs) h = (if enabled x h then run_actions xs (act x h) else None)"

subsection \<open>What is proved\<close>

definition switches_known :: "helper \<Rightarrow> bool" where
  "switches_known h \<longleftrightarrow> (\<forall>t \<in> set (raopTasks h). task_phase t \<noteq> Queued \<longrightarrow> task_address t \<in> dom (raopSwitches h))"

lemmas act_defs = addServiceContext_def startStreaming_def stopStreaming_def doInBackground_begin_def java_notifyReady_def
  doInBackground_end_def onPostExecute_def set_phase_def notify_def setRaopSwitch_def Let_def

lemma notify_frame [simp]:
  "raopTasks (notify n h) = raopTasks h" "raopSwitches (notify n h) = raopSwitches h"
  "raopTasks (setRaopSwitch s h) = raopTasks h" "raopSwitches (setRaopSwitch s h) = raopSwitches h"
  by (simp_all add: notify_def setRaopSwitch_def)

lemma set_phase_frame [simp]:
  "raopTasks (set_phase i ph h) = (raopTasks h)[i := (raopTasks h ! i)\<lparr>task_phase := ph\<rparr>]"
  "raopSwitches (set_phase i ph h) = raopSwitches h"
  by (simp_all add: set_phase_def)

lemma act_frame [simp]:
  "raopTasks (snd (addServiceContext c h)) = raopTasks h" "raopSwitches (snd (addServiceContext c h)) = raopSwitches h"
  "raopSwitches (snd (startStreaming a p q h)) = raopSwitches h"
  "raopTasks (snd (startStreaming a p q h)) =
     raopTasks h @ [\<lparr>task_address = a, task_proto = p, task_port = q, task_phase = Queued\<rparr>]"
  by (simp_all add: addServiceContext_def startStreaming_def Let_def split: option.split)

lemma switches_known_act:
  assumes "switches_known h" and "enabled x h"
  shows "switches_known (act x h)"
proof -
  have u: "t \<in> set ((raopTasks h)[i := (raopTasks h ! i)\<lparr>task_phase := ph\<rparr>]) \<Longrightarrow> i < length (raopTasks h) \<Longrightarrow>
      t \<in> set (raopTasks h) \<or> t = (raopTasks h ! i)\<lparr>task_phase := ph\<rparr>" for t i ph
    using set_update_subset_insert by fastforce
  have v: "task_address (raopTasks h ! i) \<in> dom (raopSwitches h)"
    if "i < length (raopTasks h)" "task_phase (raopTasks h ! i) = Running" for i
    using that assms(1) unfolding switches_known_def by (metis nth_mem task_phase.distinct(1))
  show ?thesis
    using assms
    by (cases x) (auto simp: switches_known_def in_phase_def doInBackground_begin_def java_notifyReady_def doInBackground_end_def
        onPostExecute_def stopStreaming_def Let_def dest!: u intro: domD [OF v])
qed

lemma switches_known_run: "run_actions xs h = Some h' \<Longrightarrow> switches_known h \<Longrightarrow> switches_known h'"
  by (induction xs arbitrary: h) (auto simp: switches_known_act split: if_splits)

lemma switches_known_new: "switches_known (new_helper w f)"
  by (simp add: switches_known_def new_helper_def)

text \<open>Addresses of tasks never change, and a task stays at its index.\<close>

lemma task_address_act:
  "i < length (raopTasks h) \<Longrightarrow> enabled x h \<Longrightarrow>
   i < length (raopTasks (act x h)) \<and> task_address (raopTasks (act x h) ! i) = task_address (raopTasks h ! i)"
  by (cases x) (auto simp: nth_append nth_list_update in_phase_def doInBackground_begin_def java_notifyReady_def
      doInBackground_end_def onPostExecute_def stopStreaming_def Let_def)

lemma task_address_run:
  "run_actions xs h = Some h' \<Longrightarrow> i < length (raopTasks h) \<Longrightarrow>
   i < length (raopTasks h') \<and> task_address (raopTasks h' ! i) = task_address (raopTasks h ! i)"
  by (induction xs arbitrary: h) (auto simp: task_address_act split: if_splits)

definition starts_task_of :: "jstring \<Rightarrow> action \<Rightarrow> helper \<Rightarrow> bool" where
  "starts_task_of a x h \<longleftrightarrow> (\<exists>i < length (raopTasks h). x = Task_start i \<and> task_address (raopTasks h ! i) = a)"

lemma stopped_act:
  "java_isActivated a h = Some False \<Longrightarrow> enabled x h \<Longrightarrow> \<not> starts_task_of a x h \<Longrightarrow> java_isActivated a (act x h) = Some False"
  by (cases x) (auto simp: starts_task_of_def java_isActivated_def in_phase_def doInBackground_begin_def java_notifyReady_def
      doInBackground_end_def onPostExecute_def stopStreaming_def Let_def)

lemma stopped_run:
  "run_actions xs h = Some h' \<Longrightarrow> java_isActivated a h = Some False \<Longrightarrow> (\<And>x. x \<in> set xs \<Longrightarrow> \<not> starts_task_of a x h') \<Longrightarrow>
   java_isActivated a h' = Some False"
proof (induction xs arbitrary: h)
  case (Cons x xs)
  have e: "enabled x h" and r: "run_actions xs (act x h) = Some h'" using Cons.prems(1) by (auto split: if_splits)
  have "\<not> starts_task_of a x h"
    using task_address_run [OF Cons.prems(1)] Cons.prems(3) [of x] by (auto simp: starts_task_of_def)
  then show ?case using Cons.IH [OF r] stopped_act [OF Cons.prems(2) e] Cons.prems(3) by simp
qed simp

text \<open>C19. The question that the native player asks the application has an answer whenever it can be asked: in every run
  from the start of the application, whatever the order of found speakers, pressed buttons and moves of the tasks, the
  address of a task that has begun is a key of the switches, so \<open>isActivated\<close> does not run into a null pointer.\<close>

theorem running_task_has_switch:
  assumes "run_actions xs (new_helper m file) = Some h"
    and "i < length (raopTasks h)"
    and "task_phase (raopTasks h ! i) \<noteq> Queued"
  shows "\<exists>b. java_isActivated (task_address (raopTasks h ! i)) h = Some b"
  using switches_known_run [OF assms(1) switches_known_new] assms(2,3)
  unfolding switches_known_def java_isActivated_def by (auto dest: nth_mem)

theorem running_task_has_switch_witness:
  "\<exists>h b. run_actions [Toggled_on [1] [2] [3], Toggled_off [7], Task_start 0] (new_helper new_manager ''0'') = Some h \<and>
     java_isActivated [1] h = Some b"
proof -
  let ?xs = "[Toggled_on [1] [2] [3], Toggled_off [7], Task_start 0]"
  obtain h where h: "run_actions ?xs (new_helper new_manager ''0'') = Some h" and l: "length (raopTasks h) = 1"
    and a: "task_address (raopTasks h ! 0) = [1]" and ph: "task_phase (raopTasks h ! 0) \<noteq> Queued"
    by (simp add: in_phase_def new_helper_def stopStreaming_def doInBackground_begin_def Let_def)
  have "\<exists>b. java_isActivated (task_address (raopTasks h ! 0)) h = Some b"
    by (rule running_task_has_switch [OF h _ ph]) (simp add: l)
  then show ?thesis using h a by auto
qed

text \<open>C32. A stop holds, and a stop that comes too early is lost.  Once the user has stopped an address, \<open>isActivated\<close>
  answers that address with false in every continuation in which no task of the address starts to run; but a task of the
  address that was still waiting for its thread overwrites the switch when it starts, and is activated again.\<close>

theorem stop_holds_until_start:
  assumes "run_actions xs (stopStreaming a h) = Some h'"
    and "\<And>x. x \<in> set xs \<Longrightarrow> \<not> starts_task_of a x h'"
  shows "java_isActivated a h' = Some False \<and>
    (\<forall>i. in_phase i Queued h' \<and> task_address (raopTasks h' ! i) = a \<longrightarrow>
       java_isActivated a (act (Task_start i) h') = Some True)"
proof -
  have "java_isActivated a (stopStreaming a h) = Some False"
    by (simp add: java_isActivated_def stopStreaming_def Let_def)
  from stopped_run [OF assms(1) this assms(2)] show ?thesis
    by (simp add: java_isActivated_def doInBackground_begin_def)
qed

theorem stop_holds_until_start_witness:
  "\<exists>h'. run_actions [Toggled_on [9] [2] [3]] (stopStreaming [1] (act (Toggled_on [1] [2] [3]) (new_helper new_manager ''0'')))
       = Some h' \<and> java_isActivated [1] h' = Some False \<and> java_isActivated [1] (act (Task_start 0) h') = Some True"
proof -
  let ?h = "stopStreaming [1] (act (Toggled_on [1] [2] [3]) (new_helper new_manager ''0''))"
  obtain h' where r: "run_actions [Toggled_on [9] [2] [3]] ?h = Some h'" and q: "in_phase 0 Queued h'"
    and a: "task_address (raopTasks h' ! 0) = [1]"
    by (simp add: in_phase_def new_helper_def stopStreaming_def Let_def)
  show ?thesis
    using stop_holds_until_start [OF r] r q a by (simp add: starts_task_of_def)
qed

end
