(* ===== verification/AudioFlinger.thy ===== *)
theory AudioFlinger
  imports CString
begin

text \<open>
  The change to the Android mixer, \<^verbatim>\<open>src/audioflinger/4.1.2/AudioFlinger.cpp\<close>: the write of the playback
  thread either goes to the audio hardware or, while the file \<^verbatim>\<open>/data/raop_switch\<close> holds a number other
  than zero, over a local socket to the player.  The globals of the change are the record \<open>flinger\<close>.  Each call of
  \<open>threadLoop_write\<close> makes every system call at most once, so the answers of the system are one record for each
  call.  A null file pointer is undefined behaviour, \<open>None\<close>.
\<close>

record flinger =
  dumpSwitchFile :: "string option"     \<comment> \<open>what the file holds\<close>
  dumpSocket :: fd
  dumpSocketReady :: int
  dumpSocketWatchDog :: int
  dumpSwitch :: int

definition start_flinger :: "string option \<Rightarrow> flinger" where
  "start_flinger file = \<lparr>dumpSwitchFile = file, dumpSocket = -1, dumpSocketReady = -1, dumpSocketWatchDog = 0,
     dumpSwitch = 0\<rparr>"

record flinger_os =
  socket_answer :: int
  connect_answer :: int
  send_answer :: int
  sink_answer :: int

datatype flinger_call = Sink_write bytes | Open_socket | Connect_socket fd | Send_socket fd bytes

text \<open>\<open>fscanf (file, "%d", v)\<close>: blanks, an optional sign and digits; without digits nothing is stored.\<close>

definition scan_d :: "string \<Rightarrow> int option" where
  "scan_d s =
     (let t = dropWhile is_space s;
          u = (if t \<noteq> [] \<and> (hd t = CHR ''-'' \<or> hd t = CHR ''+'') then tl t else t)
      in if takeWhile is_digit u = [] then None else Some (atoi s))"

text \<open>After ten failures, or one that counts as ten, the switch in the file is overwritten with a zero;
  otherwise it is read.\<close>

definition read_switch :: "flinger \<Rightarrow> flinger option" where
  "read_switch f = (case dumpSwitchFile f of
       None \<Rightarrow> None
     | Some s \<Rightarrow>
         if dumpSocketWatchDog f \<ge> 10
         then Some (f\<lparr>dumpSwitchFile := Some (CHR ''0'' # tl s), dumpSwitch := 0, dumpSocketWatchDog := 0\<rparr>)
         else Some (f\<lparr>dumpSwitch := (case scan_d s of None \<Rightarrow> dumpSwitch f | Some v \<Rightarrow> v)\<rparr>))"

text \<open>A failed \<open>socket\<close> does not keep the code from calling \<open>connect\<close>.\<close>

definition connect_bridge :: "flinger_os \<Rightarrow> flinger \<Rightarrow> flinger_call list \<times> flinger" where
  "connect_bridge w f =
     (if dumpSocket f < 0 then
        let sd = socket_answer w;
            f = f\<lparr>dumpSocket := sd,
              dumpSocketWatchDog := (if sd < 0 then dumpSocketWatchDog f + 1 else dumpSocketWatchDog f)\<rparr>;
            r = connect_answer w
        in ([Open_socket, Connect_socket sd],
            f\<lparr>dumpSocketReady := r, dumpSocketWatchDog := (if r < 0 then 10 else dumpSocketWatchDog f)\<rparr>)
      else ([], f))"

definition send_bridge :: "flinger_os \<Rightarrow> bytes \<Rightarrow> flinger \<Rightarrow> int \<times> flinger_call list \<times> flinger" where
  "send_bridge w data f =
     (if dumpSocketReady f \<ge> 0 then
        let sent = send_answer w
        in if sent < 1 then (0, [Send_socket (dumpSocket f) data], f\<lparr>dumpSocketWatchDog := 10\<rparr>)
           else (sent, [Send_socket (dumpSocket f) data], f\<lparr>dumpSocketWatchDog := 0\<rparr>)
      else (0, [], f))"

text \<open>\<open>count\<close> frames of four bytes from the mix buffer.  The result is \<open>framesWritten\<close>, the calls made and the
  new state.\<close>

definition threadLoop_write ::
  "flinger_os \<Rightarrow> bytes \<Rightarrow> nat \<Rightarrow> flinger \<Rightarrow> (int \<times> flinger_call list \<times> flinger) option" where
  "threadLoop_write w mix count f = (case read_switch f of
       None \<Rightarrow> None
     | Some f \<Rightarrow>
         if dumpSwitch f = 0
         then Some (sink_answer w, [Sink_write (take (count * 4) mix)],
                    f\<lparr>dumpSocketReady := -1, dumpSocket := -1\<rparr>)
         else
           let (cs, f) = connect_bridge w f;
               (n, ss, f) = send_bridge w (take (count * 4) mix) f
           in Some (n, cs @ ss, f))"

definition bytesWritten :: "int \<Rightarrow> int" where
  "bytesWritten framesWritten = (if framesWritten > 0 then framesWritten * 4 else framesWritten)"

subsection \<open>What is proved\<close>

text \<open>A call that neither reached the hardware nor handed anything over.\<close>

definition buffer_lost :: "int \<times> flinger_call list \<times> flinger \<Rightarrow> bool" where
  "buffer_lost r = (case r of (n, cs, f) \<Rightarrow> n < 1 \<and> (\<forall>m. Sink_write m \<notin> set cs))"

text \<open>The bytes handed to the socket, and to the hardware.\<close>

fun sent_bytes :: "flinger_call list \<Rightarrow> bytes" where
  "sent_bytes [] = []"
| "sent_bytes (Send_socket s d # cs) = d @ sent_bytes cs"
| "sent_bytes (_ # cs) = sent_bytes cs"

fun played_bytes :: "flinger_call list \<Rightarrow> bytes" where
  "played_bytes [] = []"
| "played_bytes (Sink_write d # cs) = d @ played_bytes cs"
| "played_bytes (_ # cs) = played_bytes cs"

text \<open>A number of calls, each with its answers and its full mix buffer.\<close>

fun write_loop :: "(flinger_os \<times> bytes) list \<Rightarrow> flinger \<Rightarrow> (flinger_call list \<times> flinger) option" where
  "write_loop [] f = Some ([], f)"
| "write_loop ((w, mix) # ws) f = (case threadLoop_write w mix (length mix div 4) f of
       None \<Rightarrow> None
     | Some (n, cs, f) \<Rightarrow> map_option (apfst ((@) cs)) (write_loop ws f))"

text \<open>Between calls there is a socket exactly when it is connected, unless the failure is still to be handled.\<close>

definition bridge_ok :: "flinger \<Rightarrow> bool" where
  "bridge_ok f \<longleftrightarrow> dumpSocketWatchDog f \<ge> 10 \<or> (dumpSocketReady f \<ge> 0 \<longleftrightarrow> dumpSocket f \<ge> 0)"

text \<open>The state between two calls of a connection that works.\<close>

definition bridging :: "flinger \<Rightarrow> bool" where
  "bridging f \<longleftrightarrow> dumpSocketReady f \<ge> 0 \<and> dumpSocket f \<ge> 0 \<and> dumpSocketWatchDog f = 0"

lemma scan_d_switch: "scan_d ''0'' = Some 0" "scan_d ''1'' = Some 1" "scan_d ''O'' = None"
  by code_simp+

lemma scan_d_zero:
  assumes "s = [] \<or> \<not> is_digit (hd s)"
  shows "scan_d (CHR ''0'' # s) = Some 0"
proof -
  have "is_digit CHR ''0''" "\<not> is_space CHR ''0''" by code_simp+
  moreover have "takeWhile is_digit s = []" using assms by (cases s) auto
  ultimately show ?thesis by (simp add: scan_d_def atoi_def digits_value_def Let_def)
qed

lemma bridge_ok_start: "bridge_ok (start_flinger file)"
  by (simp add: bridge_ok_def start_flinger_def)

lemma bridge_ok_step:
  assumes "bridge_ok f" and "threadLoop_write w mix count f = Some (n, cs, f')"
    and "socket_answer w < 0 \<longrightarrow> connect_answer w < 0"
  shows "bridge_ok f'"
  using assms
  by (auto simp: bridge_ok_def threadLoop_write_def read_switch_def connect_bridge_def send_bridge_def Let_def
      split: if_splits option.splits)

text \<open>C20. A broken bridge costs one buffer: when the player cannot be reached or takes nothing, the call that
  notices loses its buffer, and the next call writes to the hardware whatever the file says, with the switch in the
  file set to zero and the socket given up.\<close>

theorem bridge_failure_recovers:
  assumes "threadLoop_write w mix count f = Some r" and "buffer_lost r" and "bridge_ok f" and "socket_answer w < 0 \<longrightarrow> connect_answer w < 0"
  shows "\<exists>s. dumpSwitchFile (snd (snd r)) = Some s \<and> threadLoop_write w' mix' count' (snd (snd r)) =
    Some (sink_answer w', [Sink_write (take (count' * 4) mix')], \<lparr>dumpSwitchFile = Some (CHR ''0'' # tl s), dumpSocket = -1,
      dumpSocketReady = -1, dumpSocketWatchDog = 0, dumpSwitch = 0\<rparr>)"
proof -
  obtain s where s: "dumpSwitchFile f = Some s"
    using assms(1) by (auto simp: threadLoop_write_def read_switch_def split: option.splits)
  have "dumpSocketWatchDog (snd (snd r)) \<ge> 10" "\<exists>t. dumpSwitchFile (snd (snd r)) = Some t"
    using assms s
    by (auto simp: threadLoop_write_def read_switch_def connect_bridge_def send_bridge_def buffer_lost_def bridge_ok_def Let_def
        split: if_splits option.splits)
  then show ?thesis by (cases "snd (snd r)") (auto simp: threadLoop_write_def read_switch_def)
qed


theorem bridge_failure_recovers_witness:
  "\<exists>r. threadLoop_write \<lparr>socket_answer = 7, connect_answer = -1, send_answer = 0, sink_answer = 0\<rparr> [1, 2, 3, 4] 1
       (start_flinger (Some ''1'')) = Some r \<and>
     threadLoop_write \<lparr>socket_answer = 0, connect_answer = 0, send_answer = 0, sink_answer = 1\<rparr> [5, 6, 7, 8] 1 (snd (snd r)) =
       Some (1, [Sink_write [5, 6, 7, 8]], \<lparr>dumpSwitchFile = Some ''0'', dumpSocket = -1, dumpSocketReady = -1,
         dumpSocketWatchDog = 0, dumpSwitch = 0\<rparr>)"
proof -
  let ?w = "\<lparr>socket_answer = 7, connect_answer = -1, send_answer = 0, sink_answer = 0\<rparr>"
  let ?r = "(0 :: int, [Open_socket, Connect_socket 7], \<lparr>dumpSwitchFile = Some ''1'', dumpSocket = 7, dumpSocketReady = -1,
    dumpSocketWatchDog = 10, dumpSwitch = 1\<rparr>)"
  have r: "threadLoop_write ?w [1, 2, 3, 4] 1 (start_flinger (Some ''1'')) = Some ?r"
    by (simp add: threadLoop_write_def read_switch_def connect_bridge_def send_bridge_def start_flinger_def scan_d_switch)
  have "buffer_lost ?r" by (simp add: buffer_lost_def)
  from bridge_failure_recovers [OF r this bridge_ok_start, of "\<lparr>socket_answer = 0, connect_answer = 0, send_answer = 0, sink_answer = 1\<rparr>"
      "[5, 6, 7, 8]" 1] show ?thesis using r by simp
qed


end
