(* ===== verification/Airtunes.thy ===== *)
theory Airtunes
  imports JavaText AudioStream "HOL-Library.Signed_Division"
begin

text \<open>
  The Java sender of the repository: \<^verbatim>\<open>src/src/com/nixus/raop/speaker/airport/AirtunesManager.java\<close>, the connection
  state of \<^verbatim>\<open>AirtunesSpeaker.java\<close>, and the buffering of \<^verbatim>\<open>SpeakerImpl.java\<close>.  Java's \<open>int\<close>, \<open>long\<close> and
  \<open>byte\<close> are words of 32, 64 and 8 bits; a packet buffer that is kept and filled again is a slot of the list
  \<open>packetdata\<close>, and the queue holds slots.  The cipher is a parameter, for it belongs to the platform.
  An exception other than \<open>IOException\<close> ends the scheduled task for good; that is the outcome \<open>Died\<close>.
\<close>

definition SYNCFREQUENCY :: int where
  "SYNCFREQUENCY = 126"

definition PACKETSIZE :: nat where
  "PACKETSIZE = 352"

definition QUEUELENGTH :: nat where
  "QUEUELENGTH = 100"

definition MSECMULT :: u64 where
  "MSECMULT = 4294967"

subsection \<open>Numbers in packets\<close>

definition writeInt :: "u32 \<Rightarrow> bytes \<Rightarrow> nat \<Rightarrow> bytes" where
  "writeInt v buf off = buf[off := byte_of 24 v, off + 1 := byte_of 16 v, off + 2 := byte_of 8 v, off + 3 := byte_of 0 v]"

definition writeLong :: "u64 \<Rightarrow> bytes \<Rightarrow> nat \<Rightarrow> bytes" where
  "writeLong v buf off = buf[
     off := ucast (drop_bit 56 v), off + 1 := ucast (drop_bit 48 v), off + 2 := ucast (drop_bit 40 v),
     off + 3 := ucast (drop_bit 32 v), off + 4 := ucast (drop_bit 24 v), off + 5 := ucast (drop_bit 16 v),
     off + 6 := ucast (drop_bit 8 v), off + 7 := ucast v]"

text \<open>The sum is one of \<open>int\<close>, and is then widened with its sign.\<close>

definition readInt :: "bytes \<Rightarrow> nat \<Rightarrow> u64" where
  "readInt buf i = scast (push_bit 24 (ucast (buf ! i)) + push_bit 16 (ucast (buf ! (i + 1))) +
     push_bit 8 (ucast (buf ! (i + 2))) + ucast (buf ! (i + 3)) :: u32)"

definition readLong :: "bytes \<Rightarrow> nat \<Rightarrow> u64" where
  "readLong buf off = push_bit 32 (readInt buf off) + (readInt buf (off + 4) AND 0xFFFFFFFF)"

subsection \<open>Network time\<close>

text \<open>Division of \<open>long\<close> rounds towards zero.\<close>

definition long_div :: "u64 \<Rightarrow> u64 \<Rightarrow> u64" where
  "long_div a b = word_of_int (sint a sdiv sint b)"

definition long_rem :: "u64 \<Rightarrow> u64 \<Rightarrow> u64" where
  "long_rem a b = word_of_int (sint a smod sint b)"

definition initializeEpoch :: "u64 \<Rightarrow> u64 \<Rightarrow> u64 \<Rightarrow> u64" where
  "initializeEpoch now ntptime epoch = (if epoch = 0 then drop_bit 32 ntptime - long_div now 1000 else epoch)"

definition toNTPTime :: "u64 \<Rightarrow> u64 \<Rightarrow> u64" where
  "toNTPTime epoch ms =
     (let secs = long_div ms 1000 + epoch; frac = long_rem ms 1000 * MSECMULT in push_bit 32 secs + frac)"

definition fromNTPTime :: "u64 \<Rightarrow> u64 \<Rightarrow> u64" where
  "fromNTPTime epoch ntptime =
     (let secs = (drop_bit 32 ntptime - epoch) AND 0xFFFFFFFF; msecs = long_div (ntptime AND 0xFFFFFFFF) MSECMULT
      in secs * 1000 + msecs)"

text \<open>The answer to a timing packet of 32 bytes, and the epoch; other packets are not answered.\<close>

definition timing_pass :: "u64 \<Rightarrow> u64 \<Rightarrow> u64 \<Rightarrow> bytes \<Rightarrow> u64 \<times> bytes option" where
  "timing_pass receivetime sendtime epoch data =
     (if data ! 0 = 0x80 \<and> data ! 1 = 0xd2 then
        let epoch = initializeEpoch receivetime (readLong data 24) epoch;
            data = data[1 := 0xd3];
            data = take 8 data @ take 8 (drop 24 data) @ drop 16 data;
            data = writeLong (toNTPTime epoch receivetime) data 16;
            data = writeLong (toNTPTime epoch sendtime) data 24
        in (epoch, Some data)
      else (epoch, None))"

subsection \<open>The connection of a speaker\<close>

type_synonym address = "jstring \<times> int"
type_synonym datagram = "address \<times> bytes"

record aspeaker =
  touch :: int
  rtsp_open :: bool                     \<comment> \<open>the socket is not null\<close>
  aserver :: "address option"
  atiming :: "address option"
  acontrol :: "address option"
  latency :: u32

definition VALIDITY :: int where
  "VALIDITY = 9000"

definition EXPIRE :: int where
  "EXPIRE = 3000"

definition int_of_long :: "int \<Rightarrow> int" where
  "int_of_long x = sint (word_of_int x :: u32)"

text \<open>Times are in milliseconds.\<close>

definition touch_speaker :: "int \<Rightarrow> aspeaker \<Rightarrow> aspeaker" where
  "touch_speaker now s = s\<lparr>touch := max (touch s) (int_of_long (now sdiv 1000))\<rparr>"

text \<open>Closing a socket that is null is the exception \<open>None\<close>.\<close>

definition invalidate :: "aspeaker \<Rightarrow> aspeaker option" where
  "invalidate s = (if rtsp_open s
     then Some (s\<lparr>rtsp_open := False, touch := 0, aserver := None, atiming := None, acontrol := None\<rparr>) else None)"

definition isConnected :: "int \<Rightarrow> aspeaker \<Rightarrow> (bool \<times> aspeaker) option" where
  "isConnected now s = (if (now - EXPIRE) sdiv 1000 > touch s then map_option (Pair False) (invalidate s)
     else Some (True, s))"

subsection \<open>State of the sender\<close>

record amanager =
  rtptime :: u32
  rtpseq :: u32
  packetcount :: u32
  ssrc :: u32
  speakerstarted :: bool
  packetqueue :: "nat list"
  packetdata :: "bytes list"
  packetdatahead :: nat
  cipherinput :: bytes
  am_epoch :: u64
  speakers :: "aspeaker list"

text \<open>The search for a free port: the test is at the end, so that the last port tried is 64999.\<close>

function find_port :: "(nat \<Rightarrow> bool) \<Rightarrow> nat \<Rightarrow> nat option" where
  "find_port free p = (if free p then Some p else if p + 1 < 65000 then find_port free (p + 1) else None)"
  by pat_completeness auto

termination
  by (relation "measure (\<lambda>(free, p). 65000 - p)") auto

declare find_port.simps [simp del]

text \<open>The timing port is searched behind the control port.  A missing control port is an exception; a missing timing
  port is found out later.\<close>

definition find_ports :: "(nat \<Rightarrow> bool) \<Rightarrow> (nat \<times> nat option) option" where
  "find_ports free = (case find_port free 6001 of
       None \<Rightarrow> None
     | Some c \<Rightarrow> Some (c, find_port free (c + 1)))"

text \<open>The first two arguments are what the random generator gives.\<close>

definition start_manager :: "u32 \<Rightarrow> u32 \<Rightarrow> u32 \<Rightarrow> amanager \<Rightarrow> amanager" where
  "start_manager seq time source m = m\<lparr>rtpseq := seq, rtptime := time, ssrc := source, packetcount := 0,
     speakerstarted := False, am_epoch := 0, packetqueue := [],
     packetdata := map (\<lambda>data. writeInt source (data[0 := 0x80]) 8) (packetdata m),
     cipherinput := (cipherinput m)[0 := 0x20, 1 := 0]\<rparr>"

definition new_manager_state :: amanager where
  "new_manager_state = \<lparr>rtptime = 0, rtpseq = 0, packetcount = 0, ssrc = 0, speakerstarted = False, packetqueue = [],
     packetdata = replicate (QUEUELENGTH + 5) (replicate (PACKETSIZE * 4 + 15) 0), packetdatahead = 0,
     cipherinput = replicate 1408 0, am_epoch = 0, speakers = []\<rparr>"

subsection \<open>Filling a packet\<close>

text \<open>The first byte of a sample moves down by one bit, behind the lowest bit of the byte before it.\<close>

definition shifted :: "u8 \<Rightarrow> u8 \<Rightarrow> u8" where
  "shifted v w = drop_bit 7 (v AND 0x80) OR push_bit 1 w"

definition pack_step :: "bytes \<Rightarrow> nat \<Rightarrow> nat \<Rightarrow> nat \<Rightarrow> u8 \<times> bytes \<Rightarrow> u8 \<times> bytes" where
  "pack_step buf off highbyte k s =
     (let (v1, ci) = s;
          i = 2 * k;
          v2 = buf ! (off + i + highbyte);
          ci = ci[i + 2 := shifted v2 v1];
          v1 = buf ! (off + i + (1 - highbyte));
          ci = ci[i + 3 := shifted v1 v2]
      in (v1, ci))"

text \<open>What \<open>sendAudioPacket\<close> does up to putting the buffer into the queue: its slot, and the new state.  A wrong length
  is an exception, as is an array that is too short.\<close>

definition fill_packet ::
  "(bytes \<Rightarrow> bytes) \<Rightarrow> bytes \<Rightarrow> nat \<Rightarrow> nat \<Rightarrow> bool \<Rightarrow> amanager \<Rightarrow> (nat \<times> amanager) option" where
  "fill_packet cipher buf off len bigendian m =
     (if len \<noteq> PACKETSIZE * 4 \<or> off + len > length buf then None
      else
        let slot = packetdatahead m;
            data = packetdata m ! slot;
            head = Suc slot mod length (packetdata m);
            data = data[1 := (if packetcount m = 0 then 0xe0 else 0x60)];
            highbyte = (if bigendian then 0 else 1);
            n = (len - 2) div 2;
            (v1, ci) = fold (pack_step buf off highbyte) [0..<n] (1, cipherinput m);
            data = take 12 data @ cipher ci @ drop (12 + length ci) data;
            i = 2 * n;
            v2 = buf ! (off + i + highbyte);
            data = data[length data - 3 := shifted v2 v1];
            v1 = buf ! (off + i + (1 - highbyte));
            data = data[length data - 2 := shifted v1 v2, length data - 1 := push_bit 1 v1]
        in Some (slot, m\<lparr>packetdatahead := head, packetdata := (packetdata m)[slot := data], cipherinput := ci,
             speakerstarted := True\<rparr>))"

text \<open>A full queue makes the caller wait.\<close>

definition put_packet :: "nat \<Rightarrow> amanager \<Rightarrow> amanager option" where
  "put_packet slot m = (if length (packetqueue m) < QUEUELENGTH
     then Some (m\<lparr>packetqueue := packetqueue m @ [slot]\<rparr>) else None)"

definition clear_queue :: "amanager \<Rightarrow> amanager" where
  "clear_queue m = m\<lparr>packetqueue := [], packetcount := 0, speakerstarted := False\<rparr>"

text \<open>Once the queue is empty.\<close>

definition drained :: "amanager \<Rightarrow> amanager" where
  "drained m = m\<lparr>packetcount := 0, speakerstarted := False\<rparr>"

subsection \<open>Sending\<close>

datatype outcome = Done | Failed | Died

text \<open>The function says which datagrams can be sent; the others are an \<open>IOException\<close>.  An address that is null is not
  one, but an \<open>IllegalArgumentException\<close>.\<close>

fun sync_to :: "(datagram \<Rightarrow> bool) \<Rightarrow> u32 \<Rightarrow> bytes \<Rightarrow> aspeaker list \<Rightarrow> datagram list \<times> outcome" where
  "sync_to ok time data [] = ([], Done)"
| "sync_to ok time data (s # ss) = (case acontrol s of
       None \<Rightarrow> ([], Died)
     | Some a \<Rightarrow>
         let data = writeInt (time - latency s) data 4
         in if ok (a, data) then apfst ((#) (a, data)) (sync_to ok time data ss) else ([], Failed))"

definition sendSyncPacket :: "(datagram \<Rightarrow> bool) \<Rightarrow> u64 \<Rightarrow> bool \<Rightarrow> amanager \<Rightarrow> datagram list \<times> outcome" where
  "sendSyncPacket ok now first m =
     (let data = (replicate 20 0)[0 := (if first then 0x90 else 0x80), 1 := 0xd4, 2 := 0, 3 := 0x07];
          data = writeInt (rtptime m) data 16;
          data = writeLong (toNTPTime (am_epoch m) now) data 8
      in sync_to ok (rtptime m) data (speakers m))"

text \<open>A speaker that is not connected is left out; the test itself can change it.\<close>

fun audio_to :: "(datagram \<Rightarrow> bool) \<Rightarrow> int \<Rightarrow> bytes \<Rightarrow> aspeaker list \<Rightarrow> datagram list \<times> outcome \<times> aspeaker list" where
  "audio_to ok now data [] = ([], Done, [])"
| "audio_to ok now data (s # ss) = (case isConnected now s of
       None \<Rightarrow> ([], Died, s # ss)
     | Some (False, s) \<Rightarrow> (case audio_to ok now data ss of (ds, r, ss) \<Rightarrow> (ds, r, s # ss))
     | Some (True, s) \<Rightarrow> (case aserver s of
         None \<Rightarrow> ([], Died, s # ss)
       | Some a \<Rightarrow>
           if ok (a, data) then (case audio_to ok now data ss of (ds, r, ss) \<Rightarrow> ((a, data) # ds, r, s # ss))
           else ([], Failed, s # ss)))"

text \<open>A packet with the number and the time it is sent under.\<close>

definition stamp :: "u32 \<Rightarrow> u32 \<Rightarrow> bytes \<Rightarrow> bytes" where
  "stamp seq time data = writeInt time (data[2 := byte_of 8 seq, 3 := byte_of 0 seq]) 4"

text \<open>What is done with the buffer that was taken from the queue.\<close>

definition send_polled :: "(datagram \<Rightarrow> bool) \<Rightarrow> int \<Rightarrow> nat \<Rightarrow> amanager \<Rightarrow> datagram list \<times> outcome \<times> amanager" where
  "send_polled ok now slot m =
     (let (ds, r) = (if sint (packetcount m) smod SYNCFREQUENCY = 0
            then sendSyncPacket ok (word_of_int now) (packetcount m = 0) m else ([], Done))
      in if r \<noteq> Done then (ds, r, m)
         else
           let data = stamp (rtpseq m) (rtptime m) (packetdata m ! slot);
               m = m\<lparr>packetdata := (packetdata m)[slot := data]\<rparr>;
               (as, r, ss) = audio_to ok now data (speakers m);
               m = m\<lparr>speakers := ss\<rparr>
           in (ds @ as, r, if r = Done
                then m\<lparr>rtpseq := rtpseq m + 1, rtptime := rtptime m + of_nat PACKETSIZE, packetcount := packetcount m + 1\<rparr>
                else m))"

definition sender_run :: "(datagram \<Rightarrow> bool) \<Rightarrow> int \<Rightarrow> amanager \<Rightarrow> datagram list \<times> outcome \<times> amanager" where
  "sender_run ok now m = (case packetqueue m of
       [] \<Rightarrow> ([], Done, m)
     | slot # q \<Rightarrow> send_polled ok now slot (m\<lparr>packetqueue := q\<rparr>))"

text \<open>The two threads.  The thread that plays holds the lock of the manager from the choice of a slot until the slot is in
  the queue, \<open>Filling\<close>; the sender works on the slot it has taken, \<open>Sending\<close>, without the lock.\<close>

datatype thread_action = Fill bytes nat bool | Put | Clear | Drained | Poll | Send int

record threads =
  manager_state :: amanager
  filling :: "nat option"
  in_flight :: "nat option"

text \<open>\<open>None\<close>: the step is not possible here.\<close>

fun thread_step :: "(bytes \<Rightarrow> bytes) \<Rightarrow> (datagram \<Rightarrow> bool) \<Rightarrow> thread_action \<Rightarrow> threads \<Rightarrow> threads option" where
  "thread_step cipher ok (Fill buf off big) t = (if filling t \<noteq> None then None else
     case fill_packet cipher buf off 1408 big (manager_state t) of
       None \<Rightarrow> None | Some (slot, m) \<Rightarrow> Some (t\<lparr>manager_state := m, filling := Some slot\<rparr>))"
| "thread_step cipher ok Put t = (case filling t of
       None \<Rightarrow> None
     | Some slot \<Rightarrow> map_option (\<lambda>m. t\<lparr>manager_state := m, filling := None\<rparr>) (put_packet slot (manager_state t)))"
| "thread_step cipher ok Clear t = (if filling t \<noteq> None then None
     else Some (t\<lparr>manager_state := clear_queue (manager_state t)\<rparr>))"
| "thread_step cipher ok Drained t = (if filling t \<noteq> None \<or> packetqueue (manager_state t) \<noteq> [] then None
     else Some (t\<lparr>manager_state := drained (manager_state t)\<rparr>))"
| "thread_step cipher ok Poll t = (case packetqueue (manager_state t) of
       [] \<Rightarrow> None
     | slot # q \<Rightarrow> if in_flight t \<noteq> None then None
         else Some (t\<lparr>manager_state := (manager_state t)\<lparr>packetqueue := q\<rparr>, in_flight := Some slot\<rparr>))"
| "thread_step cipher ok (Send now) t = (case in_flight t of
       None \<Rightarrow> None
     | Some slot \<Rightarrow> (case send_polled ok now slot (manager_state t) of
         (ds, r, m) \<Rightarrow> if r = Died then None else Some (t\<lparr>manager_state := m, in_flight := None\<rparr>)))"

fun thread_run :: "(bytes \<Rightarrow> bytes) \<Rightarrow> (datagram \<Rightarrow> bool) \<Rightarrow> thread_action list \<Rightarrow> threads \<Rightarrow> threads option" where
  "thread_run cipher ok [] t = Some t"
| "thread_run cipher ok (x # xs) t = Option.bind (thread_step cipher ok x t) (thread_run cipher ok xs)"

subsection \<open>The buffer of a speaker\<close>

text \<open>\<open>SpeakerImpl.write\<close>: what is held back, and the packets handed on.\<close>

function whole_packets :: "bytes \<Rightarrow> nat \<Rightarrow> nat \<Rightarrow> bytes list \<times> nat \<times> nat" where
  "whole_packets buf off len = (if len \<ge> 1408
     then apfst ((#) (take 1408 (drop off buf))) (whole_packets buf (off + 1408) (len - 1408)) else ([], off, len))"
  by pat_completeness auto

termination
  by (relation "measure (\<lambda>(buf, off, len). len)") auto

declare whole_packets.simps [simp del]

record speaker_impl =
  holdbuf :: bytes
  holdlen :: nat

definition write_speaker :: "bytes \<Rightarrow> nat \<Rightarrow> nat \<Rightarrow> speaker_impl \<Rightarrow> bytes list \<times> speaker_impl" where
  "write_speaker buf off len s =
     (let size = 1408;
          (ps, s, off, len) =
            (if holdlen s \<noteq> 0 \<and> holdlen s + len \<ge> size then
               let len1 = size - holdlen s;
                   hold = take (holdlen s) (holdbuf s) @ take len1 (drop off buf)
               in ([hold], s\<lparr>holdbuf := hold, holdlen := 0\<rparr>, off + len1, len - len1)
             else ([], s, off, len));
          (qs, off, len) = whole_packets buf off len;
          s = (if len \<noteq> 0
               then s\<lparr>holdbuf := take (holdlen s) (holdbuf s) @ take len (drop off buf) @ drop (holdlen s + len) (holdbuf s),
                      holdlen := holdlen s + len\<rparr>
               else s)
      in (ps @ qs, s))"

text \<open>The whole operation, for a speaker that may be closed, which is an exception, and of which only the first one of a
  manager passes on what it is given.\<close>

definition speaker_write :: "bool \<Rightarrow> bool \<Rightarrow> bytes \<Rightarrow> nat \<Rightarrow> nat \<Rightarrow> speaker_impl \<Rightarrow> (bytes list \<times> speaker_impl) option" where
  "speaker_write isOpen isListening buf off len s =
     (if \<not> isOpen then None else if isListening then Some (write_speaker buf off len s) else Some ([], s))"

definition speaker_flush :: "bool \<Rightarrow> bool \<Rightarrow> amanager \<Rightarrow> speaker_impl \<Rightarrow> (amanager \<times> speaker_impl) option" where
  "speaker_flush isOpen isListening m s =
     (if \<not> isOpen then None else Some (if isListening then clear_queue m else m, s\<lparr>holdlen := 0\<rparr>))"

subsection \<open>What is proved\<close>

definition held :: "speaker_impl \<Rightarrow> bytes" where
  "held s = take (holdlen s) (holdbuf s)"

definition hold_ok :: "speaker_impl \<Rightarrow> bool" where
  "hold_ok s \<longleftrightarrow> length (holdbuf s) = 1408 \<and> holdlen s < 1408"

text \<open>A sequence of writes, each an array with an offset and a length.\<close>

fun write_each :: "(bytes \<times> nat \<times> nat) list \<Rightarrow> speaker_impl \<Rightarrow> bytes list \<times> speaker_impl" where
  "write_each [] s = ([], s)"
| "write_each ((buf, off, len) # ws) s =
     (let (ps, s) = write_speaker buf off len s; (qs, s) = write_each ws s in (ps @ qs, s))"

text \<open>The bits of a sequence of bytes, highest first.\<close>

definition bits_of :: "bytes \<Rightarrow> bool list" where
  "bits_of bs = concat (map (\<lambda>b. field b 8) bs)"

text \<open>The fields of the frame in a packet: the header of the native player's default frame, and the samples.\<close>

definition packet_fields :: "bool \<Rightarrow> bytes \<Rightarrow> (u8 \<times> nat) list" where
  "packet_fields bigendian mem = header_fields 4096 @ concat (map (\<lambda>k.
     if bigendian then [(mem ! (4 * k), 8), (mem ! (4 * k + 1), 8), (mem ! (4 * k + 2), 8), (mem ! (4 * k + 3), 8)]
     else sample_fields mem k) [0..<PACKETSIZE])"

text \<open>What a receiver gets out of a packet: the decrypted part and the rest.\<close>

definition packet_frame :: "(bytes \<Rightarrow> bytes) \<Rightarrow> bytes \<Rightarrow> bytes" where
  "packet_frame decipher data = decipher (take 1408 (drop 12 data)) @ drop 1420 data"

text \<open>A cipher without padding keeps the length of whole blocks.\<close>

definition block_cipher :: "(bytes \<Rightarrow> bytes) \<Rightarrow> bool" where
  "block_cipher cipher \<longleftrightarrow> (\<forall>bs. length bs = 1408 \<longrightarrow> length (cipher bs) = 1408)"

text \<open>The invariant of the buffers since the start of the manager.\<close>

definition buffers_ok :: "amanager \<Rightarrow> bool" where
  "buffers_ok m \<longleftrightarrow> length (packetdata m) = QUEUELENGTH + 5 \<and> packetdatahead m < QUEUELENGTH + 5 \<and>
     (\<forall>d \<in> set (packetdata m). length d = PACKETSIZE * 4 + 15) \<and>
     length (cipherinput m) = 1408 \<and> take 2 (cipherinput m) = [0x20, 0]"

subsection \<open>Holding back\<close>

lemma nth_update_if: "xs[i := x] ! j = (if i = j \<and> j < length xs then x else xs ! j)"
  by (cases "i = j"; cases "j < length xs") (auto simp: list_update_beyond)

lemma whole_packets_split:
  assumes "whole_packets buf off len = (ps, off', len')" and "off + len \<le> length buf"
  shows "concat ps @ take len' (drop off' buf) = take len (drop off buf)" and "len' < 1408" and "\<forall>p \<in> set ps. length p = 1408"
    and "off' + len' = off + len"
  using assms
proof (induction buf off len arbitrary: ps off' len' rule: whole_packets.induct)
  case (1 buf off len)
  have split: "take len (drop off buf) = take 1408 (drop off buf) @ take (len - 1408) (drop (off + 1408) buf)" if "len \<ge> 1408"
    using that take_add [of 1408 "len - 1408" "drop off buf"] by (simp add: add.commute)
  {
    case 1
    then show ?case using "1.IH" (1) split by (auto simp: whole_packets.simps [of buf off len] apfst_def map_prod_def split: if_splits prod.splits)
  next
    case 2
    then show ?case using "1.IH" (2) by (auto simp: whole_packets.simps [of buf off len] apfst_def map_prod_def split: if_splits prod.splits)
  next
    case 3
    then show ?case using "1.IH" (3) by (fastforce simp: whole_packets.simps [of buf off len] apfst_def map_prod_def split: if_splits prod.splits)
  next
    case 4
    then show ?case using "1.IH" (4) by (fastforce simp: whole_packets.simps [of buf off len] apfst_def map_prod_def split: if_splits prod.splits)
  }
qed

lemma whole_packets_none: "len < 1408 \<Longrightarrow> whole_packets buf off len = ([], off, len)"
  by (simp add: whole_packets.simps)

lemma write_speaker_stream:
  assumes "hold_ok s" and "off + len \<le> length buf" and "write_speaker buf off len s = (ps, s')"
  shows "hold_ok s' \<and> concat ps @ held s' = held s @ take len (drop off buf) \<and> (\<forall>p \<in> set ps. length p = 1408)"
proof (cases "holdlen s \<noteq> 0 \<and> holdlen s + len \<ge> 1408")
  case True
  define len1 where "len1 = 1408 - holdlen s"
  obtain qs off' len' where w: "whole_packets buf (off + len1) (len - len1) = (qs, off', len')"
    by (metis prod_cases3)
  have l: "len1 \<le> len" using True unfolding len1_def by linarith
  note q = whole_packets_split [OF w]
  have h: "holdlen s + len1 = 1408" using assms(1) unfolding len1_def hold_ok_def by simp
  have "take len (drop off buf) = take len1 (drop off buf) @ take (len - len1) (drop (off + len1) buf)"
    using l take_add [of len1 "len - len1" "drop off buf"] by (simp add: add.commute)
  then have c: "concat qs @ take len' (drop off' buf) = drop len1 (take len (drop off buf))"
    "take len (drop off buf) = take len1 (drop off buf) @ concat qs @ take len' (drop off' buf)"
    using q(1) l assms(2) by simp_all
  define hold where "hold = take (holdlen s) (holdbuf s) @ take len1 (drop off buf)"
  have hl: "length hold = 1408" using h l assms(1,2) by (simp add: hold_def hold_ok_def)
  have ps: "ps = hold # qs" and s': "holdlen s' = len'" "length (holdbuf s') = 1408" "take len' (holdbuf s') = take len' (drop off' buf)"
    using assms(2,3) True w q(2,4) l hl
    by (auto simp: write_speaker_def Let_def len1_def [symmetric] hold_def [symmetric])
  show ?thesis using q(2,3) l hl assms(2) by (simp add: hold_ok_def held_def ps s' hold_def c(2))
next
  case False
  obtain qs off' len' where w: "whole_packets buf off len = (qs, off', len')" by (metis prod_cases3)
  note q = whole_packets_split [OF w assms(2)]
  have "holdlen s \<noteq> 0 \<Longrightarrow> qs = [] \<and> off' = off \<and> len' = len" using False w by (simp add: whole_packets_none)
  then show ?thesis
    using assms False w q by (cases "holdlen s = 0") (auto simp: write_speaker_def hold_ok_def held_def Let_def)
qed

lemma write_each_stream:
  assumes "hold_ok s" and "\<forall>(buf, off, len) \<in> set ws. off + len \<le> length buf" and "write_each ws s = (ps, s')"
  shows "hold_ok s' \<and> concat ps @ held s' = held s @ concat (map (\<lambda>(buf, off, len). take len (drop off buf)) ws) \<and>
    (\<forall>p \<in> set ps. length p = 1408)"
  using assms
proof (induction ws arbitrary: s ps)
  case (Cons x ws)
  obtain buf off len where x: "x = (buf, off, len)" by (metis prod_cases3)
  obtain ps1 s1 where w: "write_speaker buf off len s = (ps1, s1)" by force
  obtain qs where r: "write_each ws s1 = (qs, s')" "ps = ps1 @ qs" using Cons.prems(3) w by (auto simp: x Let_def split: prod.splits)
  note a = write_speaker_stream [OF Cons.prems(1) _ w]
  have "off + len \<le> length buf" using Cons.prems(2) by (simp add: x)
  then show ?case using a Cons.IH [OF _ _ r(1)] Cons.prems(2) r(2) by (fastforce simp: x)
qed simp

subsection \<open>The bits of a packet\<close>

lemma bits_of_append [simp]: "bits_of (a @ b) = bits_of a @ bits_of b"
  by (simp add: bits_of_def)

lemma bits_of_Cons: "bits_of (b # bs) = field b 8 @ bits_of bs"
  by (simp add: bits_of_def)

lemma field_8: "field b 8 = bit b 7 # field b 7"
  by (simp add: field_def eval_nat_numeral)

lemma bit_double: "bit (w * 2 :: u8) n \<longleftrightarrow> n \<noteq> 0 \<and> n < 8 \<and> bit w (n - 1)"
  using bit_push_bit_iff [of 1 w n] by (auto simp: Suc_le_eq)

lemma field_shifted: "field (shifted v w) 8 = field w 7 @ [bit v 7]"
proof -
  have "bit (shifted v w) n = (if n = 0 then bit v 7 else n < 8 \<and> bit w (n - 1))" for n
    using bit_imp_le_length [of v "n + 7"]
    by (cases n) (auto simp: shifted_def bit_or_iff bit_and_iff bit_drop_bit_eq bit_double bit_numeral_rec)
  then show ?thesis by (simp add: field_def eval_nat_numeral)
qed

lemma field_double: "field (w * 2) 8 = field w 7 @ [False]"
  by (simp add: field_def eval_nat_numeral bit_double)

lemma pack_fold_length: "length (snd (fold (pack_step buf off h) ks s)) = length (snd s)"
  by (induction ks arbitrary: s) (simp_all add: pack_step_def Let_def split: prod.splits)

text \<open>What the loop has stored, with the seven bits still to be stored, is what was there and the bytes it has read.\<close>

lemma pack_fold_bits:
  assumes "2 * n + 2 \<le> length ci" and "fold (pack_step buf off h) [0..<n] (v, ci) = (v', ci')"
  shows "bits_of (take (2 * n + 2) ci') @ field v' 7 =
    bits_of (take 2 ci) @ field v 7 @
      concat (map (\<lambda>k. field (buf ! (off + 2 * k + h)) 8 @ field (buf ! (off + 2 * k + (1 - h))) 8) [0..<n]) \<and> take 2 ci' = take 2 ci"
  using assms
proof (induction n arbitrary: v' ci')
  case (Suc n)
  obtain v1 c1 where f: "fold (pack_step buf off h) [0..<n] (v, ci) = (v1, c1)" by force
  have l: "length c1 = length ci" using pack_fold_length [of buf off h "[0..<n]" "(v, ci)"] f by simp
  define hi lo where hl: "hi = buf ! (off + 2 * n + h)" "lo = buf ! (off + 2 * n + (1 - h))"
  have r: "v' = lo" "ci' = c1[2 * n + 2 := shifted hi v1, 2 * n + 3 := shifted lo hi]"
    using Suc.prems(2) by (auto simp: f pack_step_def [of buf off h n] Let_def hl)
  have t: "take (2 * Suc n + 2) ci' = take (2 * n + 2) c1 @ [shifted hi v1, shifted lo hi]"
    using Suc.prems(1) l unfolding r(2) by (simp add: take_Suc_conv_app_nth take_update_swap list_update_append eval_nat_numeral)
  have "take 2 ci' = take 2 c1" unfolding r(2) by (simp add: take_update_swap list_update_beyond)
  moreover have "bits_of (take (2 * Suc n + 2) ci') @ field v' 7 = (bits_of (take (2 * n + 2) c1) @ field v1 7) @ field hi 8 @ field lo 8"
    unfolding t r(1) by (simp add: bits_of_Cons field_shifted field_8 [of hi] field_8 [of lo] bits_of_def [of "[]"])
  ultimately show ?case using Suc.IH [OF _ f] Suc.prems(1) by (simp add: hl)
qed (simp add: numeral_2_eq_2)

lemma concat_of_concat: "concat (concat xss) = concat (map concat xss)"
  by (induction xss) simp_all

lemma packet_fields_bits:
  "concat (map (\<lambda>(d, n). field d n) (packet_fields bigendian mem)) =
   field 0x20 8 @ field 0 8 @ field 1 7 @ concat (map (\<lambda>k. field (mem ! (2 * k + (if bigendian then 0 else 1))) 8 @
     field (mem ! (2 * k + (1 - (if bigendian then 0 else 1)))) 8) [0..<704])"
proof -
  note upt_rec_numeral [simp del]
  have h: "concat (map (\<lambda>(d, n). field d n) (header_fields 4096)) = field 0x20 8 @ field 0 8 @ field 1 7" by code_simp
  let ?f = "\<lambda>k. field (mem ! (2 * k + (if bigendian then 0 else 1))) 8 @ field (mem ! (2 * k + (1 - (if bigendian then 0 else 1)))) 8"
  have "concat (map ?f [0..<2 * n]) = concat (map (\<lambda>k. concat (map (\<lambda>(d, n). field d n) (
     if bigendian then [(mem ! (4 * k), 8), (mem ! (4 * k + 1), 8), (mem ! (4 * k + 2), 8), (mem ! (4 * k + 3), 8)]
     else sample_fields mem k))) [0..<n])" for n
    by (induction n) (simp_all add: sample_fields_def algebra_simps numeral_3_eq_3)
  from this [of 352] show ?thesis by (simp add: packet_fields_def h PACKETSIZE_def map_concat comp_def concat_of_concat)
qed

lemma list_length_3: "length xs = 3 \<Longrightarrow> \<exists>a b c. xs = [a, b, c]"
  by (cases xs; cases "tl xs"; cases "tl (tl xs)") auto

lemma upt_703: "[0..<704] = [0..<703] @ [703 :: nat]"
proof -
  have "[0..<Suc 703] = [0..<703] @ [703 :: nat]" by (rule upt_Suc_append) simp
  then show ?thesis by (simp only: Suc_numeral semiring_norm)
qed

lemma packed_frame:
  assumes "length ci0 = 1408" and "take 2 ci0 = [0x20, 0]" and "off + 1408 \<le> length buf" and h: "h = (if bigendian then 0 else 1)"
    and f: "fold (pack_step buf off h) [0..<703] (1, ci0) = (v, ci)" and "v2 = buf ! (off + 1406 + h)" and "v3 = buf ! (off + 1406 + (1 - h))"
  shows "length ci = 1408" and "take 2 ci = [0x20, 0]"
    and "bits_of (ci @ [shifted v2 v, shifted v3 v2, push_bit 1 v3]) =
      concat (map (\<lambda>(d, n). field d n) (packet_fields bigendian (drop off buf))) @ [False]"
proof -
  note upt_rec_numeral [simp del]
  show l: "length ci = 1408" using pack_fold_length [of buf off h "[0..<703]" "(1, ci0)"] f assms(1) by simp
  have b: "bits_of ci @ field v 7 = field 0x20 8 @ field 0 8 @ field 1 7 @
      concat (map (\<lambda>k. field (buf ! (off + 2 * k + h)) 8 @ field (buf ! (off + 2 * k + (1 - h))) 8) [0..<703])"
    and t: "take 2 ci = take 2 ci0"
    using pack_fold_bits [OF _ f] assms(1,2) l by (simp_all add: bits_of_def)
  show "take 2 ci = [0x20, 0]" using t assms(2) by simp
  have "off \<le> length buf" using assms(3) by simp
  note n = nth_drop [OF this]
  have "bits_of (ci @ [shifted v2 v, shifted v3 v2, push_bit 1 v3]) = (bits_of ci @ field v 7) @ field v2 8 @ field v3 8 @ [False]"
    by (simp add: bits_of_Cons field_shifted field_double field_8 [of v2] field_8 [of v3] bits_of_def [of "[]"])
  then show "bits_of (ci @ [shifted v2 v, shifted v3 v2, push_bit 1 v3]) =
      concat (map (\<lambda>(d, n). field d n) (packet_fields bigendian (drop off buf))) @ [False]"
    unfolding b packet_fields_bits upt_703 h [symmetric] assms(6,7) by (simp add: add.assoc n)
qed

lemma fill_packet_layout:
  assumes "buffers_ok m" and "off + 1408 \<le> length buf" and "block_cipher cipher"
  obtains m' ci hd3 tail where "fill_packet cipher buf off 1408 bigendian m = Some (packetdatahead m, m')" and "buffers_ok m'"
    and "packetdata m' = (packetdata m)[packetdatahead m := hd3 @ cipher ci @ tail]"
    and "length hd3 = 12" and "length ci = 1408"
    and "packetdatahead m' = Suc (packetdatahead m) mod (QUEUELENGTH + 5)" and "packetqueue m' = packetqueue m"
    and "bits_of (ci @ tail) = concat (map (\<lambda>(d, n). field d n) (packet_fields bigendian (drop off buf))) @ [False]"
proof -
  note upt_rec_numeral [simp del]
  define h where "h = (if bigendian then 0 else 1 :: nat)"
  define d where "d = packetdata m ! packetdatahead m"
  define d1 where "d1 = d[1 := (if packetcount m = 0 then 0xe0 else 0x60)]"
  obtain v ci where f: "fold (pack_step buf off h) [0..<703] (1, cipherinput m) = (v, ci)" by force
  have m: "length (cipherinput m) = 1408" "take 2 (cipherinput m) = [0x20, 0]" "length d1 = 1423" "packetdatahead m < 105"
      "length (packetdata m) = 105"
    using assms(1) nth_mem [of "packetdatahead m" "packetdata m"] by (auto simp: buffers_ok_def PACKETSIZE_def QUEUELENGTH_def d1_def d_def)
  define v2 v3 where v: "v2 = buf ! (off + 1406 + h)" "v3 = buf ! (off + 1406 + (1 - h))"
  note p = packed_frame [OF m(1,2) assms(2) h_def f v]
  define tail where "tail = [shifted v2 v, shifted v3 v2, push_bit 1 v3]"
  define data where "data = take 12 d1 @ cipher ci @ tail"
  define m' where "m' = m\<lparr>packetdatahead := Suc (packetdatahead m) mod length (packetdata m),
    packetdata := (packetdata m)[packetdatahead m := data], cipherinput := ci, speakerstarted := True\<rparr>"
  have hl: "length (take 12 d1) = 12" "length (cipher ci) = 1408" using m(3) assms(3) p(1) by (simp_all add: block_cipher_def)
  obtain a b c where abc: "drop 1420 d1 = [a, b, c]" using list_length_3 [of "drop 1420 d1"] m(3) by auto
  have "(take 12 d1 @ cipher ci @ drop 1420 d1)[1420 := x, 1421 := y, 1422 := z] = take 12 d1 @ cipher ci @ [x, y, z]" for x y z
    using hl abc by (simp add: list_update_append)
  moreover have "length (take 12 d1 @ cipher ci @ drop 1420 d1) = 1423" using hl abc by simp
  ultimately have "fill_packet cipher buf off 1408 bigendian m = Some (packetdatahead m, m')"
    using assms(2) f [unfolded h_def] p(1)
    by (simp add: fill_packet_def Let_def PACKETSIZE_def m'_def data_def tail_def v h_def d1_def d_def)
  moreover have "buffers_ok m'"
    using assms(1) p m hl set_update_subset_insert [of "packetdata m" "packetdatahead m" data]
    by (auto simp: buffers_ok_def m'_def data_def tail_def PACKETSIZE_def QUEUELENGTH_def)
  ultimately show thesis
    using that [of m' "take 12 d1" ci tail] hl(1) p(1,3) by (simp add: m'_def m(5) QUEUELENGTH_def tail_def data_def)
qed


lemma start_buffers_ok: "buffers_ok (start_manager seq time source new_manager_state)"
  by (auto simp: buffers_ok_def start_manager_def new_manager_state_def writeInt_def QUEUELENGTH_def PACKETSIZE_def)
    (simp_all add: eval_nat_numeral)

subsection \<open>Slots\<close>

text \<open>The last \<open>n\<close> slots before the head.\<close>

fun recent :: "nat \<Rightarrow> nat \<Rightarrow> nat list" where
  "recent 0 h = []"
| "recent (Suc n) h = recent n ((h + 104) mod 105) @ [(h + 104) mod 105]"

definition slots_in_use :: "threads \<Rightarrow> nat list" where
  "slots_in_use t = (case in_flight t of None \<Rightarrow> [] | Some s \<Rightarrow> [s]) @ packetqueue (manager_state t) @
     (case filling t of None \<Rightarrow> [] | Some s \<Rightarrow> [s])"

definition slots_ok :: "threads \<Rightarrow> bool" where
  "slots_ok t \<longleftrightarrow> buffers_ok (manager_state t) \<and> length (packetqueue (manager_state t)) \<le> QUEUELENGTH \<and>
     (\<exists>n. slots_in_use t = recent n (packetdatahead (manager_state t)))"

lemma length_recent [simp]: "length (recent n h) = n"
  by (induction n arbitrary: h) simp_all

lemma recent_add: "h < 105 \<Longrightarrow> recent (Suc n) (Suc h mod 105) = recent n h @ [h]"
  by (cases "h = 104") simp_all

lemma recent_tl: "tl (recent (Suc n) h) = recent n h"
proof (induction n arbitrary: h)
  case (Suc n)
  let ?p = "(h + 104) mod 105"
  have "recent (Suc n) ?p \<noteq> []" by simp
  then have "tl (recent (Suc (Suc n)) h) = tl (recent (Suc n) ?p) @ [?p]"
    unfolding recent.simps(2) [of "Suc n" h] by (rule tl_append2)
  also have "\<dots> = recent (Suc n) h" by (simp only: Suc.IH recent.simps(2) [of n h])
  finally show ?case .
qed simp

lemma recent_distance: "h < 105 \<Longrightarrow> x \<in> set (recent n h) \<Longrightarrow> \<exists>j. 0 < j \<and> j \<le> n \<and> (x + j) mod 105 = h"
proof (induction n arbitrary: h)
  case (Suc n)
  let ?p = "(h + 104) mod 105"
  have p: "Suc ?p mod 105 = h" using Suc.prems(1) by (simp add: mod_Suc_eq)
  show ?case
  proof (cases "x = ?p")
    case True
    then show ?thesis using p by (intro exI [of _ 1]) simp
  next
    case False
    then obtain j where j: "0 < j" "j \<le> n" "(x + j) mod 105 = ?p" using Suc.IH [of ?p] Suc.prems(2) by auto
    then have "(x + Suc j) mod 105 = h" using p by (metis add_Suc_right mod_Suc_eq)
    then show ?thesis using j by (intro exI [of _ "Suc j"]) simp
  qed
qed simp

lemma recent_bound: "x \<in> set (recent n h) \<Longrightarrow> x < 105"
  by (induction n arbitrary: h) auto

lemma recent_fresh:
  assumes "n < 105" and "h < 105"
  shows "h \<notin> set (recent n h)"
proof
  assume "h \<in> set (recent n h)"
  then obtain j where "0 < j" "j \<le> n" "(h + j) mod 105 = h" using recent_distance [OF assms(2)] by blast
  then show False using assms mod_if [of "h + j" 105] mod_less [of "h + j - 105" 105] by (auto split: if_splits)
qed

lemma recent_Cons: "s # ss = recent (Suc n) h \<Longrightarrow> ss = recent n h"
  using recent_tl [of n h] by (metis list.sel(3))

lemma send_polled_frame:
  assumes "send_polled ok now slot m = (ds, r, m')"
  shows "packetqueue m' = packetqueue m" "packetdatahead m' = packetdatahead m" "cipherinput m' = cipherinput m"
    "packetdata m' = packetdata m \<or> packetdata m' = (packetdata m)[slot := stamp (rtpseq m) (rtptime m) (packetdata m ! slot)]"
  using assms by (auto simp: send_polled_def Let_def split: prod.splits if_splits)

lemma send_polled_buffers_ok:
  assumes "buffers_ok m" and "slot < length (packetdata m)" and "send_polled ok now slot m = (ds, r, m')"
  shows "buffers_ok m'"
proof -
  have "length (stamp a b d) = length d" for a b d by (simp add: stamp_def writeInt_def)
  then show ?thesis
    using assms(1,2) send_polled_frame [OF assms(3)]
      set_update_subset_insert [of "packetdata m" slot "stamp (rtpseq m) (rtptime m) (packetdata m ! slot)"]
    by (auto simp: buffers_ok_def)
qed

lemma fill_packet_cases:
  assumes "fill_packet cipher buf off 1408 big m = Some (slot, m')" and "buffers_ok m"
    and "block_cipher cipher"
  shows "slot = packetdatahead m" and "buffers_ok m'" and "packetqueue m' = packetqueue m"
    and "packetdatahead m' = Suc (packetdatahead m) mod 105" and "\<exists>d. packetdata m' = (packetdata m)[packetdatahead m := d]"
proof -
  have "off + 1408 \<le> length buf" using assms(1) by (auto simp: fill_packet_def PACKETSIZE_def split: if_splits)
  then obtain m1 ci hd3 tail where "fill_packet cipher buf off 1408 big m = Some (packetdatahead m, m1)" "buffers_ok m1"
      "packetdata m1 = (packetdata m)[packetdatahead m := hd3 @ cipher ci @ tail]"
      "packetdatahead m1 = Suc (packetdatahead m) mod (QUEUELENGTH + 5)" "packetqueue m1 = packetqueue m"
    by (rule fill_packet_layout [OF assms(2) _ assms(3)]) blast+
  then show "slot = packetdatahead m" "buffers_ok m'" "packetqueue m' = packetqueue m"
      "packetdatahead m' = Suc (packetdatahead m) mod 105" "\<exists>d. packetdata m' = (packetdata m)[packetdatahead m := d]"
    using assms(1) by (auto simp: QUEUELENGTH_def)
qed

lemma fill_packet_some:
  assumes "buffers_ok m" and "block_cipher cipher" and "off + 1408 \<le> length buf"
  shows "\<exists>m'. fill_packet cipher buf off 1408 big m = Some (packetdatahead m, m')"
  by (rule fill_packet_layout [OF assms(1,3,2)]) blast

lemma slots_kept:
  assumes "thread_step cipher ok x t = Some t'" and "x = Put \<or> x = Drained \<or> x = Poll"
  shows "slots_in_use t' = slots_in_use t" and "packetdatahead (manager_state t') = packetdatahead (manager_state t)"
    and "buffers_ok (manager_state t) \<Longrightarrow> buffers_ok (manager_state t')"
    and "length (packetqueue (manager_state t)) \<le> QUEUELENGTH \<Longrightarrow> length (packetqueue (manager_state t')) \<le> QUEUELENGTH"
  using assms
  by (auto simp: slots_in_use_def put_packet_def drained_def buffers_ok_def split: option.splits if_splits list.splits)

lemma slots_ok_step:
  assumes "slots_ok t" and "thread_step cipher ok x t = Some t'" and "x \<noteq> Clear"
    and c: "block_cipher cipher"
  shows "slots_ok t'"
proof -
  let ?m = "manager_state t"
  obtain n where n: "slots_in_use t = recent n (packetdatahead ?m)" using assms(1) by (auto simp: slots_ok_def)
  have b: "buffers_ok ?m" and q: "length (packetqueue ?m) \<le> QUEUELENGTH" using assms(1) by (simp_all add: slots_ok_def)
  have h: "packetdatahead ?m < 105" "length (packetdata ?m) = 105" using b by (simp_all add: buffers_ok_def QUEUELENGTH_def)
  show ?thesis
  proof (cases x)
    case (Fill buf off big)
    obtain m' slot where f: "fill_packet cipher buf off 1408 big ?m = Some (slot, m')" "filling t = None"
        "t' = t\<lparr>manager_state := m', filling := Some slot\<rparr>"
      using assms(2) by (auto simp: Fill split: if_splits option.splits)
    note l = fill_packet_cases [OF f(1) b c]
    have "slots_in_use t' = recent (Suc n) (packetdatahead m')"
      using n f(2,3) l(1,3,4) recent_add [OF h(1), of n] by (simp add: slots_in_use_def del: recent.simps)
    then show ?thesis using q f(3) l(2,3) by (auto simp: slots_ok_def simp del: recent.simps)
  next
    case (Send now)
    obtain slot ds r m' where s: "in_flight t = Some slot" "send_polled ok now slot ?m = (ds, r, m')"
        "t' = t\<lparr>manager_state := m', in_flight := None\<rparr>"
      using assms(2) by (auto simp: Send split: if_splits option.splits prod.splits)
    note fr = send_polled_frame [OF s(2)]
    have u: "slot # slots_in_use t' = recent n (packetdatahead ?m)" using s fr(1) n by (simp add: slots_in_use_def)
    then obtain k where k: "n = Suc k" by (cases n) auto
    have "slot < 105" using recent_bound [of slot n "packetdatahead ?m"] by (simp flip: u)
    moreover have "slots_in_use t' = recent k (packetdatahead m')" using recent_Cons [OF u [unfolded k]] fr(2) by simp
    ultimately show ?thesis
      using q s(3) fr(1) send_polled_buffers_ok [OF b _ s(2)] h(2) by (auto simp: slots_ok_def)
  qed (use slots_kept [OF assms(2)] assms(3) n b q in \<open>auto simp: slots_ok_def\<close>)
qed

lemma slots_ok_run:
  assumes "slots_ok t" and "thread_run cipher ok xs t = Some t'" and "Clear \<notin> set xs"
    and "block_cipher cipher"
  shows "slots_ok t'"
  using assms(1-3)
  by (induction xs arbitrary: t) (auto simp: bind_eq_Some_conv dest: slots_ok_step [OF _ _ _ assms(4)])

text \<open>C30. The packets handed on are the stream of the bytes written, cut into packets of 1408 bytes, whatever the sizes of the
  writes: packets and what is still held back are together exactly what was held back before and was written
  since, in order.\<close>

theorem writes_become_packets:
  assumes "hold_ok s" and "\<forall>(buf, off, len) \<in> set ws. off + len \<le> length buf" and "write_each ws s = (ps, s')"
  shows "concat ps @ held s' = held s @ concat (map (\<lambda>(buf, off, len). take len (drop off buf)) ws) \<and>
    (\<forall>p \<in> set ps. length p = 1408) \<and> hold_ok s'"
  using write_each_stream [OF assms] by blast

theorem writes_become_packets_witness:
  "\<exists>ps s'. write_each [(replicate 2000 7, 100, 1500), ([1, 2, 3], 1, 2)] \<lparr>holdbuf = replicate 1408 0, holdlen = 0\<rparr> = (ps, s') \<and>
     concat ps @ held s' = replicate 1500 7 @ [2, 3] \<and> hold_ok s'"
proof -
  obtain ps s' where w: "write_each [(replicate 2000 7, 100, 1500), ([1, 2, 3], 1, 2)] \<lparr>holdbuf = replicate 1408 0, holdlen = 0\<rparr> = (ps, s')"
    by force
  have h: "hold_ok \<lparr>holdbuf = replicate 1408 0, holdlen = 0\<rparr>" by (simp add: hold_ok_def)
  show ?thesis using writes_become_packets [OF h _ w] w by (simp add: held_def)
qed


end
