(* ===== verification/AirtunesSend.thy ===== *)
theory AirtunesSend
  imports Airtunes
begin

text \<open>
  What the Java sender does over time: the buffers of queued packets are kept, packets go out under consecutive
  numbers, a timing request gets its times back, and a speaker that expires.  The definitions are those of
  \<open>Airtunes\<close>.
\<close>

definition start_threads :: "u32 \<Rightarrow> u32 \<Rightarrow> u32 \<Rightarrow> threads" where
  "start_threads seq time source =
     \<lparr>manager_state = start_manager seq time source new_manager_state, filling = None, in_flight = None\<rparr>"

text \<open>A speaker that a datagram can be sent to.\<close>

definition reachable_at :: "int \<Rightarrow> aspeaker \<Rightarrow> bool" where
  "reachable_at now s \<longleftrightarrow> (now - EXPIRE) sdiv 1000 \<le> touch s \<and> aserver s \<noteq> None \<and> acontrol s \<noteq> None"

definition sync_data :: "u64 \<Rightarrow> bool \<Rightarrow> amanager \<Rightarrow> bytes" where
  "sync_data now first m = writeLong (toNTPTime (am_epoch m) now)
     (writeInt (rtptime m) ((replicate 20 0)[0 := (if first then 0x90 else 0x80), 1 := 0xd4, 2 := 0, 3 := 0x07]) 16) 8"

definition live_speaker :: aspeaker where
  "live_speaker = \<lparr>touch = 100, rtsp_open = True, aserver = Some ([49], 5000), atiming = Some ([49], 5001),
     acontrol = Some ([49], 5002), latency = 11025\<rparr>"

fun sender_passes :: "nat \<Rightarrow> (datagram \<Rightarrow> bool) \<Rightarrow> int \<Rightarrow> amanager \<Rightarrow> datagram list list \<times> amanager" where
  "sender_passes 0 ok now m = ([], m)"
| "sender_passes (Suc n) ok now m =
     (case sender_run ok now m of (ds, r, m) \<Rightarrow> apfst ((#) ds) (sender_passes n ok now m))"

text \<open>The datagrams of the pass that sends the \<open>i\<close>-th packet of the queue, when \<open>c\<close> were sent before: the time
  announcement to every speaker at every 126th packet, and the packet under its number and time.\<close>

definition pass_datagrams :: "int \<Rightarrow> nat \<Rightarrow> amanager \<Rightarrow> nat \<Rightarrow> datagram list" where
  "pass_datagrams now c m i =
     (let time = rtptime m + of_nat (352 * i) in
      (if (c + i) mod 126 = 0
       then map (\<lambda>s. (the (acontrol s), writeInt (time - latency s)
              (sync_data (word_of_int now) (c + i = 0) (m\<lparr>rtptime := time\<rparr>)) 4)) (speakers m)
       else []) @
      map (\<lambda>s. (the (aserver s), stamp (rtpseq m + of_nat i) time (packetdata m ! (packetqueue m ! i)))) (speakers m))"

subsection \<open>Buffers\<close>

lemma slots_ok_start: "slots_ok (start_threads seq time source)"
  using start_buffers_ok [of seq time source]
  by (auto simp: slots_ok_def start_threads_def slots_in_use_def start_manager_def QUEUELENGTH_def intro: exI [of _ 0])

text \<open>C16. A packet that waits in the queue, or is being sent, is never overwritten: whatever the order of the playing
  thread and the sender, the slot that the next packet is written into is none of theirs, because there are five
  slots more than the queue holds.  This is so as long as the queue is not cleared.\<close>

theorem queued_packets_kept:
  assumes "thread_run cipher ok xs (start_threads seq time source) = Some t" and "Clear \<notin> set xs"
    and "block_cipher cipher"
    and "thread_step cipher ok (Fill buf off big) t = Some t'"
  shows "\<forall>s \<in> set (slots_in_use t). packetdata (manager_state t') ! s = packetdata (manager_state t) ! s"
proof -
  let ?m = "manager_state t"
  have ok: "slots_ok t" by (rule slots_ok_run [OF slots_ok_start assms(1,2,3)])
  then obtain n where n: "slots_in_use t = recent n (packetdatahead ?m)" by (auto simp: slots_ok_def)
  have "n = length (slots_in_use t)" by (simp add: n)
  also have "\<dots> < 105"
    using ok by (simp add: slots_in_use_def slots_ok_def QUEUELENGTH_def split: option.split)
  finally have "packetdatahead ?m \<notin> set (slots_in_use t)"
    using ok recent_fresh [of n "packetdatahead ?m"] by (simp add: n slots_ok_def buffers_ok_def QUEUELENGTH_def)
  moreover obtain d where "packetdata (manager_state t') = (packetdata ?m)[packetdatahead ?m := d]"
  proof -
    obtain m' slot where f: "fill_packet cipher buf off 1408 big ?m = Some (slot, m')" "manager_state t' = m'"
      using assms(4) by (auto split: if_splits option.splits)
    have "buffers_ok ?m" using ok by (simp add: slots_ok_def)
    from fill_packet_cases(5) [OF f(1) this assms(3)] show ?thesis using f(2) that by auto
  qed
  ultimately show ?thesis by (metis nth_list_update_neq)
qed

subsection \<open>Clearing\<close>

lemma id_block_cipher: "block_cipher id"
  by (simp add: block_cipher_def)

lemma fill_put_clear:
  assumes "buffers_ok (manager_state t)" and "filling t = None" and "packetqueue (manager_state t) = []"
    and "block_cipher cipher"
  shows "\<exists>t'. thread_run cipher ok [Fill (replicate 1408 0) 0 False, Put, Clear] t = Some t' \<and> buffers_ok (manager_state t') \<and>
    filling t' = None \<and> packetqueue (manager_state t') = [] \<and> in_flight t' = in_flight t \<and>
    packetdatahead (manager_state t') = Suc (packetdatahead (manager_state t)) mod 105"
proof -
  obtain m' where f: "fill_packet cipher (replicate 1408 0) 0 1408 False (manager_state t) = Some (packetdatahead (manager_state t), m')"
    using fill_packet_some [OF assms(1,4), of 0 "replicate 1408 0" False] by auto
  note l = fill_packet_cases [OF f assms(1,4)]
  show ?thesis
    using f l assms(2,3) by (simp add: put_packet_def clear_queue_def QUEUELENGTH_def buffers_ok_def)
qed

lemma clear_rounds:
  assumes "buffers_ok (manager_state t)" and "filling t = None" and "packetqueue (manager_state t) = []"
    and "block_cipher cipher"
  shows "\<exists>t'. thread_run cipher ok (concat (replicate k [Fill (replicate 1408 0) 0 False, Put, Clear])) t = Some t' \<and>
    buffers_ok (manager_state t') \<and> filling t' = None \<and> packetqueue (manager_state t') = [] \<and> in_flight t' = in_flight t \<and>
    packetdatahead (manager_state t') mod 105 = (packetdatahead (manager_state t) + k) mod 105"
  using assms(1-3)
proof (induction k arbitrary: t)
  case (Suc k)
  obtain t1 where t1: "thread_run cipher ok [Fill (replicate 1408 0) 0 False, Put, Clear] t = Some t1" "buffers_ok (manager_state t1)"
      "filling t1 = None" "packetqueue (manager_state t1) = []" "in_flight t1 = in_flight t"
      "packetdatahead (manager_state t1) = Suc (packetdatahead (manager_state t)) mod 105"
    using fill_put_clear [OF Suc.prems assms(4), where ok = ok] by blast
  have "thread_run cipher ok ([Fill (replicate 1408 0) 0 False, Put, Clear] @ xs) t = thread_run cipher ok xs t1" for xs
    using t1(1) by (auto simp: bind_eq_Some_conv)
  then show ?case
    using Suc.IH [OF t1(2,3,4)] t1(5,6) by (simp add: mod_simps del: thread_run.simps)
qed simp

lemma thread_run_append: "thread_run cipher ok (xs @ ys) t = Option.bind (thread_run cipher ok xs t) (thread_run cipher ok ys)"
  by (induction xs arbitrary: t) (auto simp: bind_eq_None_conv split: Option.bind_splits)

lemma first_poll:
  "\<exists>t. thread_run id ok [Fill (replicate 1408 0) 0 False, Put, Poll] (start_threads seq time source) = Some t \<and>
     buffers_ok (manager_state t) \<and> filling t = None \<and> packetqueue (manager_state t) = [] \<and> in_flight t = Some 0 \<and>
     packetdatahead (manager_state t) = 1"
proof -
  let ?m = "start_manager seq time source new_manager_state"
  have b: "buffers_ok ?m" by (rule start_buffers_ok)
  obtain m' where f: "fill_packet id (replicate 1408 0) 0 1408 False ?m = Some (packetdatahead ?m, m')"
    using fill_packet_some [OF b id_block_cipher, of 0 "replicate 1408 0" False] by auto
  note l = fill_packet_cases [OF f b id_block_cipher]
  have "packetqueue ?m = []" "packetdatahead ?m = 0" by (simp_all add: start_manager_def new_manager_state_def)
  then show ?thesis
    using f l by (simp add: start_threads_def put_packet_def QUEUELENGTH_def buffers_ok_def)
qed

text \<open>Clearing the queue while the sender is at work frees slots that the ring has not gone past, so that the packet being
  sent can be overwritten.\<close>

lemma clear_overwrites_in_flight:
  "\<exists>xs t t' s. thread_run id ok xs (start_threads seq time source) = Some t \<and> in_flight t = Some s \<and>
     thread_step id ok (Fill (replicate 1408 0) 0 False) t = Some t' \<and> filling t' = Some s"
proof -
  let ?round = "[Fill (replicate 1408 0) 0 False, Put, Clear]"
  obtain t0 where t0: "thread_run id ok [Fill (replicate 1408 0) 0 False, Put, Poll] (start_threads seq time source) = Some t0"
      "buffers_ok (manager_state t0)" "filling t0 = None" "packetqueue (manager_state t0) = []" "in_flight t0 = Some 0"
      "packetdatahead (manager_state t0) = 1"
    using first_poll by blast
  obtain t where t: "thread_run id ok (concat (replicate 104 ?round)) t0 = Some t" "buffers_ok (manager_state t)" "filling t = None"
      "in_flight t = Some 0" "packetdatahead (manager_state t) mod 105 = 0"
    using clear_rounds [OF t0(2-4) id_block_cipher, of ok 104] t0(5,6) by auto
  have h: "packetdatahead (manager_state t) = 0" using t(2,5) by (simp add: buffers_ok_def QUEUELENGTH_def)
  obtain m' where "fill_packet id (replicate 1408 0) 0 1408 False (manager_state t) = Some (packetdatahead (manager_state t), m')"
    using fill_packet_some [OF t(2) id_block_cipher, of 0 "replicate 1408 0" False] by auto
  then have "thread_step id ok (Fill (replicate 1408 0) 0 False) t = Some (t\<lparr>manager_state := m', filling := Some 0\<rparr>)"
    using t(3) h by simp
  moreover have "thread_run id ok ([Fill (replicate 1408 0) 0 False, Put, Poll] @ concat (replicate 104 ?round))
      (start_threads seq time source) = Some t"
    unfolding thread_run_append t0(1) using t(1) by simp
  ultimately show ?thesis using t(4) by (metis threads.select_convs(2) threads.update_convs(2) threads.surjective)
qed

theorem queued_packets_kept_witness:
  "\<exists>t t'. thread_run id (\<lambda>_. True) [Fill (replicate 1408 0) 0 False, Put, Poll] (start_threads 1 2 3) = Some t \<and>
     thread_step id (\<lambda>_. True) (Fill (replicate 1408 0) 0 False) t = Some t' \<and>
     packetdata (manager_state t') ! 0 = packetdata (manager_state t) ! 0"
proof -
  obtain t where t: "thread_run id (\<lambda>_. True) [Fill (replicate 1408 0) 0 False, Put, Poll] (start_threads 1 2 3) = Some t"
      "buffers_ok (manager_state t)" "filling t = None" "in_flight t = Some 0"
    using first_poll [of "\<lambda>_. True" 1 2 3] by blast
  obtain m' where f: "fill_packet id (replicate 1408 0) 0 1408 False (manager_state t) = Some (packetdatahead (manager_state t), m')"
    using fill_packet_some [OF t(2) id_block_cipher, of 0 "replicate 1408 0" False] by auto
  obtain t' where t': "thread_step id (\<lambda>_. True) (Fill (replicate 1408 0) 0 False) t = Some t'" using f t(3) by simp
  have "0 \<in> set (slots_in_use t)" using t(4) by (simp add: slots_in_use_def)
  then show ?thesis using queued_packets_kept [OF t(1) _ id_block_cipher t'] t(1) t' by auto
qed

subsection \<open>Passes of the sender\<close>

lemma audio_to_reachable:
  assumes "\<forall>s \<in> set ss. reachable_at now s" and "\<forall>d. ok d"
  shows "audio_to ok now data (ss @ ts) = (case audio_to ok now data ts of
    (ds, r, ts') \<Rightarrow> (map (\<lambda>s. (the (aserver s), data)) ss @ ds, r, ss @ ts'))"
  using assms(1)
  by (induction ss) (auto simp: reachable_at_def isConnected_def assms(2) split: prod.splits)

lemma writeInt_again: "writeInt v (writeInt w data off) off = writeInt v data off"
  by (rule nth_equalityI) (simp_all add: writeInt_def nth_update_if)

lemma sync_to_all:
  assumes "\<forall>s \<in> set ss. acontrol s \<noteq> None" and "\<forall>d. ok d"
  shows "sync_to ok time data ss = (map (\<lambda>s. (the (acontrol s), writeInt (time - latency s) data 4)) ss, Done)"
  using assms(1)
  by (induction ss arbitrary: data) (auto simp: assms(2) writeInt_again)

lemma sync_to_outcome: "\<forall>d. ok d \<Longrightarrow> snd (sync_to ok time data ss) \<in> {Done, Died}"
  by (induction ss arbitrary: data) (auto simp: Let_def split: option.split)

lemma sync_packet_all:
  assumes "\<forall>s \<in> set (speakers m). acontrol s \<noteq> None" and "\<forall>d. ok d"
  shows "sendSyncPacket ok now first m =
    (map (\<lambda>s. (the (acontrol s), writeInt (rtptime m - latency s) (sync_data now first m) 4)) (speakers m), Done)"
  using sync_to_all [OF assms] by (simp add: sendSyncPacket_def sync_data_def Let_def)

lemma sync_due:
  assumes "n < 2 ^ 31"
  shows "sint (of_nat n :: u32) smod SYNCFREQUENCY = 0 \<longleftrightarrow> n mod 126 = 0" and "(of_nat n :: u32) = 0 \<longleftrightarrow> n = 0"
proof -
  have u: "unat (of_nat n :: u32) = n" using assms by (simp add: unat_of_nat take_bit_nat_eq_self)
  have "sint (of_nat n :: u32) = int n"
    using assms by (simp add: signed_of_nat signed_take_bit_int_eq_self)
  then show "sint (of_nat n :: u32) smod SYNCFREQUENCY = 0 \<longleftrightarrow> n mod 126 = 0"
    by (auto simp: signed_modulo_int_def SYNCFREQUENCY_def sgn_if) presburger+
  show "(of_nat n :: u32) = 0 \<longleftrightarrow> n = 0" 
  proof
    assume "(of_nat n :: u32) = 0"
    with u show "n = 0" by simp
  qed simp
qed

lemma sender_pass:
  assumes "packetqueue m = slot # q" and "\<forall>s \<in> set (speakers m). reachable_at now s" and "\<forall>d. ok d"
    and "packetcount m = of_nat c" and "c < 2 ^ 31"
  shows "sender_run ok now m = (pass_datagrams now c m 0, Done, m\<lparr>packetqueue := q,
    packetdata := (packetdata m)[slot := stamp (rtpseq m) (rtptime m) (packetdata m ! slot)], rtpseq := rtpseq m + 1,
    rtptime := rtptime m + 352, packetcount := packetcount m + 1\<rparr>)"
proof -
  have c: "\<forall>s \<in> set (speakers m). acontrol s \<noteq> None" using assms(2) by (simp add: reachable_at_def)
  have y: "sendSyncPacket ok t f (m\<lparr>packetqueue := q\<rparr>) =
      (map (\<lambda>s. (the (acontrol s), writeInt (rtptime m - latency s) (sync_data t f m) 4)) (speakers m), Done)" for t f
    using sync_packet_all [of "m\<lparr>packetqueue := q\<rparr>" ok t f] c assms(3) by (simp add: sync_data_def)
  have a: "audio_to ok now data (speakers m) = (map (\<lambda>s. (the (aserver s), data)) (speakers m), Done, speakers m)" for data
    using audio_to_reachable [OF assms(2,3), of data "[]"] by simp
  show ?thesis
    using assms(1) sync_due [OF assms(5)]
    by (simp add: sender_run_def send_polled_def y a assms(4) PACKETSIZE_def pass_datagrams_def Let_def)
qed


lemma expired_pass:
  assumes "rtsp_open s" and "(now - EXPIRE) sdiv 1000 > touch s"
  shows "isConnected now s = Some (False, s\<lparr>rtsp_open := False, touch := 0, aserver := None, atiming := None, acontrol := None\<rparr>)"
  using assms by (simp add: isConnected_def invalidate_def)

lemma audio_to_closed:
  assumes "\<forall>s \<in> set ps. reachable_at now s" and "\<forall>d. ok d" and "\<not> rtsp_open s" and "(now - EXPIRE) sdiv 1000 > touch s"
  shows "fst (snd (audio_to ok now data (ps @ s # ss))) = Died"
  using audio_to_reachable [OF assms(1,2)] assms(3,4) by (simp add: isConnected_def invalidate_def)

lemma send_polled_died:
  assumes "\<And>data. fst (snd (audio_to ok now data (speakers m))) = Died" and "\<And>t f. snd (sendSyncPacket ok t f m) \<in> {Done, Died}"
  shows "fst (snd (send_polled ok now slot m)) = Died"
proof -
  let ?e = "if sint (packetcount m) smod SYNCFREQUENCY = 0
    then sendSyncPacket ok (word_of_int now) (packetcount m = 0) m else ([], Done)"
  obtain es r where e: "?e = (es, r)" by force
  have r: "r = Done \<or> r = Died" using e assms(2) [of "word_of_int now" "packetcount m = 0"] by (auto split: if_splits)
  obtain ds ss where "audio_to ok now (stamp (rtpseq m) (rtptime m) (packetdata m ! slot)) (speakers m) = (ds, Died, ss)"
    using assms(1) by (metis prod.collapse)
  then show ?thesis using e r unfolding send_polled_def by (auto simp: Let_def)
qed

text \<open>C29. A speaker that falls silent ends the stream for all.  When a speaker has not answered for more than three
  seconds, the next packet still reaches the others; the one after it ends the sender, which never runs again, because
  the connection that has been given up is given up a second time.\<close>

theorem expired_speaker_ends_sender:
  assumes "\<forall>d. ok d" and "speakers m = ps @ s # ss" and "\<forall>p \<in> set (ps @ ss). reachable_at now p \<and> reachable_at now' p"
    and "rtsp_open s" and "acontrol s \<noteq> None" and "(now - EXPIRE) sdiv 1000 > touch s" and "(now' - EXPIRE) sdiv 1000 > 0"
    and "packetqueue m = a # b # q"
  shows "\<exists>ds m'. sender_run ok now m = (ds, Done, m') \<and>
    (\<forall>p \<in> set (ps @ ss). (the (aserver p), stamp (rtpseq m) (rtptime m) (packetdata m ! a)) \<in> set ds) \<and>
    fst (snd (sender_run ok now' m')) = Died"
proof -
  define s' where "s' = s\<lparr>rtsp_open := False, touch := 0, aserver := None, atiming := None, acontrol := None\<rparr>"
  let ?m = "m\<lparr>packetqueue := b # q\<rparr>"
  have r: "\<forall>p \<in> set ps. reachable_at now p" "\<forall>p \<in> set ss. reachable_at now p" "\<forall>p \<in> set ps. reachable_at now' p"
    using assms(3) by auto
  have a: "audio_to ok now data (speakers m) = (map (\<lambda>p. (the (aserver p), data)) (ps @ ss), Done, ps @ s' # ss)" for data
    using audio_to_reachable [OF r(1) assms(1), of data "s # ss"] audio_to_reachable [OF r(2) assms(1), of data "[]"]
      expired_pass [OF assms(4,6)] by (simp add: assms(2) s'_def)
  have "\<exists>es. sendSyncPacket ok t f ?m = (es, Done)" for t f
    using sync_packet_all [of ?m ok t f] assms(1,2,3,5) by (auto simp: reachable_at_def)
  then obtain es where e: "(if sint (packetcount m) smod SYNCFREQUENCY = 0
      then sendSyncPacket ok (word_of_int now) (packetcount m = 0) ?m else ([], Done)) = (es, Done)"
    by (cases "sint (packetcount m) smod SYNCFREQUENCY = 0") auto
  let ?d = "stamp (rtpseq m) (rtptime m) (packetdata m ! a)"
  obtain m' where p: "sender_run ok now m = (es @ map (\<lambda>p. (the (aserver p), ?d)) (ps @ ss), Done, m')"
      and m': "speakers m' = ps @ s' # ss" "packetqueue m' = b # q"
    using e a [of ?d] assms(8) by (simp add: sender_run_def send_polled_def Let_def split: if_splits)
  have "fst (snd (audio_to ok now' data (speakers m'))) = Died" for data
    unfolding m'(1) by (rule audio_to_closed [OF r(3) assms(1)]) (use assms(7) in \<open>simp_all add: s'_def\<close>)
  moreover have "snd (sendSyncPacket ok t f (m'\<lparr>packetqueue := q\<rparr>)) \<in> {Done, Died}" for t f
    using sync_to_outcome [OF assms(1)] by (simp add: sendSyncPacket_def Let_def)
  ultimately have "fst (snd (sender_run ok now' m')) = Died"
    using send_polled_died [of ok now' "m'\<lparr>packetqueue := q\<rparr>" b] by (simp add: sender_run_def m'(2))
  then show ?thesis using p by auto
qed


theorem expired_speaker_ends_sender_witness:
  "\<exists>ds m'. sender_run (\<lambda>_. True) 200000 ((start_manager 7 9 3 new_manager_state)\<lparr>packetqueue := [0, 1], speakers := [live_speaker]\<rparr>) =
     (ds, Done, m') \<and> fst (snd (sender_run (\<lambda>_. True) 200008 m')) = Died"
  using expired_speaker_ends_sender [of "\<lambda>_. True" "(start_manager 7 9 3 new_manager_state)\<lparr>packetqueue := [0, 1], speakers := [live_speaker]\<rparr>"
      "[]" live_speaker "[]" 200000 200008 0 1 "[]"]
  by (auto simp: live_speaker_def EXPIRE_def signed_divide_int_def)

end
