(* ===== verification/AirtunesTime.thy ===== *)
theory AirtunesTime
  imports Airtunes
begin

text \<open>
  The numbers and times in the packets of the Java sender: what is written can be read again, a time survives the
  network format, and the answer to a timing request.
\<close>

lemma readInt_pack: "readInt buf i = scast (pack (buf ! i) (buf ! (i + 1)) (buf ! (i + 2)) (buf ! (i + 3)))"
  by (simp add: readInt_def pack_sum push_bit_eq_mult algebra_simps)

lemma readLong_bits:
  "readLong buf off = push_bit 32 (ucast (pack (buf ! off) (buf ! (off + 1)) (buf ! (off + 2)) (buf ! (off + 3)))) OR
     ucast (pack (buf ! (off + 4)) (buf ! (off + 5)) (buf ! (off + 6)) (buf ! (off + 7)))"
proof -
  have m: "(0xFFFFFFFF :: u64) = mask 32" by (simp add: mask_eq_exp_minus_1)
  have a: "push_bit 32 (scast w :: u64) = push_bit 32 (ucast w)" for w :: u32
    by (rule bit_word_eqI) (auto simp: bit_simps)
  have b: "(scast w :: u64) AND mask 32 = ucast w" for w :: u32
  proof (rule bit_word_eqI)
    fix n assume "n < LENGTH(64)"
    show "bit ((scast w :: u64) AND mask 32) n = bit (ucast w :: u64) n"
    proof (cases "n < 32")
      case True
      then have "min 31 n = n" by simp
      with True show ?thesis by (auto simp: bit_simps)
    next
      case False
      then show ?thesis by (auto simp: bit_simps dest: bit_imp_le_length)
    qed
  qed
  have "push_bit 32 (ucast v :: u64) + ucast w = push_bit 32 (ucast v) OR ucast w" for v w :: u32
    by (rule disjunctive_add) (auto simp: bit_simps dest: bit_imp_le_length)
  then show ?thesis by (simp add: readLong_def readInt_pack m a b add.commute [of off])
qed

lemma readLong_writeLong:
  assumes "off + 8 \<le> length buf"
  shows "readLong (writeLong v buf off) off = v"
proof -
  have "writeLong v buf off ! (off + k) = ucast (drop_bit (56 - 8 * k) v)" if "k < 8" for k
    using that assms by (auto simp: writeLong_def nth_update_if less_Suc_eq numeral_eq_Suc)
  from this [of 0] this [of 1] this [of 2] this [of 3] this [of 4] this [of 5] this [of 6] this [of 7]
  have "readLong (writeLong v buf off) off = push_bit 32 (ucast (pack (ucast (drop_bit 56 v)) (ucast (drop_bit 48 v))
      (ucast (drop_bit 40 v)) (ucast (drop_bit 32 v)))) OR ucast (pack (ucast (drop_bit 24 v)) (ucast (drop_bit 16 v))
      (ucast (drop_bit 8 v)) (ucast v))"
    by (simp add: readLong_bits add.commute [of off])
  also have "\<dots> = v"
    by (rule bit_word_eqI) (auto simp: bit_simps bit_pack)
  finally show ?thesis .
qed

subsection \<open>Network time\<close>

lemma long_div_rem:
  assumes "k < 2 ^ 62" and "0 < d" and "d < 2 ^ 62"
  shows "long_div (of_nat k) (of_nat d) = of_nat (k div d)" and "long_rem (of_nat k) (of_nat d) = of_nat (k mod d)"
proof -
  have s: "sint (of_nat n :: u64) = int n" if "n < 2 ^ 62" for n
    using that by (simp add: signed_of_nat signed_take_bit_int_eq_self)
  have "int k sdiv int d = int (k div d)" "int k smod int d = int (k mod d)"
    using assms(2) by (simp_all add: signed_divide_int_def signed_modulo_int_def sgn_if zdiv_int zmod_int)
  then show "long_div (of_nat k) (of_nat d) = of_nat (k div d)" "long_rem (of_nat k) (of_nat d) = of_nat (k mod d)"
    using s assms by (simp_all add: long_div_def long_rem_def)
qed

lemma take_bit_diff_word: "take_bit 32 (take_bit 32 a - b) = take_bit 32 (a - b :: u64)"
proof -
  have "take_bit 32 (take_bit 32 k - l) = take_bit 32 (k - l)" for k l :: int by (simp add: take_bit_eq_mod mod_diff_left_eq)
  then show ?thesis by transfer (simp add: take_bit_take_bit min_def take_bit_eq_mod mod_simps)
qed

lemma ntp_halves:
  fixes x :: u64
  assumes "f < 2 ^ 32"
  shows "drop_bit 32 (push_bit 32 x + of_nat f) = take_bit 32 x" and "(push_bit 32 x + of_nat f) AND 0xFFFFFFFF = of_nat f"
proof -
  have m: "(0xFFFFFFFF :: u64) = mask 32" by (simp add: mask_eq_exp_minus_1)
  have f: "(of_nat f :: u64) = take_bit 32 (of_nat f)"
    using assms by (simp add: take_bit_of_nat take_bit_nat_eq_self)
  have "push_bit 32 x + take_bit 32 y = push_bit 32 x OR take_bit 32 y" for y :: u64
    by (rule disjunctive_add) (auto simp: bit_simps)
  then have e: "push_bit 32 x + of_nat f = push_bit 32 x OR take_bit 32 (of_nat f)" using f by metis
  show "drop_bit 32 (push_bit 32 x + of_nat f) = take_bit 32 x"
    unfolding e by (rule bit_word_eqI) (auto simp: bit_simps)
  have "(push_bit 32 x OR take_bit 32 y) AND mask 32 = take_bit 32 y" for y :: u64
    by (rule bit_word_eqI) (auto simp: bit_simps)
  then show "(push_bit 32 x + of_nat f) AND 0xFFFFFFFF = of_nat f" unfolding e m using f by metis
qed

lemma ntp_first_epoch:
  assumes "k < 2 ^ 32 * 1000"
  shows "drop_bit 32 (toNTPTime (drop_bit 32 t - long_div (of_nat k) 1000) (of_nat k)) = drop_bit 32 t"
proof -
  have k: "k < 2 ^ 62" using assms by simp
  have f: "k mod 1000 * 4294967 < 2 ^ 32" using mod_less_divisor [of 1000 k] by simp
  have "take_bit 32 (drop_bit 32 t) = drop_bit 32 t"
    by (rule bit_word_eqI) (auto simp: bit_simps dest: bit_imp_le_length)
  then show ?thesis
    using long_div_rem [OF k, of 1000] ntp_halves(1) [OF f, of "drop_bit 32 t"]
    by (simp add: toNTPTime_def MSECMULT_def Let_def)
qed

lemma ntp_roundtrip:
  assumes "k < 2 ^ 32 * 1000"
  shows "fromNTPTime epoch (toNTPTime epoch (of_nat k)) = of_nat k"
proof -
  define q r where qr: "q = k div 1000" "r = k mod 1000"
  have k: "k < 2 ^ 62" using assms by simp
  have q: "q < 2 ^ 32" using assms by (simp add: qr less_mult_imp_div_less)
  have f: "r * 4294967 < 2 ^ 32" using mod_less_divisor [of 1000 k] by (simp add: qr)
  have n: "toNTPTime epoch (of_nat k) = push_bit 32 (of_nat q + epoch) + of_nat (r * 4294967)"
    using long_div_rem [OF k, of 1000] by (simp add: toNTPTime_def MSECMULT_def qr Let_def)
  have "(take_bit 32 (of_nat q + epoch) - epoch) AND 0xFFFFFFFF = (of_nat q :: u64)"
  proof -
    have m: "(0xFFFFFFFF :: u64) = mask 32" by (simp add: mask_eq_exp_minus_1)
    have "(take_bit 32 (of_nat q + epoch) - epoch) AND mask 32 = take_bit 32 (take_bit 32 (of_nat q + epoch) - epoch)"
      by (simp add: take_bit_eq_mask)
    also have "\<dots> = take_bit 32 (of_nat q :: u64)"
      by (simp add: take_bit_diff_word)
    also have "\<dots> = of_nat q" using q by (simp add: take_bit_of_nat take_bit_nat_eq_self)
    finally show ?thesis unfolding m .
  qed
  moreover have "long_div (of_nat (r * 4294967)) MSECMULT = (of_nat r :: u64)"
    using long_div_rem(1) [of "r * 4294967" 4294967] f by (simp add: MSECMULT_def)
  ultimately have "fromNTPTime epoch (toNTPTime epoch (of_nat k)) = of_nat q * 1000 + of_nat r"
    using ntp_halves [OF f, of "of_nat q + epoch"] by (simp add: n fromNTPTime_def Let_def)
  also have "\<dots> = of_nat (q * 1000 + r)" by simp
  finally show ?thesis by (simp add: qr)
qed

lemma length_writeLong [simp]: "length (writeLong v buf off) = length buf"
  by (simp add: writeLong_def)

lemma writeLong_other: "i < off \<or> off + 8 \<le> i \<Longrightarrow> writeLong v buf off ! i = buf ! i"
  by (auto simp: writeLong_def)

lemma readLong_cong:
  assumes "\<And>k. k < 8 \<Longrightarrow> buf ! (off + k) = buf' ! (off' + k)"
  shows "readLong buf off = readLong buf' off'"
  using assms [of 0] assms [of 1] assms [of 2] assms [of 3] assms [of 4] assms [of 5] assms [of 6] assms [of 7]
  by (simp add: readLong_bits)



end
