(* ===== verification/AirtunesRtsp.thy ===== *)
theory AirtunesRtsp
  imports Airtunes Base64 "HOL-Library.AList"
begin

text \<open>
  The session of the Java sender with a speaker, \<^verbatim>\<open>src/src/com/nixus/raop/speaker/airport/AirtunesSpeaker.java\<close>: the requests, the
  reading of the responses, connecting, and the retries.  The network is a list of answers that the operations
  consume, and the requests are recorded.  The order of the headers of a request is that of a hash map,
  which Java leaves open: it is a parameter.  An operation returns, ends with an \<open>IOException\<close>, or with an exception
  the code does not expect, \<open>Unchecked\<close>.
\<close>

subsection \<open>Base 64\<close>

text \<open>The index and the characters so far are the state of the loop.\<close>

function base64_turns :: "bytes \<Rightarrow> bool \<Rightarrow> nat \<Rightarrow> jstring \<Rightarrow> jstring" where
  "base64_turns inp addequals i sb =
     (if i < length inp then
        let len = length inp;
            olen = (len * 4 + 2) div 3;
            pad = (if addequals then 61 else 32);
            i0 = (ucast (inp ! i) :: u32); i = i + 1;
            (i1, i) = (if i < len then (ucast (inp ! i), i + 1) else (0, i));
            (i2, i) = (if i < len then (ucast (inp ! i), i + 1) else (0, i));
            o0 = drop_bit 2 i0;
            o1 = push_bit 4 (i0 AND 3) OR drop_bit 4 i1;
            o2 = push_bit 2 (i1 AND 0xf) OR drop_bit 6 i2;
            o3 = i2 AND 0x3f;
            sb = sb @ [J base64_chars ! unat o0];
            sb = sb @ [J base64_chars ! unat o1];
            sb = sb @ [if length sb < olen then J base64_chars ! unat o2 else pad];
            sb = sb @ [if length sb < olen then J base64_chars ! unat o3 else pad]
        in base64_turns inp addequals i sb
      else sb)"
  by pat_completeness auto

termination
  by (relation "measure (\<lambda>(inp, addequals, i, sb). length inp - i)") (auto split: if_splits)

declare base64_turns.simps [simp del]

definition base64encode :: "bytes \<Rightarrow> bool \<Rightarrow> jstring" where
  "base64encode inp addequals = jtrim (base64_turns inp addequals 0 [])"

subsection \<open>State\<close>

type_synonym headers = "(jstring \<times> jstring option) list"

datatype net_answer = Io_error | Lines "jstring list"

record jspeaker =
  conn :: aspeaker
  js_error :: "jstring option"
  cipherkey :: "jstring option"
  cipheriv :: "jstring option"
  controlport :: int
  timingport :: int
  js_name :: jstring
  js_host :: jstring
  jcseq :: u32
  globalheaders :: headers
  clientsessionid :: jstring
  servertype :: "jstring option"
  jacktype :: "jstring option"
  audio_open :: bool
  js_sent :: "jstring list"
  net_answers :: "net_answer list"

datatype 'a jres = Normal 'a | IOExc jstring | Unchecked

text \<open>What the random generator, as absolute values, the clock, and the address of this host give; the address may not
  be known.\<close>

record jenv =
  rnd_instance :: nat
  rnd_session :: nat
  rnd_challenge :: bytes
  localhost :: "jstring option"
  jnow :: int
  arrange :: "headers \<Rightarrow> headers"

definition next_answer :: "jspeaker \<Rightarrow> net_answer \<times> jspeaker" where
  "next_answer s = (case net_answers s of [] \<Rightarrow> (Io_error, s) | a # as \<Rightarrow> (a, s\<lparr>net_answers := as\<rparr>))"

definition jbind :: "'a jres \<times> jspeaker \<Rightarrow> ('a \<Rightarrow> jspeaker \<Rightarrow> 'b jres \<times> jspeaker) \<Rightarrow> 'b jres \<times> jspeaker" where
  "jbind r f = (case r of (Normal x, s) \<Rightarrow> f x s | (IOExc m, s) \<Rightarrow> (IOExc m, s) | (Unchecked, s) \<Rightarrow> (Unchecked, s))"

subsection \<open>Requests\<close>

definition JCRLF :: jstring where
  "JCRLF = [13, 10]"

definition jheader_text :: "jstring \<times> jstring option \<Rightarrow> jstring" where
  "jheader_text h = fst h @ J '': '' @ (case snd h of None \<Rightarrow> J ''null'' | Some v \<Rightarrow> v) @ JCRLF"

definition write_headers :: "jstring option \<Rightarrow> (jstring \<times> jstring) list \<Rightarrow> jspeaker \<Rightarrow> headers" where
  "write_headers content newheaders s =
     (let hs = AList.update (J ''CSeq'') (Some (toString (sint (jcseq s)))) (globalheaders s);
          hs = fold (\<lambda>(k, v). AList.update k (Some v)) newheaders hs
      in case content of None \<Rightarrow> hs
         | Some c \<Rightarrow> AList.update (J ''Content-Length'') (Some (toString (int (length c)))) hs)"

definition request_text :: "jstring \<Rightarrow> jstring option \<Rightarrow> headers \<Rightarrow> jspeaker \<Rightarrow> jstring" where
  "request_text cmd content hs s = cmd @ J '' rtsp://'' @ js_host s @ J ''/'' @ clientsessionid s @ J '' RTSP/1.0'' @ JCRLF @
     concat (map jheader_text hs) @ JCRLF @ (case content of None \<Rightarrow> [] | Some c \<Rightarrow> c)"

subsection \<open>Responses\<close>

text \<open>\<open>Character.isWhitespace\<close> on the characters of ISO-8859-1, in which the response is read.\<close>

definition isWhitespace :: "jchar \<Rightarrow> bool" where
  "isWhitespace c \<longleftrightarrow> (9 \<le> c \<and> c \<le> 13) \<or> (28 \<le> c \<and> c \<le> 32)"

text \<open>The part before the first occurrence of a character, and the part behind it.\<close>

fun cut_at :: "jchar \<Rightarrow> jstring \<Rightarrow> (jstring \<times> jstring) option" where
  "cut_at d [] = None"
| "cut_at d (c # s) = (if c = d then Some ([], s) else map_option (apfst ((#) c)) (cut_at d s))"

fun jread_headers :: "jstring list \<Rightarrow> jstring option \<Rightarrow> (jstring \<times> jstring) list \<Rightarrow> (jstring \<times> jstring) list jres" where
  "jread_headers [] key hs = Normal hs"
| "jread_headers (line # lines) key hs =
     (if line = [] then Normal hs
      else case (key, isWhitespace (hd line)) of
          (Some k, True) \<Rightarrow> jread_headers lines key (AList.update k (the (map_of hs k) @ line) hs)
        | _ \<Rightarrow> (case cut_at 58 line of
              None \<Rightarrow> IOExc (J ''Request failed, bad header'')
            | Some (k, v) \<Rightarrow> jread_headers lines (Some k) (AList.update k (jtrim v) hs)))"

definition jread_response :: "jstring \<Rightarrow> jstring list \<Rightarrow> (jstring \<times> jstring) list jres" where
  "jread_response name lines = (case lines of
       [] \<Rightarrow> IOExc (J ''No response'')
     | line # lines \<Rightarrow>
         if line = [] then IOExc (J ''No response'')
         else if take 13 line = J ''RTSP/1.0 453 '' then IOExc (J ''Speaker '' @ [34] @ name @ [34] @ J '' already in use'')
         else if line \<noteq> J ''RTSP/1.0 200 OK'' then IOExc (J ''Received '' @ [34] @ line @ [34])
         else jread_headers lines None [])"

text \<open>A socket that is null is an exception before anything else is done.\<close>

definition execRTSP :: "jenv \<Rightarrow> jstring \<Rightarrow> jstring option \<Rightarrow> (jstring \<times> jstring) list \<Rightarrow> jspeaker \<Rightarrow>
    (jstring \<times> jstring) list jres \<times> jspeaker" where
  "execRTSP v cmd content newheaders s =
     (if \<not> rtsp_open (conn s) then (Unchecked, s)
      else
        let s = s\<lparr>jcseq := jcseq s + 1\<rparr>;
            text = request_text cmd content (arrange v (write_headers content newheaders s)) s;
            (a, s) = next_answer (s\<lparr>js_sent := js_sent s @ [text]\<rparr>)
        in case a of Io_error \<Rightarrow> (IOExc (J ''I/O''), s) | Lines ls \<Rightarrow> (jread_response (js_name s) ls, s))"

text \<open>A part that is only the sign is an array of no elements, of which the first is taken.\<close>

fun put_parts :: "jstring list \<Rightarrow> headers \<Rightarrow> headers option" where
  "put_parts [] out = Some out"
| "put_parts (z # zs) out = (case jsplit 61 z of
       [] \<Rightarrow> None
     | [k, v] \<Rightarrow> put_parts zs (AList.update k (Some v) out)
     | k # _ \<Rightarrow> put_parts zs (AList.update k None out))"

definition splitProperties :: "jstring \<Rightarrow> headers option" where
  "splitProperties s = put_parts (jsplit 59 s) []"

text \<open>A missing number or one that is not a port is an exception that is not an \<open>IOException\<close>.\<close>

definition port_property :: "headers \<Rightarrow> jstring \<Rightarrow> int option" where
  "port_property props key = (case map_of props key of
       Some (Some v) \<Rightarrow> (case parseInt 10 v of
           None \<Rightarrow> None
         | Some p \<Rightarrow> if 0 \<le> p \<and> p \<le> 65535 then Some p else None)
     | _ \<Rightarrow> None)"

subsection \<open>The requests of a session\<close>

definition rtspAnnounce :: "jenv \<Rightarrow> jstring \<Rightarrow> jstring \<Rightarrow> jspeaker \<Rightarrow> unit jres \<times> jspeaker" where
  "rtspAnnounce v sdp challenge s =
     jbind (execRTSP v (J ''ANNOUNCE'') (Some sdp) [(J ''Content-Type'', J ''application/sdp''), (J ''Apple-Challenge'', challenge)] s)
       (\<lambda>_ s. (Normal (), s))"

definition setup_transport :: "int \<Rightarrow> int \<Rightarrow> jstring" where
  "setup_transport control timing = J ''RTP/AVP/UDP;unicast;interleaved=0-1;mode=record;control_port='' @ toString control @
     J '';timing_port='' @ toString timing"

text \<open>The fields are assigned one after the other; an exception leaves those that were assigned before it.\<close>

definition take_ports :: "headers \<Rightarrow> jspeaker \<Rightarrow> unit jres \<times> jspeaker" where
  "take_ports props s = (case port_property props (J ''server_port'') of
       None \<Rightarrow> (Unchecked, s)
     | Some p \<Rightarrow>
         let s = s\<lparr>conn := (conn s)\<lparr>aserver := Some (js_host s, p)\<rparr>\<rparr>
         in case port_property props (J ''timing_port'') of
             None \<Rightarrow> (Unchecked, s)
           | Some p \<Rightarrow>
               let s = s\<lparr>conn := (conn s)\<lparr>atiming := Some (js_host s, p)\<rparr>\<rparr>
               in case port_property props (J ''control_port'') of
                   None \<Rightarrow> (Unchecked, s)
                 | Some p \<Rightarrow> (Normal (), s\<lparr>conn := (conn s)\<lparr>acontrol := Some (js_host s, p)\<rparr>\<rparr>))"

definition take_jack :: "(jstring \<times> jstring) list \<Rightarrow> jspeaker \<Rightarrow> unit jres \<times> jspeaker" where
  "take_jack res s = (case Option.bind (map_of res (J ''Audio-Jack-Status'')) splitProperties of
       None \<Rightarrow> (Unchecked, s)
     | Some props \<Rightarrow>
         if map_of props (J ''connected'') = None then (IOExc (J ''No speaker connected to Airport''), s)
         else (Normal (), s\<lparr>jacktype := Option.bind (map_of props (J ''type'')) id\<rparr>))"

definition rtspSetup :: "jenv \<Rightarrow> jspeaker \<Rightarrow> unit jres \<times> jspeaker" where
  "rtspSetup v s =
     jbind (execRTSP v (J ''SETUP'') None [(J ''Transport'', setup_transport (controlport s) (timingport s))] s)
       (\<lambda>res s.
         let s = s\<lparr>globalheaders := AList.update (J ''Session'') (map_of res (J ''Session'')) (globalheaders s),
                   servertype := map_of res (J ''Server'')\<rparr>
         in case Option.bind (map_of res (J ''Transport'')) splitProperties of
             None \<Rightarrow> (Unchecked, s)
           | Some props \<Rightarrow> jbind (take_ports props s) (\<lambda>_ s. take_jack res s))"

definition rtp_info :: "u32 \<Rightarrow> u32 \<Rightarrow> (jstring \<times> jstring) list" where
  "rtp_info seq time = [(J ''Range'', J ''npt=0-''),
     (J ''RTP-Info'', J ''seq='' @ toString (sint seq) @ J '';rtptime='' @ toString (sint time))]"

definition rtspRecord :: "jenv \<Rightarrow> u32 \<Rightarrow> u32 \<Rightarrow> jspeaker \<Rightarrow> unit jres \<times> jspeaker" where
  "rtspRecord v seq time s =
     (if map_of (globalheaders s) (J ''Session'') = None then (Unchecked, s)
      else jbind (execRTSP v (J ''RECORD'') None (rtp_info seq time) s)
        (\<lambda>res s. case Option.bind (map_of res (J ''Audio-Latency'')) (parseInt 10) of
            None \<Rightarrow> (Unchecked, s)
          | Some l \<Rightarrow> (Normal (), s\<lparr>conn := (conn s)\<lparr>latency := word_of_int l\<rparr>\<rparr>)))"

definition rtspSetParameter :: "jenv \<Rightarrow> jstring \<Rightarrow> jspeaker \<Rightarrow> unit jres \<times> jspeaker" where
  "rtspSetParameter v param s =
     jbind (execRTSP v (J ''SET_PARAMETER'') (Some param) [(J ''Content-Type'', J ''text/parameters'')] s) (\<lambda>_ s. (Normal (), s))"

definition rtspFlush :: "jenv \<Rightarrow> u32 \<Rightarrow> u32 \<Rightarrow> jspeaker \<Rightarrow> unit jres \<times> jspeaker" where
  "rtspFlush v seq time s = jbind (execRTSP v (J ''FLUSH'') None (rtp_info seq time) s) (\<lambda>_ s. (Normal (), s))"

definition rtspTeardown :: "jenv \<Rightarrow> jspeaker \<Rightarrow> unit jres \<times> jspeaker" where
  "rtspTeardown v s = jbind (execRTSP v (J ''TEARDOWN'') None [] s) (\<lambda>_ s. (Normal (), s))"

definition rtspOptions :: "jenv \<Rightarrow> jspeaker \<Rightarrow> unit jres \<times> jspeaker" where
  "rtspOptions v s = jbind (execRTSP v (J ''OPTIONS'') None [] s) (\<lambda>_ s. (Normal (), s))"

subsection \<open>Connecting\<close>

definition js_invalidate :: "jspeaker \<Rightarrow> unit jres \<times> jspeaker" where
  "js_invalidate s = (case invalidate (conn s) of None \<Rightarrow> (Unchecked, s) | Some c \<Rightarrow> (Normal (), s\<lparr>conn := c\<rparr>))"

definition setError :: "jstring \<Rightarrow> jspeaker \<Rightarrow> unit jres \<times> jspeaker" where
  "setError m s = js_invalidate (s\<lparr>js_error := Some m\<rparr>)"

definition upper :: "jchar \<Rightarrow> jchar" where
  "upper c = (if 97 \<le> c \<and> c \<le> 122 then c - 32 else c)"

definition client_instance :: "nat \<Rightarrow> jstring" where
  "client_instance r = (let sci = J ''0000000000000000'' @ toHexString r in map upper (drop (length sci - 16) sci))"

text \<open>Ten digits at least.\<close>

definition session_number :: "nat \<Rightarrow> jstring" where
  "session_number r = (let d = decimal r in replicate (10 - length d) 48 @ d)"

definition jsdp_text :: "jenv \<Rightarrow> jspeaker \<Rightarrow> jstring" where
  "jsdp_text v s = J ''v=0'' @ JCRLF @ J ''o=iTunes '' @ clientsessionid s @ J '' 0 IN IP4 '' @ js_host s @ JCRLF @
     J ''s=iTunes'' @ JCRLF @ J ''c=IN IP4 '' @ the (localhost v) @ JCRLF @ J ''t=0 0'' @ JCRLF @ J ''m=audio 0 RTP/AVP 96'' @ JCRLF @
     J ''a=rtpmap:96 AppleLossless'' @ JCRLF @ J ''a=fmtp:96 4096 0 16 40 10 14 2 255 0 0 44100'' @ JCRLF @
     J ''a=rsaaeskey:'' @ the (cipherkey s) @ JCRLF @
     J ''a=aesiv:'' @ (case cipheriv s of None \<Rightarrow> J ''null'' | Some iv \<Rightarrow> iv) @ JCRLF"

text \<open>The body of the \<open>try\<close>.  Connecting the socket and making the one for audio take an answer of the network each.\<close>

definition try_connect :: "jenv \<Rightarrow> jspeaker \<Rightarrow> unit jres \<times> jspeaker" where
  "try_connect v s =
     (if cipherkey s = None then (IOExc (J ''Not connected''), s)
      else
        let hs = AList.update (J ''Client-Instance'') (Some (client_instance (rnd_instance v))) (globalheaders s);
            hs = AList.update (J ''User-Agent'') (Some (J ''iTunes/4.6 (Macintosh; U; PPC Mac OS X 10.3)'')) hs;
            s = s\<lparr>globalheaders := hs, conn := (conn s)\<lparr>rtsp_open := True\<rparr>\<rparr>;
            (a, s) = next_answer s
        in if a = Io_error then (IOExc (J ''connect''), s)
           else
             let s = s\<lparr>clientsessionid := session_number (rnd_session v)\<rparr>
             in if localhost v = None then (IOExc (J ''unknown host''), s)
                else jbind (rtspAnnounce v (jsdp_text v s) (base64encode (rnd_challenge v) False) s)
                 (\<lambda>_ s. jbind (rtspSetup v s)
                   (\<lambda>_ s. let (a, s) = next_answer s in
                      if a = Io_error then (IOExc (J ''socket''), s)
                      else (Normal (), s\<lparr>audio_open := True,
                        conn := (conn s)\<lparr>touch := int_of_long ((jnow v + VALIDITY) sdiv 1000)\<rparr>\<rparr>))))"

definition reconnect :: "jenv \<Rightarrow> jspeaker \<Rightarrow> unit jres \<times> jspeaker" where
  "reconnect v s = (case try_connect v s of (IOExc m, s) \<Rightarrow> setError m s | r \<Rightarrow> r)"

definition connect :: "jenv \<Rightarrow> jstring \<Rightarrow> jstring \<Rightarrow> int \<Rightarrow> int \<Rightarrow> jspeaker \<Rightarrow> unit jres \<times> jspeaker" where
  "connect v key iv control timing s = reconnect v
     (s\<lparr>js_error := None, cipherkey := Some key, cipheriv := Some iv, controlport := control, timingport := timing\<rparr>)"

text \<open>A request that is repeated once, over a new connection.\<close>

definition with_retry :: "jenv \<Rightarrow> (jspeaker \<Rightarrow> unit jres \<times> jspeaker) \<Rightarrow> jspeaker \<Rightarrow> unit jres \<times> jspeaker" where
  "with_retry v request s = (case request s of
       (IOExc _, s) \<Rightarrow> jbind (reconnect v s)
         (\<lambda>_ s. if js_error s \<noteq> None then (Normal (), s)
                else case request s of (IOExc m, s) \<Rightarrow> setError m s | r \<Rightarrow> r)
     | r \<Rightarrow> r)"

definition js_start :: "jenv \<Rightarrow> u32 \<Rightarrow> u32 \<Rightarrow> jspeaker \<Rightarrow> unit jres \<times> jspeaker" where
  "js_start v seq time s = (if js_error s = None then with_retry v (rtspRecord v seq time) s else (Normal (), s))"

definition js_stop :: "jenv \<Rightarrow> u32 \<Rightarrow> u32 \<Rightarrow> jspeaker \<Rightarrow> unit jres \<times> jspeaker" where
  "js_stop v seq time s = (if js_error s = None then with_retry v (rtspFlush v seq time) s else (Normal (), s))"

text \<open>The gain comes as the text it is formatted to.\<close>

definition js_setGain :: "jenv \<Rightarrow> jstring \<Rightarrow> jspeaker \<Rightarrow> unit jres \<times> jspeaker" where
  "js_setGain v val s = (if js_error s = None \<and> cipherkey s \<noteq> None
     then with_retry v (rtspSetParameter v (J ''volume: '' @ val @ JCRLF)) s else (Normal (), s))"

definition js_disconnect :: "jenv \<Rightarrow> jspeaker \<Rightarrow> unit jres \<times> jspeaker" where
  "js_disconnect v s =
     (if js_error s = None then (case rtspTeardown v s of
          (Unchecked, s) \<Rightarrow> (Unchecked, s)
        | (_, s) \<Rightarrow> js_invalidate (s\<lparr>cipherkey := None, cipheriv := None\<rparr>))
      else (Normal (), s))"

definition ensureConnected :: "jenv \<Rightarrow> jspeaker \<Rightarrow> unit jres \<times> jspeaker" where
  "ensureConnected v s = (if js_error s \<noteq> None then (Normal (), s)
     else case isConnected (jnow v) (conn s) of
         None \<Rightarrow> (Unchecked, s)
       | Some (True, c) \<Rightarrow> (Normal (), s\<lparr>conn := c\<rparr>)
       | Some (False, c) \<Rightarrow> reconnect v (s\<lparr>conn := c\<rparr>))"

definition isDigital :: "jspeaker \<Rightarrow> bool" where
  "isDigital s \<longleftrightarrow> jacktype s = Some (J ''digital'')"

definition new_speaker :: "jstring \<Rightarrow> jstring \<Rightarrow> net_answer list \<Rightarrow> jspeaker" where
  "new_speaker name host as = \<lparr>conn = \<lparr>touch = 0, rtsp_open = False, aserver = None, atiming = None, acontrol = None, latency = 0\<rparr>,
     js_error = None, cipherkey = None, cipheriv = None, controlport = 0, timingport = 0, js_name = name, js_host = host,
     jcseq = 0, globalheaders = [], clientsessionid = [], servertype = None, jacktype = None, audio_open = False,
     js_sent = [], net_answers = as\<rparr>"

subsection \<open>Base 64 in Java and in C\<close>

lemma bit_take6 [simp]: "bit (take_bit 6 w) n \<longleftrightarrow> n < 6 \<and> bit (w :: u32) n"
  by (simp add: bit_take_bit_iff)

text \<open>The six-bit numbers of a group, as the one program and as the other computes them.\<close>

lemma group_numbers:
  fixes b0 b1 b2 :: u8
  defines "c \<equiv> pack 0 b0 b1 b2"
  shows "take_bit 6 (drop_bit 18 c) = drop_bit 2 (ucast b0)"
    and "take_bit 6 (drop_bit 12 c) = push_bit 4 (ucast b0 AND 3) OR drop_bit 4 (ucast b1)"
    and "take_bit 6 (drop_bit 6 c) = push_bit 2 (ucast b1 AND 0xf) OR drop_bit 6 (ucast b2)"
    and "take_bit 6 (drop_bit 0 c) = ucast b2 AND 0x3f"
proof -
  have m: "(3 :: u32) = mask 2" "(0xf :: u32) = mask 4" "(0x3f :: u32) = mask 6" by (simp_all add: mask_eq_exp_minus_1)
  show "take_bit 6 (drop_bit 18 c) = drop_bit 2 (ucast b0)"
    "take_bit 6 (drop_bit 12 c) = push_bit 4 (ucast b0 AND 3) OR drop_bit 4 (ucast b1)"
    "take_bit 6 (drop_bit 6 c) = push_bit 2 (ucast b1 AND 0xf) OR drop_bit 6 (ucast b2)"
    "take_bit 6 (drop_bit 0 c) = ucast b2 AND 0x3f"
    unfolding m c_def
    by (rule bit_word_eqI; auto simp: bit_simps bit_pack dest: bit_imp_le_length)+
qed

definition java_char :: "bool \<Rightarrow> char \<Rightarrow> jchar" where
  "java_char addequals c = (if c = CHR ''='' then if addequals then 61 else 32 else of_nat (of_char c))"

lemma encode_group_java:
  fixes q :: bytes and i defines "n \<equiv> length q"
  defines "i0 \<equiv> (ucast (q ! i) :: u32)" and "i1 \<equiv> (if i + 1 < n then ucast (q ! (i + 1)) else 0 :: u32)"
    and "i2 \<equiv> (if i + 2 < n then ucast (q ! (i + 2)) else 0 :: u32)"
  shows "encode_group q i = [base64_chars ! unat (drop_bit 2 i0), base64_chars ! unat (push_bit 4 (i0 AND 3) OR drop_bit 4 i1),
    if i + 3 > n + 1 then CHR ''='' else base64_chars ! unat (push_bit 2 (i1 AND 0xf) OR drop_bit 6 i2),
    if i + 3 > n then CHR ''='' else base64_chars ! unat (i2 AND 0x3f)]"
proof -
  define b1 where "b1 = (if i + 1 < n then q ! (i + 1) else 0)"
  define b2 where "b2 = (if i + 2 < n then q ! (i + 2) else 0)"
  have b: "i1 = ucast b1" "i2 = ucast b2" by (auto simp: b1_def b2_def i1_def i2_def)
  have c: "(let c = i0 * 256; c = (if i + 1 < n then c + ucast (q ! (i + 1)) else c); c = c * 256
      in if i + 2 < n then c + ucast (q ! (i + 2)) else c) = pack 0 (q ! i) b1 b2"
    by (simp add: pack_sum b1_def b2_def i0_def Let_def)
  have e: "encode_group q i = (let c = pack 0 (q ! i) b1 b2 in
      [base64_chars ! unat (drop_bit 18 (c AND 0x00fc0000)), base64_chars ! unat (drop_bit 12 (c AND 0x0003f000)),
       if i + 3 > n + 1 then CHR ''='' else base64_chars ! unat (drop_bit 6 (c AND 0x00000fc0)),
       if i + 3 > n then CHR ''='' else base64_chars ! unat (drop_bit 0 (c AND 0x0000003f))])"
    unfolding c [symmetric] by (simp only: encode_group_def Let_def n_def i0_def)
  show ?thesis
    unfolding e Let_def field_and_mask group_numbers b i0_def ..
qed

lemma take6_less: "unat (take_bit 6 (w :: u32)) < 64"
proof -
  have "unat (take_bit 6 w) = take_bit 6 (unat w)" by (simp add: unsigned_take_bit_eq)
  then show ?thesis by (simp add: take_bit_nat_eq_self_iff take_bit_eq_mod)
qed

lemma group_less:
  fixes b0 b1 b2 :: u8
  shows "unat (drop_bit 2 (ucast b0 :: u32)) < 64" "unat (push_bit 4 (ucast b0 AND 3) OR drop_bit 4 (ucast b1) :: u32) < 64"
    "unat (push_bit 2 (ucast b1 AND 0xf) OR drop_bit 6 (ucast b2) :: u32) < 64" "unat (ucast b2 AND 0x3f :: u32) < 64"
  using take6_less [of "drop_bit 18 (pack 0 b0 b1 b2)"] take6_less [of "drop_bit 12 (pack 0 b0 b1 b2)"]
    take6_less [of "drop_bit 6 (pack 0 b0 b1 b2)"] take6_less [of "drop_bit 0 (pack 0 b0 b1 b2)"]
  unfolding group_numbers by simp_all

lemma J_base64: "k < 64 \<Longrightarrow> J base64_chars ! k = java_char eq (base64_chars ! k)"
  using base64_chars_not_pad [of k] by (simp add: J_def java_char_def)

text \<open>One turn of the loop; past the end of the array the place of the index does not matter.\<close>

lemma base64_turn:
  assumes i: "i < length q" and sb: "length sb = 4 * a" and a: "i = 3 * a"
  shows "base64_turns q addequals i sb = base64_turns q addequals (i + 3) (sb @ map (java_char addequals) (encode_group q i))"
proof -
  define n where "n = length q"
  define olen where "olen = (n * 4 + 2) div 3"
  define b1 where "b1 = (if i + 1 < n then q ! (i + 1) else 0)"
  define b2 where "b2 = (if i + 2 < n then q ! (i + 2) else 0)"
  define pad :: jchar where "pad = (if addequals then 61 else 32)"
  define o0 where "o0 = unat (drop_bit 2 (ucast (q ! i)) :: u32)"
  define o1 where "o1 = unat (push_bit 4 (ucast (q ! i) AND 3) OR drop_bit 4 (ucast b1) :: u32)"
  define o2 where "o2 = unat (push_bit 2 (ucast b1 AND 0xf) OR drop_bit 6 (ucast b2) :: u32)"
  define o3 where "o3 = unat (ucast b2 AND 0x3f :: u32)"
  define x where "x = [J base64_chars ! o0, J base64_chars ! o1, if length sb + 2 < olen then J base64_chars ! o2 else pad,
    if length sb + 3 < olen then J base64_chars ! o3 else pad]"
  have b: "(if i + 1 < n then ucast (q ! (i + 1)) else 0 :: u32) = ucast b1" "(if i + 2 < n then ucast (q ! (i + 2)) else 0 :: u32) = ucast b2"
    by (auto simp: b1_def b2_def)
  have "base64_turns q addequals i sb = base64_turns q addequals (min n (i + 3)) (sb @ x)"
  proof -
    have two: "(0 :: nat) + (Suc 0 + (0 + Suc 0)) = 2" and three: "(0 :: nat) + (Suc 0 + 2) = 3" by simp_all
    note only = two three Let_def if_True if_False prod.case n_def [symmetric] olen_def [symmetric] pad_def [symmetric] o0_def o1_def o2_def
      o3_def append_assoc append.simps length_append list.size add.assoc one_add_one
    have i': "i < n" using i by (simp add: n_def)
    consider (three) "i + 1 < n" "i + 1 + 1 < n" | (two) "i + 1 < n" "\<not> i + 1 + 1 < n" | (one) "\<not> i + 1 < n" by linarith
    then show ?thesis
    proof cases
      case three
      then have "b1 = q ! (i + 1)" "b2 = q ! (i + 1 + 1)" "min n (i + 3) = i + 1 + 1 + 1" by (simp_all add: b1_def b2_def)
      then show ?thesis using three i' unfolding x_def by (subst base64_turns.simps) (simp only: only)
    next
      case two
      then have "b1 = q ! (i + 1)" "b2 = 0" "min n (i + 3) = i + 1 + 1" by (simp_all add: b1_def b2_def)
      then show ?thesis using two i' unfolding x_def by (subst base64_turns.simps) (simp only: only unsigned_0)
    next
      case one
      then have "b1 = 0" "b2 = 0" "min n (i + 3) = i + 1" using i' by (simp_all add: b1_def b2_def)
      then show ?thesis using one i' unfolding x_def by (subst base64_turns.simps) (simp only: only unsigned_0)
    qed
  qed
  also have "\<dots> = base64_turns q addequals (i + 3) (sb @ x)"
    using base64_turns.simps [of q addequals n] base64_turns.simps [of q addequals "i + 3"] by (simp add: min_def n_def)
  also have "x = map (java_char addequals) (encode_group q i)"
  proof -
    have o: "o0 < 64" "o1 < 64" "o2 < 64" "o3 < 64" unfolding o0_def o1_def o2_def o3_def by (rule group_less)+
    have p: "pad = java_char addequals CHR ''=''" by (simp add: pad_def java_char_def)
    have l: "length sb + 2 < olen \<longleftrightarrow> \<not> i + 3 > n + 1" "length sb + 3 < olen \<longleftrightarrow> \<not> i + 3 > n"
      using i unfolding olen_def sb a n_def [symmetric] by presburger+
    have "encode_group q i = [base64_chars ! o0, base64_chars ! o1, if i + 3 > n + 1 then CHR ''='' else base64_chars ! o2,
        if i + 3 > n then CHR ''='' else base64_chars ! o3]"
      unfolding encode_group_java n_def [symmetric] b o0_def o1_def o2_def o3_def ..
    then show ?thesis unfolding x_def l p using o by (simp add: J_base64 [of _ addequals])
  qed
  finally show ?thesis .
qed

lemma base64_turns_encode:
  assumes "length sb = 4 * (i div 3)" and "i mod 3 = 0"
  shows "base64_turns q addequals i sb = sb @ map (java_char addequals) (encode_loop q i)"
  using assms
proof (induction "length q - i" arbitrary: i sb rule: less_induct)
  case less
  show ?case
  proof (cases "i < length q")
    case False
    then show ?thesis by (subst base64_turns.simps, subst encode_loop.simps) simp
  next
    case True
    obtain a where a: "i = 3 * a" using less.prems by (metis mod_0_imp_dvd dvdE)
    have sb: "length sb = 4 * a" using less.prems a by simp
    define g where "g = map (java_char addequals) (encode_group q i)"
    have nxt: "base64_turns q addequals (i + 3) (sb @ g) = (sb @ g) @ map (java_char addequals) (encode_loop q (i + 3))"
      by (rule less.hyps) (use True a sb in \<open>auto simp: g_def encode_group_def Let_def\<close>)
    have "base64_turns q addequals i sb = base64_turns q addequals (i + 3) (sb @ g)"
      unfolding g_def by (rule base64_turn [OF True sb a])
    then show ?thesis using nxt True by (simp add: g_def encode_loop.simps [of q i])
  qed
qed

lemma encode_group_chars:
  "\<exists>a b c d. {a, b, c, d} \<subseteq> set base64_chars \<and>
     encode_group q i = [a, b, if i + 3 > length q + 1 then CHR ''='' else c, if i + 3 > length q then CHR ''='' else d]"
proof -
  define b1 where "b1 = (if i + 1 < length q then q ! (i + 1) else 0)"
  define b2 where "b2 = (if i + 2 < length q then q ! (i + 2) else 0)"
  have b: "(if i + 1 < length q then ucast (q ! (i + 1)) else 0 :: u32) = ucast b1"
    "(if i + 2 < length q then ucast (q ! (i + 2)) else 0 :: u32) = ucast b2"
    by (auto simp: b1_def b2_def)
  have m: "base64_chars ! k \<in> set base64_chars" if "k < 64" for k using that by (intro nth_mem) simp
  show ?thesis
    unfolding encode_group_java b
    using m [OF group_less(1)] m [OF group_less(2)] m [OF group_less(3)] m [OF group_less(4)]
    by (intro exI conjI [OF _ refl]) blast
qed

lemma encode_loop_shape: "\<exists>body k. encode_loop q i = body @ replicate k CHR ''='' \<and> set body \<subseteq> set base64_chars"
proof (induction q i rule: encode_loop.induct)
  case (1 q i)
  obtain a b c d where g: "{a, b, c, d} \<subseteq> set base64_chars"
      "encode_group q i = [a, b, if i + 3 > length q + 1 then CHR ''='' else c, if i + 3 > length q then CHR ''='' else d]"
    using encode_group_chars by blast
  consider (past) "length q \<le> i" | (one) "i < length q" "i + 3 > length q + 1" | (two) "i + 3 = length q + 1" | (three) "i + 3 \<le> length q"
    by linarith
  then show ?case
  proof cases
    case past
    then show ?thesis by (subst encode_loop.simps) auto
  next
    case one
    then have "encode_loop q i = [a, b] @ replicate 2 CHR ''=''"
      using g(2) encode_loop.simps [of q "i + 3"] by (subst encode_loop.simps) (simp add: numeral_2_eq_2)
    then show ?thesis using g(1) by (intro exI [of _ "[a, b]"]) auto
  next
    case two
    then have "encode_loop q i = [a, b, c] @ replicate 1 CHR ''=''"
      using g(2) encode_loop.simps [of q "i + 3"] by (subst encode_loop.simps) simp
    then show ?thesis using g(1) by (intro exI [of _ "[a, b, c]"] exI [of _ 1]) auto
  next
    case three
    then obtain body k where r: "encode_loop q (i + 3) = body @ replicate k CHR ''=''" "set body \<subseteq> set base64_chars"
      using "1.IH" by auto
    have "encode_loop q i = ([a, b, c, d] @ body) @ replicate k CHR ''=''"
      using three r(1) g(2) by (subst encode_loop.simps) simp
    then show ?thesis using g(1) r(2) by (intro exI [of _ "[a, b, c, d] @ body"] exI [of _ k]) auto
  qed
qed

lemma jtrim_solid: "\<forall>c \<in> set s. 32 < c \<Longrightarrow> jtrim (s @ replicate k 32) = s"
proof -
  assume s: "\<forall>c \<in> set s. 32 < c"
  have e: "dropWhile (\<lambda>c. c \<le> 32) (replicate k (32 :: jchar)) = []" by (simp add: dropWhile_eq_Nil_conv)
  have d: "dropWhile (\<lambda>c. c \<le> 32) (x @ y) = x @ y" if "x \<noteq> []" "\<forall>c \<in> set x. 32 < c" for x y :: jstring
    using that by (cases x) (auto simp: not_le)
  show ?thesis
  proof (cases "s = []")
    case False
    then have "dropWhile (\<lambda>c. c \<le> 32) (rev s) = rev s" using d [of "rev s" "[]"] s by simp
    then show ?thesis using d [OF False s] e by (simp add: jtrim_def dropWhile_append)
  qed (simp add: jtrim_def e)
qed

lemma java_char_solid: "c \<in> set base64_chars \<Longrightarrow> 32 < java_char eq c"
proof -
  have "\<forall>c \<in> set base64_chars. 32 < java_char True c \<and> 32 < java_char False c" by code_simp
  then show "c \<in> set base64_chars \<Longrightarrow> ?thesis" by (cases eq) auto
qed

lemma not_pad: "c \<in> set base64_chars \<Longrightarrow> c \<noteq> CHR ''=''"
proof -
  have "CHR ''='' \<notin> set base64_chars" by code_simp
  then show "c \<in> set base64_chars \<Longrightarrow> ?thesis" by auto
qed

text \<open>C37. The encoder of the Java sender and that of the native player agree: with the signs for padding the text is the same,
  without them it is the same text up to the padding.\<close>

theorem java_base64_agrees:
  "base64encode data True = J (the (snd (base64_encode True data))) \<and>
   base64encode data False = J (takeWhile (\<lambda>c. c \<noteq> CHR ''='') (the (snd (base64_encode True data))))"
proof -
  obtain body k where b: "encode_loop data 0 = body @ replicate k CHR ''=''" "set body \<subseteq> set base64_chars"
    using encode_loop_shape by blast
  have e: "base64encode data eq = jtrim (map (java_char eq) body @ replicate k (java_char eq CHR ''=''))" for eq
    by (simp add: base64encode_def base64_turns_encode b(1))
  have s: "\<forall>c \<in> set (map (java_char eq) body). 32 < c" for eq using b(2) java_char_solid by auto
  have j: "map (java_char eq) body = J body" for eq using b(2) not_pad by (auto simp: J_def java_char_def)
  have p: "java_char True CHR ''='' = 61" "java_char False CHR ''='' = 32" by (simp_all add: java_char_def)
  have "jtrim (J body @ replicate k 61) = J body @ replicate k 61"
    using jtrim_solid [of "J body @ replicate k 61" 0] s [of True] unfolding j
    by (auto simp: set_replicate_conv_if split: if_splits)
  moreover have "jtrim (J body @ replicate k 32) = J body"
    using jtrim_solid s [of False] unfolding j by blast
  moreover have "takeWhile (\<lambda>c. c \<noteq> CHR ''='') (body @ replicate k CHR ''='') = body"
    using b(2) not_pad by (auto simp: takeWhile_append takeWhile_eq_all_conv)
  moreover have "J (body @ replicate k CHR ''='') = J body @ replicate k 61" by (simp add: J_def)
  ultimately show ?thesis by (simp add: base64_encode_def b(1) e j p)
qed

end
