(* ===== verification/AirtunesSession.thy ===== *)
theory AirtunesSession
  imports AirtunesRtsp
begin

text \<open>
  What is proved of the sessions of \<open>AirtunesRtsp\<close>: responses are read as they are meant, connecting to a speaker that
  answers gives its ports, and a network that fails ends the session with an error.
\<close>

subsection \<open>Responses as they are meant\<close>

definition response_line :: "jstring \<times> jstring \<Rightarrow> jstring" where
  "response_line h = fst h @ J '': '' @ snd h"

definition header_ok :: "jstring \<times> jstring \<Rightarrow> bool" where
  "header_ok h \<longleftrightarrow> fst h \<noteq> [] \<and> 58 \<notin> set (fst h) \<and> \<not> isWhitespace (hd (fst h)) \<and> jtrim (snd h) = snd h"

definition ok_response :: "(jstring \<times> jstring) list \<Rightarrow> jstring list" where
  "ok_response hs = J ''RTSP/1.0 200 OK'' # map response_line hs @ [[]]"

fun join :: "jchar \<Rightarrow> jstring list \<Rightarrow> jstring" where
  "join d [] = []"
| "join d [p] = p"
| "join d (p # ps) = p @ d # join d ps"

definition item_text :: "jstring \<times> jstring option \<Rightarrow> jstring" where
  "item_text i = (case snd i of None \<Rightarrow> fst i | Some v \<Rightarrow> fst i @ [61] @ v)"

definition item_ok :: "jstring \<times> jstring option \<Rightarrow> bool" where
  "item_ok i \<longleftrightarrow> fst i \<noteq> [] \<and> 59 \<notin> set (fst i) \<and> 61 \<notin> set (fst i) \<and>
     (case snd i of None \<Rightarrow> True | Some v \<Rightarrow> v \<noteq> [] \<and> 59 \<notin> set v \<and> 61 \<notin> set v)"

text \<open>A list of items with different names, as one value.\<close>

definition items_ok :: "headers \<Rightarrow> bool" where
  "items_ok is \<longleftrightarrow> is \<noteq> [] \<and> list_all item_ok is \<and> distinct (map fst is)"

definition items_text :: "headers \<Rightarrow> jstring" where
  "items_text is = join 59 (map item_text is)"

definition is_port :: "headers \<Rightarrow> string \<Rightarrow> int \<Rightarrow> bool" where
  "is_port is key p \<longleftrightarrow> 0 \<le> p \<and> p \<le> 65535 \<and> map_of is (J key) = Some (Some (toString p))"

lemma cut_at_append: "d \<notin> set k \<Longrightarrow> cut_at d (k @ d # v) = Some (k, v)"
  by (induction k) auto

lemma jtrim_blank: "jtrim (32 # v) = jtrim v"
  by (simp add: jtrim_def)

lemma update_new: "k \<notin> fst ` set hs \<Longrightarrow> AList.update k v hs = hs @ [(k, v)]"
  by (induction hs) auto

lemma jread_headers_lines:
  assumes "list_all header_ok hs" and "distinct (map fst (acc @ hs))"
  shows "jread_headers (map response_line hs @ [[]]) key acc = Normal (acc @ hs)"
  using assms
proof (induction hs arbitrary: key acc)
  case (Cons h hs)
  obtain k v where h: "h = (k, v)" by force
  have k: "k \<noteq> []" "58 \<notin> set k" "\<not> isWhitespace (hd k)" "jtrim v = v" using Cons.prems by (auto simp: h header_ok_def)
  have l: "response_line h = k @ 58 # 32 # v" by (simp add: h response_line_def J_def)
  have "cut_at 58 (response_line h) = Some (k, 32 # v)" unfolding l by (rule cut_at_append [OF k(2)])
  moreover have "response_line h \<noteq> []" "\<not> isWhitespace (hd (response_line h))" using k by (auto simp: l)
  moreover have "AList.update k v acc = acc @ [(k, v)]" using Cons.prems by (intro update_new) (auto simp: h)
  ultimately show ?case
    using Cons.IH [of "acc @ [(k, v)]" "Some k"] Cons.prems k
    by (auto simp: h jtrim_blank split: option.split)
qed simp

lemma jread_ok_response:
  assumes "list_all header_ok hs" and "distinct (map fst hs)"
  shows "jread_response name (ok_response hs) = Normal hs"
proof -
  have "take 13 (J ''RTSP/1.0 200 OK'') \<noteq> J ''RTSP/1.0 453 ''" "J ''RTSP/1.0 200 OK'' \<noteq> []" by (simp_all add: J_def)
  then show ?thesis using jread_headers_lines [of hs "[]"] assms by (simp add: jread_response_def ok_response_def)
qed

lemma parts_append: "d \<notin> set p \<Longrightarrow> parts d (p @ d # s) = p # parts d s"
  by (induction p) auto

lemma parts_one: "d \<notin> set p \<Longrightarrow> parts d p = [p]"
  by (induction p) auto

lemma parts_join: "ps \<noteq> [] \<Longrightarrow> \<forall>p \<in> set ps. d \<notin> set p \<Longrightarrow> parts d (join d ps) = ps"
  by (induction d ps rule: join.induct) (auto simp: parts_append parts_one)

lemma jsplit_join:
  assumes "ps \<noteq> []" and "\<forall>p \<in> set ps. p \<noteq> [] \<and> d \<notin> set p"
  shows "jsplit d (join d ps) = ps"
proof (cases "d \<in> set (join d ps)")
  case True
  have "dropWhile (\<lambda>p. p = []) (rev ps) = rev ps" using assms by (cases "rev ps") (auto simp: rev_eq_Cons_iff)
  then show ?thesis using True assms by (simp add: jsplit_def parts_join)
next
  case False
  then have "parts d (join d ps) = [join d ps]" by (rule parts_one)
  then show ?thesis using False assms by (simp add: jsplit_def parts_join)
qed

lemma split_item: "item_ok (k, v) \<Longrightarrow> jsplit 61 (item_text (k, v)) = (case v of None \<Rightarrow> [k] | Some x \<Rightarrow> [k, x])"
  using jsplit_join [of "[k]" 61] jsplit_join [of "[k, the v]" 61] by (cases v) (auto simp: item_text_def item_ok_def)

lemma put_parts_items:
  assumes "list_all item_ok is" and "distinct (map fst (out @ is))"
  shows "put_parts (map item_text is) out = Some (out @ is)"
  using assms
proof (induction "is" arbitrary: out)
  case (Cons i "is")
  obtain k v where i: "i = (k, v)" by force
  have "AList.update k v out = out @ [(k, v)]" using Cons.prems by (intro update_new) (auto simp: i)
  then show ?case
    using Cons.IH [of "out @ [(k, v)]"] Cons.prems split_item [of k v] by (auto simp: i split: option.splits)
qed simp

lemma item_text_plain: "item_ok i \<Longrightarrow> item_text i \<noteq> [] \<and> 59 \<notin> set (item_text i)"
  by (cases i) (auto simp: item_ok_def item_text_def split: option.splits)

lemma splitProperties_items: "items_ok is \<Longrightarrow> splitProperties (items_text is) = Some is"
  using jsplit_join [of "map item_text is" 59] put_parts_items [of "is" "[]"]
  by (auto simp: splitProperties_def items_text_def items_ok_def list_all_iff item_text_plain)

lemma is_port_property: "is_port is key p \<Longrightarrow> port_property is (J key) = Some p"
  using parseInt_toString [of p] by (auto simp: is_port_def port_property_def)

subsection \<open>Connecting\<close>

text \<open>What a speaker answers to \<open>SETUP\<close>: where it listens, and that a jack is plugged in.\<close>

definition setup_answer :: "(jstring \<times> jstring) list \<Rightarrow> int \<Rightarrow> int \<Rightarrow> int \<Rightarrow> bool" where
  "setup_answer hs server timing control \<longleftrightarrow> list_all header_ok hs \<and> distinct (map fst hs) \<and>
     (\<exists>is jack. items_ok is \<and> map_of hs (J ''Transport'') = Some (items_text is) \<and>
        is_port is ''server_port'' server \<and> is_port is ''timing_port'' timing \<and> is_port is ''control_port'' control \<and>
        items_ok jack \<and> map_of hs (J ''Audio-Jack-Status'') = Some (items_text jack) \<and> map_of jack (J ''connected'') \<noteq> None)"

lemma execRTSP_answered:
  assumes "rtsp_open (conn s)" and "net_answers s = Lines ls # as" and "jread_response (js_name s) ls = Normal hs"
  shows "\<exists>req. execRTSP v cmd content newheaders s =
    (Normal hs, s\<lparr>jcseq := jcseq s + 1, js_sent := js_sent s @ [req], net_answers := as\<rparr>)"
  using assms by (auto simp: execRTSP_def next_answer_def Let_def)

lemma rtspAnnounce_answered:
  assumes "rtsp_open (conn s)" and "net_answers s = Lines ls # as" and "jread_response (js_name s) ls = Normal hs"
  shows "\<exists>req. rtspAnnounce v sdp challenge s = (Normal (), s\<lparr>jcseq := jcseq s + 1, js_sent := js_sent s @ [req], net_answers := as\<rparr>)"
  using execRTSP_answered [OF assms, of v "J ''ANNOUNCE''" "Some sdp" "[(J ''Content-Type'', J ''application/sdp''), (J ''Apple-Challenge'', challenge)]"]
  by (auto simp: rtspAnnounce_def jbind_def)

lemma take_ports_items:
  assumes "is_port is ''server_port'' server" and "is_port is ''timing_port'' timing" and "is_port is ''control_port'' control"
  shows "take_ports is s = (Normal (), s\<lparr>conn := (conn s)\<lparr>aserver := Some (js_host s, server), atiming := Some (js_host s, timing),
    acontrol := Some (js_host s, control)\<rparr>\<rparr>)"
  using assms by (simp add: take_ports_def is_port_property Let_def)

lemma rtspSetup_answered:
  assumes "rtsp_open (conn s)" and "net_answers s = Lines (ok_response hs) # as" and "setup_answer hs server timing control"
  shows "\<exists>req st jt. rtspSetup v s = (Normal (), s\<lparr>jcseq := jcseq s + 1, js_sent := js_sent s @ [req], net_answers := as,
      globalheaders := AList.update (J ''Session'') (map_of hs (J ''Session'')) (globalheaders s), servertype := st, jacktype := jt,
      conn := (conn s)\<lparr>aserver := Some (js_host s, server), atiming := Some (js_host s, timing), acontrol := Some (js_host s, control)\<rparr>\<rparr>)"
proof -
  obtain "is" jack where i: "items_ok is" "map_of hs (J ''Transport'') = Some (items_text is)"
      "is_port is ''server_port'' server" "is_port is ''timing_port'' timing" "is_port is ''control_port'' control"
      "items_ok jack" "map_of hs (J ''Audio-Jack-Status'') = Some (items_text jack)" "map_of jack (J ''connected'') \<noteq> None"
    and h: "list_all header_ok hs" "distinct (map fst hs)"
    using assms(3) by (auto simp: setup_answer_def)
  obtain req where "execRTSP v (J ''SETUP'') None [(J ''Transport'', setup_transport (controlport s) (timingport s))] s =
      (Normal hs, s\<lparr>jcseq := jcseq s + 1, js_sent := js_sent s @ [req], net_answers := as\<rparr>)"
    using execRTSP_answered [OF assms(1,2) jread_ok_response [OF h]] by blast
  moreover define jt where "jt = Option.bind (map_of jack (J ''type'')) id"
  moreover have "take_jack hs s' = (Normal (), s'\<lparr>jacktype := jt\<rparr>)" for s'
    using i(6-8) by (simp add: take_jack_def splitProperties_items jt_def)
  ultimately have "rtspSetup v s = (Normal (), s\<lparr>jcseq := jcseq s + 1, js_sent := js_sent s @ [req], net_answers := as,
      globalheaders := AList.update (J ''Session'') (map_of hs (J ''Session'')) (globalheaders s),
      servertype := map_of hs (J ''Server''), jacktype := jt,
      conn := (conn s)\<lparr>aserver := Some (js_host s, server), atiming := Some (js_host s, timing), acontrol := Some (js_host s, control)\<rparr>\<rparr>)"
    by (simp add: rtspSetup_def jbind_def i(2) splitProperties_items [OF i(1)] take_ports_items [OF i(3-5)] Let_def)
  then show ?thesis by blast
qed

text \<open>C15. Connecting to a speaker that answers, with any headers in any order, makes two requests and leaves a session
  without error: the sockets are open, the addresses are the ports that the speaker named, whatever else its answer
  contains, and the speaker counts as connected.\<close>

theorem connect_opens_speaker:
  assumes a: "net_answers s = Lines x # Lines (ok_response hs1) # Lines (ok_response hs2) # Lines y # as"
    and hs1: "list_all header_ok hs1" "distinct (map fst hs1)" and sa: "setup_answer hs2 server timing control"
    and now: "0 \<le> jnow v" "jnow v < 2147483000000" and host: "localhost v \<noteq> None"
  shows "\<exists>s'. connect v key iv c t s = (Normal (), s') \<and> js_error s' = None \<and> rtsp_open (conn s') \<and> audio_open s' \<and>
    aserver (conn s') = Some (js_host s, server) \<and> atiming (conn s') = Some (js_host s, timing) \<and>
    acontrol (conn s') = Some (js_host s, control) \<and> isConnected (jnow v) (conn s') = Some (True, conn s') \<and>
    jcseq s' = jcseq s + 2 \<and> length (js_sent s') = length (js_sent s) + 2 \<and> net_answers s' = as \<and>
    map_of (globalheaders s') (J ''Session'') \<noteq> None"
proof -
  define gh where "gh = AList.update (J ''User-Agent'') (Some (J ''iTunes/4.6 (Macintosh; U; PPC Mac OS X 10.3)''))
    (AList.update (J ''Client-Instance'') (Some (client_instance (rnd_instance v))) (globalheaders s))"
  define s1 where "s1 = s\<lparr>js_error := None, cipherkey := Some key, cipheriv := Some iv, controlport := c, timingport := t,
    globalheaders := gh, conn := (conn s)\<lparr>rtsp_open := True\<rparr>,
    net_answers := Lines (ok_response hs1) # Lines (ok_response hs2) # Lines y # as, clientsessionid := session_number (rnd_session v)\<rparr>"
  have o1: "rtsp_open (conn s1)" "net_answers s1 = Lines (ok_response hs1) # Lines (ok_response hs2) # Lines y # as"
    by (simp_all add: s1_def)
  obtain r1 where r1: "rtspAnnounce v (jsdp_text v s1) (base64encode (rnd_challenge v) False) s1 =
      (Normal (), s1\<lparr>jcseq := jcseq s1 + 1, js_sent := js_sent s1 @ [r1], net_answers := Lines (ok_response hs2) # Lines y # as\<rparr>)"
    using rtspAnnounce_answered [OF o1 jread_ok_response [OF hs1]] by blast
  define s2 where "s2 = s1\<lparr>jcseq := jcseq s1 + 1, js_sent := js_sent s1 @ [r1], net_answers := Lines (ok_response hs2) # Lines y # as\<rparr>"
  have o2: "rtsp_open (conn s2)" "net_answers s2 = Lines (ok_response hs2) # Lines y # as"
    using o1 by (simp_all add: s2_def)
  obtain r2 st jt where r2: "rtspSetup v s2 = (Normal (), s2\<lparr>jcseq := jcseq s2 + 1, js_sent := js_sent s2 @ [r2], net_answers := Lines y # as,
      globalheaders := AList.update (J ''Session'') (map_of hs2 (J ''Session'')) (globalheaders s2), servertype := st, jacktype := jt,
      conn := (conn s2)\<lparr>aserver := Some (js_host s2, server), atiming := Some (js_host s2, timing), acontrol := Some (js_host s2, control)\<rparr>\<rparr>)"
    using rtspSetup_answered [OF o2 sa] by blast
  have touch: "int_of_long ((jnow v + VALIDITY) sdiv 1000) = (jnow v + 9000) div 1000"
    using now by (simp add: VALIDITY_def signed_divide_int_def sgn_if int_of_long_def signed_of_int signed_take_bit_int_eq_self)
  have late: "\<not> (jnow v - EXPIRE) sdiv 1000 > (jnow v + 9000) div 1000"
    using now by (auto simp: EXPIRE_def signed_divide_int_def sgn_if)
  obtain l where l: "localhost v = Some l" using host by blast
  show ?thesis
    unfolding connect_def reconnect_def try_connect_def
    using a l r1 r2 touch late
    by (simp add: next_answer_def Let_def gh_def [symmetric] s1_def [symmetric] jbind_def s2_def [symmetric])
      (simp add: s2_def s1_def isConnected_def update_conv')
qed

subsection \<open>Failures\<close>

text \<open>A session that has ended with an error: nothing of the connection is left.\<close>

definition session_dead :: "jspeaker \<Rightarrow> bool" where
  "session_dead s \<longleftrightarrow> js_error s \<noteq> None \<and> \<not> rtsp_open (conn s) \<and> touch (conn s) = 0 \<and>
     aserver (conn s) = None \<and> atiming (conn s) = None \<and> acontrol (conn s) = None"

lemma reconnect_unanswered:
  assumes "net_answers s = []" and "cipherkey s \<noteq> None"
  shows "\<exists>s'. reconnect v s = (Normal (), s') \<and> session_dead s'"
  using assms by (auto simp: reconnect_def try_connect_def next_answer_def setError_def js_invalidate_def invalidate_def
      session_dead_def Let_def)

lemma execRTSP_unanswered:
  assumes "rtsp_open (conn s)" and "net_answers s = []"
  shows "\<exists>m s1. execRTSP v cmd content newheaders s = (IOExc m, s1) \<and> net_answers s1 = [] \<and> cipherkey s1 = cipherkey s"
  using assms by (simp add: execRTSP_def next_answer_def Let_def)

lemma with_retry_dead:
  assumes "request s = (IOExc m, s1)" and "net_answers s1 = []" and "cipherkey s1 \<noteq> None"
  shows "\<exists>s'. with_retry v request s = (Normal (), s') \<and> session_dead s'"
  using reconnect_unanswered [OF assms(2,3), of v] assms(1) by (auto simp: with_retry_def jbind_def session_dead_def)

text \<open>C34. A request that gets no answer, on a network on which a new connection fails too, is not an exception for the caller:
  the speaker has an error, no address and no socket, and from then on the requests do nothing.\<close>

theorem dead_network_ends_session:
  assumes s: "rtsp_open (conn s)" "net_answers s = []" "js_error s = None" "cipherkey s \<noteq> None"
    "map_of (globalheaders s) (J ''Session'') \<noteq> None"
    and req: "request \<in> {js_start v seq time, js_stop v seq time, js_setGain v val}"
  shows "\<exists>s'. request s = (Normal (), s') \<and> session_dead s' \<and>
    js_start v seq time s' = (Normal (), s') \<and> js_stop v seq time s' = (Normal (), s') \<and> js_setGain v val s' = (Normal (), s')"
proof -
  have "\<exists>s'. r s = (Normal (), s') \<and> session_dead s'" if "r \<in> {js_start v seq time, js_stop v seq time, js_setGain v val}" for r
  proof -
    obtain m s1 where a: "execRTSP v (J ''RECORD'') None (rtp_info seq time) s = (IOExc m, s1)" "net_answers s1 = []" "cipherkey s1 \<noteq> None"
      using execRTSP_unanswered [OF s(1,2)] s(4) by metis
    obtain m2 s2 where b: "execRTSP v (J ''FLUSH'') None (rtp_info seq time) s = (IOExc m2, s2)" "net_answers s2 = []" "cipherkey s2 \<noteq> None"
      using execRTSP_unanswered [OF s(1,2)] s(4) by metis
    obtain m3 s3 where c: "execRTSP v (J ''SET_PARAMETER'') (Some (J ''volume: '' @ val @ JCRLF)) [(J ''Content-Type'', J ''text/parameters'')] s = (IOExc m3, s3)"
        "net_answers s3 = []" "cipherkey s3 \<noteq> None"
      using execRTSP_unanswered [OF s(1,2)] s(4) by metis
    have "\<exists>s'. with_retry v (rtspRecord v seq time) s = (Normal (), s') \<and> session_dead s'"
      using with_retry_dead [OF _ a(2,3), of "rtspRecord v seq time"] a(1) s(5) by (simp add: rtspRecord_def jbind_def)
    moreover have "\<exists>s'. with_retry v (rtspFlush v seq time) s = (Normal (), s') \<and> session_dead s'"
      using with_retry_dead [OF _ b(2,3), of "rtspFlush v seq time"] b(1) by (simp add: rtspFlush_def jbind_def)
    moreover have "\<exists>s'. with_retry v (rtspSetParameter v (J ''volume: '' @ val @ JCRLF)) s = (Normal (), s') \<and> session_dead s'"
      using with_retry_dead [OF _ c(2,3), of "rtspSetParameter v (J ''volume: '' @ val @ JCRLF)"] c(1)
      by (simp add: rtspSetParameter_def jbind_def)
    ultimately show ?thesis
      using that s(3,4) by (auto simp: js_start_def js_stop_def js_setGain_def)
  qed
  then obtain s' where "request s = (Normal (), s')" "session_dead s'" using req by blast
  then show ?thesis
    by (intro exI [of _ s']) (auto simp: session_dead_def js_start_def js_stop_def js_setGain_def)
qed

text \<open>A speaker that has expired has no socket and no error: the next request is an exception that is not expected.\<close>

lemma expired_request_crashes:
  assumes "js_error s = None" and "rtsp_open (conn s)" and "(now - EXPIRE) sdiv 1000 > touch (conn s)"
  shows "\<exists>c. isConnected now (conn s) = Some (False, c) \<and> js_stop v seq time (s\<lparr>conn := c\<rparr>) = (Unchecked, s\<lparr>conn := c\<rparr>)"
  using assms by (auto simp: isConnected_def invalidate_def js_stop_def with_retry_def rtspFlush_def execRTSP_def jbind_def)

text \<open>An answer without a port is not an \<open>IOException\<close> either.\<close>

lemma missing_port_crashes:
  assumes "rtsp_open (conn s)" and "net_answers s = Lines (ok_response hs) # as" and "list_all header_ok hs" "distinct (map fst hs)"
    and "items_ok is" "map_of hs (J ''Transport'') = Some (items_text is)" "map_of is (J ''server_port'') = None"
  shows "fst (rtspSetup v s) = Unchecked"
  using execRTSP_answered [OF assms(1,2) jread_ok_response [OF assms(3,4)], of v "J ''SETUP''" None
      "[(J ''Transport'', setup_transport (controlport s) (timingport s))]"] assms(5-)
  by (auto simp: rtspSetup_def jbind_def splitProperties_items take_ports_def port_property_def Let_def)

subsection \<open>Instances\<close>

definition sample_env :: jenv where
  "sample_env = \<lparr>rnd_instance = 255, rnd_session = 7, rnd_challenge = replicate 16 1, localhost = Some (J ''10.0.0.1''), jnow = 1000000,
     arrange = rev\<rparr>"

definition sample_items :: headers where
  "sample_items = [(J ''unicast'', None), (J ''server_port'', Some (J ''6000'')), (J ''control_port'', Some (J ''6001'')),
     (J ''timing_port'', Some (J ''6002''))]"

definition sample_jack :: headers where
  "sample_jack = [(J ''connected'', None), (J ''type'', Some (J ''analog''))]"

definition sample_headers :: "(jstring \<times> jstring) list" where
  "sample_headers = [(J ''Session'', J ''1''), (J ''Transport'', items_text sample_items),
     (J ''Audio-Jack-Status'', items_text sample_jack)]"

lemma sample_setup_answer: "setup_answer sample_headers 6000 6002 6001"
proof -
  have h: "list_all header_ok sample_headers" "distinct (map fst sample_headers)"
    by (simp_all add: sample_headers_def header_ok_def J_def isWhitespace_def jtrim_def items_text_def item_text_def sample_items_def
        sample_jack_def)
  have i: "items_ok sample_items" "items_ok sample_jack"
    by (simp_all add: items_ok_def item_ok_def sample_items_def sample_jack_def J_def)
  have p: "is_port sample_items ''server_port'' 6000" "is_port sample_items ''timing_port'' 6002"
      "is_port sample_items ''control_port'' 6001"
    by (simp_all add: is_port_def sample_items_def J_def toString_def decimal.simps hex_char_def)
  have m: "map_of sample_headers (J ''Transport'') = Some (items_text sample_items)"
      "map_of sample_headers (J ''Audio-Jack-Status'') = Some (items_text sample_jack)" "map_of sample_jack (J ''connected'') \<noteq> None"
    by (simp_all add: sample_headers_def sample_jack_def J_def)
  from h i p m show ?thesis unfolding setup_answer_def by blast
qed

theorem connect_opens_speaker_witness:
  "\<exists>s'. connect sample_env (J ''key'') (J ''iv'') 6001 6002
       (new_speaker (J ''den'') (J ''10.0.0.2'') [Lines [], Lines (ok_response []), Lines (ok_response sample_headers), Lines []]) =
     (Normal (), s') \<and> aserver (conn s') = Some (J ''10.0.0.2'', 6000) \<and> js_error s' = None"
  using connect_opens_speaker [of "new_speaker (J ''den'') (J ''10.0.0.2'') [Lines [], Lines (ok_response []), Lines (ok_response sample_headers), Lines []]"
      "[]" "[]" sample_headers "[]" "[]" 6000 6002 6001 sample_env "J ''key''" "J ''iv''" 6001 6002] sample_setup_answer
  by (auto simp: new_speaker_def sample_env_def)

definition sample_session :: jspeaker where
  "sample_session = (new_speaker (J ''den'') (J ''10.0.0.2'') [])\<lparr>cipherkey := Some (J ''key''),
     globalheaders := [(J ''Session'', Some (J ''1''))],
     conn := \<lparr>touch = 5, rtsp_open = True, aserver = None, atiming = None, acontrol = None, latency = 0\<rparr>\<rparr>"

theorem dead_network_ends_session_witness:
  "\<exists>s'. js_stop sample_env 1 2 sample_session = (Normal (), s') \<and> session_dead s'"
  using dead_network_ends_session [of sample_session "js_stop sample_env 1 2" sample_env 1 2 "[]"]
  by (auto simp: sample_session_def new_speaker_def)

end
