(* ===== verification/MultiLine.thy ===== *)
theory MultiLine
  imports Airtunes
begin

text \<open>
  The line of the Java player, \<^verbatim>\<open>src/src/com/nixus/raop/player/MultiLine.java\<close>: a ring of bytes that is written by the
  thread that plays and read by several speakers, each with a delay of its own.  Positions in the stream are
  Java's \<open>long\<close>, unbounded integers here; the two extreme values that the code uses as marks are kept.  A speaker
  is a number; what it answers is the record \<open>speaker_env\<close>, what is called on it is recorded in \<open>calls\<close>.  The order of
  the map of speakers is left open by Java; the list has some order, over which the theorems quantify.  \<open>None\<close> is
  an exception, or a loop that does not end.
\<close>

definition LONG_MIN :: int where
  "LONG_MIN = - (2 ^ 63)"

definition LONG_MAX :: int where
  "LONG_MAX = 2 ^ 63 - 1"

definition INT_MAX :: nat where
  "INT_MAX = 2147483647"

record line_state =
  st_tail :: int
  bytedelay :: int

definition new_state :: line_state where
  "new_state = \<lparr>st_tail = LONG_MIN, bytedelay = 0\<rparr>"

record speaker_env =
  getBufferSize :: "nat \<Rightarrow> nat"
  getDelay :: "nat \<Rightarrow> int"
  getVolumeAdjustment :: "nat \<Rightarrow> int"
  getError :: "nat \<Rightarrow> bool"              \<comment> \<open>it is not null\<close>
  sp_isOpen :: "nat \<Rightarrow> bool"

text \<open>The gain is given by the volume it is computed from, in percent; the conversion to decibels is floating point.\<close>

datatype speaker_call =
  Open_sp int int int bool bool | Gain_sp int | Wrote bytes | Flush_sp | Drain_sp | Close_sp

record multiline =
  ml_volume :: int
  msdelay :: int
  queue :: bytes
  head :: int
  ml_tail :: int
  line_speakers :: "(nat \<times> line_state) list"
  sampleRate :: int
  bitsPerChannel :: int
  channels :: int
  is_signed :: bool
  big_endian :: bool
  bytespersecond :: int
  maxbytedelay :: int
  calls :: "(nat \<times> speaker_call) list"

definition new_line :: multiline where
  "new_line = \<lparr>ml_volume = 0, msdelay = 0, queue = replicate 704000 0, head = 0, ml_tail = 0, line_speakers = [],
     sampleRate = 0, bitsPerChannel = 0, channels = 0, is_signed = False, big_endian = False, bytespersecond = 0,
     maxbytedelay = 0, calls = []\<rparr>"

definition call :: "(nat \<times> speaker_call) list \<Rightarrow> multiline \<Rightarrow> multiline" where
  "call cs m = m\<lparr>calls := calls m @ cs\<rparr>"

subsection \<open>Speakers\<close>

definition getSpeakers :: "multiline \<Rightarrow> nat list" where
  "getSpeakers m = map fst (line_speakers m)"

definition hasSpeakers :: "multiline \<Rightarrow> bool" where
  "hasSpeakers m \<longleftrightarrow> line_speakers m \<noteq> []"

definition line_isOpen :: "multiline \<Rightarrow> bool" where
  "line_isOpen m \<longleftrightarrow> sampleRate m \<noteq> 0"

definition speaker_volume :: "speaker_env \<Rightarrow> nat \<Rightarrow> int \<Rightarrow> int" where
  "speaker_volume e k volume = max 0 (min 100 (volume + getVolumeAdjustment e k))"

definition line_setVolume :: "speaker_env \<Rightarrow> int \<Rightarrow> multiline \<Rightarrow> multiline" where
  "line_setVolume e volume m =
     call (map (\<lambda>k. (k, Gain_sp (speaker_volume e k volume))) (getSpeakers m)) (m\<lparr>ml_volume := volume\<rparr>)"

text \<open>The delay in bytes, if the speaker could be opened.  The first product is one of \<open>int\<close>.\<close>

definition openSpeaker :: "speaker_env \<Rightarrow> nat \<Rightarrow> multiline \<Rightarrow> int option \<times> multiline" where
  "openSpeaker e k m =
     (let m = call [(k, Open_sp (sampleRate m) (bitsPerChannel m) (channels m) (is_signed m) (big_endian m))] m
      in if getError e k then (None, m)
         else
           let size = int (getBufferSize e k);
               m = call [(k, Gain_sp (speaker_volume e k (ml_volume m)))] m
           in (Some (int_of_long (getDelay e k * bytespersecond m) sdiv 1000 sdiv size * size), m))"

definition set_delay :: "nat \<Rightarrow> int \<Rightarrow> (nat \<times> line_state) list \<Rightarrow> (nat \<times> line_state) list" where
  "set_delay k d = map (\<lambda>(j, st). (j, if j = k then st\<lparr>bytedelay := d\<rparr> else st))"

definition drop_speaker :: "nat \<Rightarrow> (nat \<times> line_state) list \<Rightarrow> (nat \<times> line_state) list" where
  "drop_speaker k = filter (\<lambda>(j, st). j \<noteq> k)"

fun open_added :: "speaker_env \<Rightarrow> nat list \<Rightarrow> (nat \<times> line_state) list \<Rightarrow> multiline \<Rightarrow> (nat \<times> line_state) list \<times> multiline" where
  "open_added e [] temp m = (temp, m)"
| "open_added e (k # ks) temp m = (case openSpeaker e k m of
       (None, m) \<Rightarrow> open_added e ks (drop_speaker k temp) m
     | (Some d, m) \<Rightarrow> open_added e ks (set_delay k d temp) m)"

text \<open>The maximum is taken with the field of the line, not with the value found so far, and before the speakers
  that are added have their delays.\<close>

definition setSpeakers :: "speaker_env \<Rightarrow> nat list \<Rightarrow> multiline \<Rightarrow> bool \<times> multiline" where
  "setSpeakers e newspeakers m =
     (if newspeakers = [] then (False, m)
      else
        let add = filter (\<lambda>k. k \<notin> set (getSpeakers m)) (remdups newspeakers);
            rem = filter (\<lambda>k. k \<notin> set newspeakers) (getSpeakers m);
            temp = line_speakers m @ map (\<lambda>k. (k, new_state)) add;
            temp = fold drop_speaker rem temp;
            tempmax = fold (\<lambda>(k, st) x. max (maxbytedelay m) (bytedelay st)) temp 0;
            (temp, m) = (if line_isOpen m then open_added e add temp m else (temp, m));
            m = m\<lparr>line_speakers := temp, maxbytedelay := tempmax\<rparr>;
            m = call (map (\<lambda>k. (k, Close_sp)) (filter (sp_isOpen e) rem)) m
        in (add \<noteq> [] \<or> rem \<noteq> [], m))"

text \<open>The speakers are those of the map at the start; a speaker with an error is taken out of the current map.\<close>

fun valid_loop :: "speaker_env \<Rightarrow> nat list \<Rightarrow> multiline \<Rightarrow> bool \<times> multiline" where
  "valid_loop e [] m = (False, m)"
| "valid_loop e (k # ks) m = (if \<not> getError e k then (True, m)
     else valid_loop e ks (snd (setSpeakers e (remove1 k (getSpeakers m)) m)))"

definition isValid :: "speaker_env \<Rightarrow> multiline \<Rightarrow> bool \<times> multiline" where
  "isValid e m = valid_loop e (getSpeakers m) m"

definition update :: "multiline \<Rightarrow> multiline" where
  "update m = m\<lparr>msdelay := (if bytespersecond m = 0 then 0
     else int_of_long ((head m - ml_tail m) * 1000 sdiv bytespersecond m))\<rparr>"

fun open_each :: "speaker_env \<Rightarrow> (nat \<times> line_state) list \<Rightarrow> multiline \<Rightarrow> (nat \<times> line_state) list \<times> multiline" where
  "open_each e [] m = ([], m)"
| "open_each e ((k, st) # ss) m = (case openSpeaker e k m of
       (None, m) \<Rightarrow> open_each e ss m
     | (Some d, m) \<Rightarrow> apfst ((#) (k, st\<lparr>bytedelay := d\<rparr>)) (open_each e ss (m\<lparr>maxbytedelay := max (maxbytedelay m) d\<rparr>)))"

text \<open>The number of bits per second is exact as a \<open>float\<close> for the rates in use.\<close>

definition open_line :: "speaker_env \<Rightarrow> int \<Rightarrow> int \<Rightarrow> int \<Rightarrow> bool \<Rightarrow> bool \<Rightarrow> multiline \<Rightarrow> multiline" where
  "open_line e rate bits chans sg big m =
     (let m = m\<lparr>sampleRate := rate, bitsPerChannel := bits, channels := chans, is_signed := sg, big_endian := big\<rparr>;
          m = m\<lparr>maxbytedelay := 0, bytespersecond := rate * bits * chans div 8\<rparr>;
          (ss, m) = open_each e (line_speakers m) m
      in m\<lparr>line_speakers := ss\<rparr>)"

definition close_line :: "multiline \<Rightarrow> multiline" where
  "close_line m =
     (let m = call (map (\<lambda>k. (k, Close_sp)) (getSpeakers m)) m
      in update (m\<lparr>sampleRate := 0, bytespersecond := 0\<rparr>))"

subsection \<open>The ring\<close>

text \<open>An index outside an array is an exception.\<close>

definition arraycopy :: "bytes \<Rightarrow> nat \<Rightarrow> bytes \<Rightarrow> nat \<Rightarrow> nat \<Rightarrow> bytes option" where
  "arraycopy src so dst d n = (if so + n \<le> length src \<and> d + n \<le> length dst
     then Some (take d dst @ take n (drop so src) @ drop (d + n) dst) else None)"

text \<open>Copying into the ring, and what a speaker is given of it, in one or two pieces.\<close>

definition ring_put :: "bytes \<Rightarrow> nat \<Rightarrow> nat \<Rightarrow> nat \<Rightarrow> bytes \<Rightarrow> bytes option" where
  "ring_put buf off len qh q =
     (let len1 = int qh + int len - int (length q) in
      if len1 \<le> 0 then arraycopy buf off q qh len
      else Option.bind (arraycopy buf off q qh (len - nat len1)) (\<lambda>q. arraycopy buf (off + len - nat len1) q 0 (nat len1)))"

definition ring_get :: "bytes \<Rightarrow> nat \<Rightarrow> nat \<Rightarrow> bytes list" where
  "ring_get q qt len =
     (let len1 = int qt + int len - int (length q) in
      if len1 \<le> 0 then [take len (drop qt q)]
      else [take (len - nat len1) (drop qt q), take (nat len1) q])"

text \<open>The loop of \<open>push\<close> for one speaker: what is written to it, its state, and the position that every speaker is
  past.  A buffer of no bytes makes the loop endless, one that is larger than the ring is an exception.\<close>

function push_loop :: "bytes \<Rightarrow> int \<Rightarrow> int \<Rightarrow> nat \<Rightarrow> line_state \<Rightarrow> int \<Rightarrow> (bytes list \<times> line_state \<times> int) option" where
  "push_loop q hd_pos maxdelay len st newtail =
     (let qt = (st_tail st - (maxdelay - bytedelay st)) smod int (length q) in
      if qt \<ge> 0 \<and> int len \<le> hd_pos - st_tail st then
        if len = 0 \<or> len > length q then None
        else
          let out = ring_get q (nat qt) len;
              st = st\<lparr>st_tail := st_tail st + int len\<rparr>;
              newtail = min newtail (st_tail st - bytedelay st)
          in map_option (apfst ((@) out)) (push_loop q hd_pos maxdelay len st newtail)
      else Some ([], if qt < 0 then st\<lparr>st_tail := hd_pos\<rparr> else st, newtail))"
  by pat_completeness auto

termination
  by (relation "measure (\<lambda>(q, hd_pos, maxdelay, len, st, newtail). nat (hd_pos - st_tail st + 1))") auto

declare push_loop.simps [simp del]

definition settle :: "int \<Rightarrow> line_state \<Rightarrow> line_state" where
  "settle tl_pos st = (if st_tail st = LONG_MIN then st\<lparr>st_tail := max 0 (tl_pos - bytedelay st)\<rparr> else st)"

fun push_each :: "speaker_env \<Rightarrow> multiline \<Rightarrow> (nat \<times> line_state) list \<Rightarrow> int \<Rightarrow>
    ((nat \<times> line_state) list \<times> (nat \<times> speaker_call) list \<times> int) option" where
  "push_each e m [] newtail = Some ([], [], newtail)"
| "push_each e m ((k, st) # ss) newtail =
     (case push_loop (queue m) (head m) (maxbytedelay m) (getBufferSize e k) (settle (ml_tail m) st) newtail of
        None \<Rightarrow> None
      | Some (out, st, newtail) \<Rightarrow> (case push_each e m ss newtail of
          None \<Rightarrow> None
        | Some (ss, cs, newtail) \<Rightarrow> Some ((k, st) # ss, map (\<lambda>b. (k, Wrote b)) out @ cs, newtail)))"

definition push :: "speaker_env \<Rightarrow> multiline \<Rightarrow> multiline option" where
  "push e m = (case push_each e m (line_speakers m) LONG_MAX of
       None \<Rightarrow> None
     | Some (ss, cs, newtail) \<Rightarrow>
         let m = call cs (m\<lparr>line_speakers := ss\<rparr>);
             m = (if newtail \<noteq> LONG_MAX then m\<lparr>ml_tail := newtail\<rparr> else m)
         in Some (update m))"

definition write_line :: "speaker_env \<Rightarrow> bytes \<Rightarrow> nat \<Rightarrow> nat \<Rightarrow> multiline \<Rightarrow> multiline option" where
  "write_line e buf off len m =
     (let (valid, m) = isValid e m in
      if \<not> valid then Some m
      else
        let avail = int (length (queue m)) - int_of_long (head m - ml_tail m) in
        if int len > avail then None
        else
          let qh = nat (head m smod int (length (queue m)))
          in Option.bind (ring_put buf off len qh (queue m))
               (\<lambda>q. push e (m\<lparr>queue := q, head := head m + int len\<rparr>)))"

definition reset_tails :: "multiline \<Rightarrow> multiline" where
  "reset_tails m = m\<lparr>line_speakers := map (\<lambda>(k, st). (k, st\<lparr>st_tail := 0\<rparr>)) (line_speakers m)\<rparr>"

definition flush_line :: "speaker_env \<Rightarrow> multiline \<Rightarrow> multiline" where
  "flush_line e m =
     (let (valid, m) = isValid e m;
          m = (if valid then reset_tails (call (map (\<lambda>k. (k, Flush_sp)) (getSpeakers m)) m) else m)
      in update (m\<lparr>head := 0, ml_tail := 0\<rparr>))"

definition stop_line :: "speaker_env \<Rightarrow> multiline \<Rightarrow> multiline" where
  "stop_line e m =
     (let (valid, m) = isValid e m
      in if valid
         then (call (map (\<lambda>k. (k, Flush_sp)) (getSpeakers m)) m)
                \<lparr>line_speakers := map (\<lambda>(k, st). (k, st\<lparr>st_tail := st_tail st - bytedelay st\<rparr>)) (line_speakers m)\<rparr>
         else m)"

text \<open>The padding with silence at the end; the position is an argument of its own.\<close>

definition zero_fill :: "nat \<Rightarrow> int \<Rightarrow> multiline \<Rightarrow> multiline" where
  "zero_fill n h m = m\<lparr>queue := fold (\<lambda>j q. q[nat ((h + int j) smod int (length q)) := 0]) [0..<n] (queue m),
     head := h + int n\<rparr>"

function drain_loop :: "speaker_env \<Rightarrow> nat \<Rightarrow> int \<Rightarrow> int \<Rightarrow> multiline \<Rightarrow> multiline option" where
  "drain_loop e minbuf newhead h m =
     (if h < newhead then
        if minbuf = 0 then None
        else Option.bind (push e (zero_fill minbuf h m)) (drain_loop e minbuf newhead (h + int minbuf))
      else Some m)"
  by pat_completeness auto

termination
  by (relation "measure (\<lambda>(e, minbuf, newhead, h, m). nat (newhead - h))") auto

declare drain_loop.simps [simp del]

definition drain_line :: "speaker_env \<Rightarrow> multiline \<Rightarrow> multiline option" where
  "drain_line e m =
     (let sizes = map (getBufferSize e) (getSpeakers m);
          minbuf = fold min sizes INT_MAX;
          maxbuf = fold max sizes 0;
          newhead = ml_tail m + int maxbuf + maxbytedelay m
      in map_option (\<lambda>m. update ((reset_tails (call (map (\<lambda>k. (k, Drain_sp)) (getSpeakers m)) m))\<lparr>head := 0, ml_tail := 0\<rparr>))
           (drain_loop e minbuf newhead (head m) m))"

subsection \<open>What is proved\<close>

text \<open>The bytes a speaker was given.\<close>

definition received :: "nat \<Rightarrow> (nat \<times> speaker_call) list \<Rightarrow> bytes" where
  "received k cs = concat (map (\<lambda>(j, c). case c of Wrote b \<Rightarrow> if j = k then b else [] | _ \<Rightarrow> []) cs)"

text \<open>A sequence of writes, each an array with an offset and a length, and the stream they make.\<close>

fun line_writes :: "speaker_env \<Rightarrow> (bytes \<times> nat \<times> nat) list \<Rightarrow> multiline \<Rightarrow> multiline option" where
  "line_writes e [] m = Some m"
| "line_writes e ((buf, off, len) # ws) m = Option.bind (write_line e buf off len m) (line_writes e ws)"

definition stream_of :: "(bytes \<times> nat \<times> nat) list \<Rightarrow> bytes" where
  "stream_of ws = concat (map (\<lambda>(buf, off, len). take len (drop off buf)) ws)"

definition writes_ok :: "nat \<Rightarrow> (bytes \<times> nat \<times> nat) list \<Rightarrow> bool" where
  "writes_ok w ws \<longleftrightarrow> list_all (\<lambda>(buf, off, len). off + len \<le> length buf \<and> len \<le> w) ws"

text \<open>The ring holds the end of the stream.\<close>

definition ring_ok :: "bytes \<Rightarrow> bytes \<Rightarrow> bool" where
  "ring_ok q s \<longleftrightarrow> q \<noteq> [] \<and>
     (\<forall>j < length s. length s \<le> j + length q \<longrightarrow> q ! (j mod length q) = s ! j)"

text \<open>The state of a speaker after \<open>s\<close> was written in pieces of at most \<open>w\<close> bytes, when it has been given \<open>r\<close>.  A speaker with
  the largest delay is given the stream from its start.  Another one is as much behind as its delay is smaller,
  and misses less than one write of the start.\<close>

definition sp_inv :: "nat \<Rightarrow> nat \<Rightarrow> int \<Rightarrow> bytes \<Rightarrow> bytes \<Rightarrow> line_state \<Rightarrow> bool" where
  "sp_inv b w maxd s r st \<longleftrightarrow>
     (let g = maxd - bytedelay st; t = st_tail st; h = int (length s) in
      0 \<le> bytedelay st \<and> 0 \<le> g \<and> 0 \<le> t \<and> t \<le> h \<and> h - t < int b \<and>
      (t < g \<and> t = h \<and> r = [] \<or>
       (\<exists>p. int p \<le> t - g \<and> (if g = 0 then p = 0 else p < w) \<and> r = take (nat (t - g) - p) (drop p s))))"

definition line_inv :: "nat \<Rightarrow> nat \<Rightarrow> nat \<Rightarrow> bytes \<Rightarrow> multiline \<Rightarrow> bool" where
  "line_inv b w n s m \<longleftrightarrow>
     head m = int (length s) \<and> ring_ok (queue m) s \<and> n \<le> length (calls m) \<and> distinct (getSpeakers m) \<and>
     ml_tail m \<le> head m \<and>
     (\<forall>(k, st) \<in> set (line_speakers m).
        sp_inv b w (maxbytedelay m) s (received k (drop n (calls m))) (settle (ml_tail m) st)) \<and>
     (\<exists>(k, st) \<in> set (line_speakers m). bytedelay st = maxbytedelay m \<and>
        st_tail (settle (ml_tail m) st) - ml_tail m \<le> int w + maxbytedelay m)"

text \<open>The position that every speaker is past moves to one of this range.\<close>

definition past_ok :: "bytes \<Rightarrow> bytes \<Rightarrow> int \<Rightarrow> int \<Rightarrow> bool" where
  "past_ok s x maxd v \<longleftrightarrow> int (length s) - maxd < v \<and> v \<le> int (length (s @ x))"

text \<open>A line before its first write, with speakers of the buffer size \<open>b\<close> and room for their delays and two writes.\<close>

definition line_ready :: "nat \<Rightarrow> nat \<Rightarrow> multiline \<Rightarrow> bool" where
  "line_ready b w m \<longleftrightarrow> head m = 0 \<and> ml_tail m = 0 \<and> 0 < b \<and> distinct (getSpeakers m) \<and>
     list_all (\<lambda>(k, st). (st_tail st = LONG_MIN \<or> st_tail st = 0) \<and> 0 \<le> bytedelay st \<and> bytedelay st \<le> maxbytedelay m)
       (line_speakers m) \<and>
     list_ex (\<lambda>(k, st). bytedelay st = maxbytedelay m) (line_speakers m) \<and>
     2 * int w + int b + maxbytedelay m \<le> int (length (queue m)) \<and> length (queue m) \<le> INT_MAX"

definition speakers_well :: "nat \<Rightarrow> speaker_env \<Rightarrow> multiline \<Rightarrow> bool" where
  "speakers_well b e m \<longleftrightarrow> list_all (\<lambda>k. getBufferSize e k = b \<and> \<not> getError e k) (getSpeakers m)"

lemma ring_put_some:
  assumes "qh < length q" and "off + len \<le> length buf" and "len \<le> length q" and x: "x = take len (drop off buf)"
  shows "ring_put buf off len qh q = Some (if qh + len \<le> length q then take qh q @ x @ drop (qh + len) q
    else drop (length q - qh) x @ drop (qh + len - length q) (take qh q) @ take (length q - qh) x)"
proof (cases "qh + len \<le> length q")
  case True
  then show ?thesis using assms by (simp add: ring_put_def arraycopy_def)
next
  case False
  then obtain l1 where l1: "qh + len = length q + l1" "0 < l1" by (metis less_imp_add_positive not_le)
  have i: "nat (int qh + int len - int (length q)) = l1" "int qh + int len - int (length q) > 0"
    using l1 by linarith+
  obtain n1 where n1: "length q = qh + n1" using assms(1) that [of "length q - qh"] by simp
  have len: "len = n1 + l1" using l1 n1 by simp
  have l: "len - l1 = n1" "l1 \<le> qh" "off + len - l1 = off + n1"
    using assms(3) by (simp_all add: len n1)
  have x1: "drop n1 x = take l1 (drop (off + n1) buf)" "take n1 x = take n1 (drop off buf)"
    by (simp_all add: x len drop_take add.commute)
  have "arraycopy buf off q qh n1 = Some (take qh q @ take n1 x)"
    using assms(2) by (simp add: arraycopy_def n1 len x1)
  moreover have "arraycopy buf (off + n1) (take qh q @ take n1 x) 0 l1 = Some (drop n1 x @ drop l1 (take qh q) @ take n1 x)"
    using assms(2) l(2) by (simp add: arraycopy_def n1 len x1)
  moreover have "ring_put buf off len qh q = Option.bind (arraycopy buf off q qh n1) (\<lambda>q. arraycopy buf (off + n1) q 0 l1)"
    using i(2) unfolding ring_put_def Let_def i(1) l(1,3) by simp
  ultimately show ?thesis using l1(2) by (simp add: n1 len)
qed

lemma ring_put_nth:
  assumes "qh < length q" and "off + len \<le> length buf" and "len \<le> length q" and x: "x = take len (drop off buf)"
  shows "\<exists>q'. ring_put buf off len qh q = Some q' \<and> length q' = length q \<and>
    (\<forall>i < length q. q' ! i = (if qh \<le> i \<and> i < qh + len then x ! (i - qh)
       else if i + length q < qh + len then x ! (i + length q - qh) else q ! i))"
proof -
  have l: "length x = len" using assms by simp
  show ?thesis
  proof (cases "qh + len \<le> length q")
    case True
    then show ?thesis
      using assms(1,3) l unfolding ring_put_some [OF assms] by (auto simp: nth_append)
  next
    case False
    then show ?thesis
      using assms(1,3) l unfolding ring_put_some [OF assms]
      by (auto simp: nth_append intro!: arg_cong [where f = "(!) x"] arg_cong [where f = "(!) q"])
  qed
qed

lemma mod_once: "a < n \<Longrightarrow> b \<le> n \<Longrightarrow> (a + b) mod n = (if a + b < n then a + b else a + b - (n :: nat))"
  by (simp add: le_mod_geq)

lemma ring_put_ok:
  assumes r: "ring_ok q s" and b: "off + len \<le> length buf" "len \<le> length q"
  shows "\<exists>q'. ring_put buf off len (length s mod length q) q = Some q' \<and> length q' = length q \<and>
    ring_ok q' (s @ take len (drop off buf))"
proof -
  define L where "L = length q"
  define qh where "qh = length s mod L"
  define x where "x = take len (drop off buf)"
  have L: "0 < L" using r by (simp add: ring_ok_def L_def)
  have qh: "qh < L" using L by (simp add: qh_def)
  have len: "len \<le> L" "length x = len" using b by (simp_all add: L_def x_def)
  obtain q' where p: "ring_put buf off len qh q = Some q'" and l: "length q' = L"
    and n: "\<And>i. i < L \<Longrightarrow> q' ! i = (if qh \<le> i \<and> i < qh + len then x ! (i - qh)
       else if i + L < qh + len then x ! (i + L - qh) else q ! i)"
    using ring_put_nth [OF qh [unfolded L_def] b x_def] unfolding L_def by blast
  have new: "q' ! ((length s + y) mod L) = x ! y" if y: "y < len" for y
  proof -
    have "(length s + y) mod L = (qh + y) mod L" by (simp add: mod_add_left_eq qh_def)
    then have m: "(length s + y) mod L = (if qh + y < L then qh + y else qh + y - L)"
      using mod_once [OF qh, of y] y len(1) by simp
    show ?thesis
    proof (cases "qh + y < L")
      case True
      then show ?thesis using n [of "qh + y"] m y by simp
    next
      case False
      then have "qh + y - L < L" "\<not> qh \<le> qh + y - L" "qh + y - L + L < qh + len" "qh + y - L + L - qh = y"
        using y len qh by linarith+
      then show ?thesis using n [of "qh + y - L"] m False by simp
    qed
  qed
  have old: "q' ! (j mod L) = s ! j" if j: "j < length s" "length s + len \<le> j + L" for j
  proof -
    obtain d where d: "length s = j + d" "0 < d" "d + len \<le> L"
      using j by (intro that [of "length s - j"]) auto
    have jL: "j mod L < L" using L by simp
    have "qh = (j mod L + d) mod L" using d by (simp add: mod_add_left_eq qh_def)
    then have "qh = (if j mod L + d < L then j mod L + d else j mod L + d - L)"
      using mod_once [OF jL, of d] d(3) by simp
    then have "\<not> (qh \<le> j mod L \<and> j mod L < qh + len)" "\<not> j mod L + L < qh + len"
      using d jL by (auto split: if_splits)
    then have "q' ! (j mod L) = q ! (j mod L)"
      using n [OF jL] by auto
    then show ?thesis using r j unfolding ring_ok_def by (simp add: L_def)
  qed
  have "ring_ok q' (s @ x)"
    unfolding ring_ok_def l
  proof (intro conjI allI impI)
    show "q' \<noteq> []" using l L by auto
    fix j assume j: "j < length (s @ x)" "length (s @ x) \<le> j + L"
    show "q' ! (j mod L) = (s @ x) ! j"
    proof (cases "j < length s")
      case True
      then show ?thesis using old [of j] j len by (simp add: nth_append)
    next
      case False
      then show ?thesis using new [of "j - length s"] j len by (simp add: nth_append)
    qed
  qed
  with p l show ?thesis by (simp add: L_def qh_def x_def)
qed

lemma ring_get_ok:
  assumes r: "ring_ok q s" and a: "a + len \<le> length s" "length s \<le> a + length q" and len: "len \<le> length q"
  shows "concat (ring_get q (a mod length q) len) = take len (drop a s)"
proof -
  define L where "L = length q"
  define qt where "qt = a mod L"
  have L: "0 < L" using r by (simp add: ring_ok_def L_def)
  have qt: "qt < L" using L by (simp add: qt_def)
  have g: "concat (ring_get q qt len) = take len (drop qt q) @ take (qt + len - L) q"
  proof (cases "qt + len \<le> L")
    case False
    then obtain l1 where l1: "qt + len = L + l1" by (metis less_imp_add_positive not_le)
    then have "nat (int qt + int len - int L) = l1" "len - l1 = L - qt" "\<not> int qt + int len - int L \<le> 0" "L - qt \<le> len"
      using False qt len by (simp_all add: L_def)
    then show ?thesis by (simp add: ring_get_def L_def l1)
  qed (simp add: ring_get_def L_def)
  have "concat (ring_get q qt len) ! i = take len (drop a s) ! i" if i: "i < len" for i
  proof -
    have "(a + i) mod L = (qt + i) mod L" by (simp add: mod_add_left_eq qt_def)
    then have m: "(a + i) mod L = (if qt + i < L then qt + i else qt + i - L)"
      using mod_once [OF qt, of i] i len by (simp add: L_def)
    have "concat (ring_get q qt len) ! i = q ! ((a + i) mod L)"
      unfolding g m using i len qt by (auto simp: nth_append L_def min_def add.commute [of i qt])
    also have "\<dots> = s ! (a + i)"
      using r i a unfolding ring_ok_def L_def by auto
    finally show ?thesis using i a by simp
  qed
  moreover have "length (concat (ring_get q qt len)) = len"
    unfolding g using len qt by (auto simp: L_def min_def)
  ultimately show ?thesis
    using a by (intro nth_equalityI) (simp_all add: qt_def L_def)
qed

lemma smod_nonneg: "0 \<le> a \<Longrightarrow> 0 < b \<Longrightarrow> a smod b = a mod (b :: int)"
  by (simp add: signed_modulo_int_def signed_divide_int_def sgn_if minus_div_mult_eq_mod)

lemma smod_small_neg: "- b < a \<Longrightarrow> a < 0 \<Longrightarrow> a smod b = (a :: int)"
  by (simp add: signed_modulo_int_def signed_divide_int_def)

text \<open>A speaker that has to wait for the stream to get ahead of it is moved to the end.\<close>

lemma push_loop_waits:
  assumes "st_tail st < maxd - bytedelay st" and "maxd - bytedelay st - st_tail st < int (length q)"
  shows "push_loop q h maxd len st nt = Some ([], st\<lparr>st_tail := h\<rparr>, nt)"
  using assms by (simp add: push_loop.simps [of q] smod_small_neg)

text \<open>A speaker that is on its way is given whole buffers, up to less than one of them before the end.\<close>

lemma push_loop_ok:
  assumes r: "ring_ok q s" and len: "0 < len" "len \<le> length q"
    and "0 \<le> maxd - bytedelay st" and "maxd - bytedelay st \<le> st_tail st" and "st_tail st \<le> int (length s)"
    and "int (length s) - st_tail st + (maxd - bytedelay st) \<le> int (length q)"
  shows "\<exists>out t. push_loop q (int (length s)) maxd len st nt =
      Some (out, st\<lparr>st_tail := t\<rparr>, if t = st_tail st then nt else min nt (st_tail st + int len - bytedelay st)) \<and>
    (t = st_tail st \<or> st_tail st + int len \<le> t) \<and> st_tail st \<le> t \<and> t \<le> int (length s) \<and> int (length s) - t < int len \<and>
    concat out = take (nat (t - st_tail st)) (drop (nat (st_tail st - (maxd - bytedelay st))) s)"
  using assms(4-)
proof (induction "nat (int (length s) - st_tail st)" arbitrary: st nt rule: less_induct)
  case less
  let ?g = "maxd - bytedelay st" and ?t = "st_tail st" and ?h = "int (length s)"
  have q: "q \<noteq> []" using r by (simp add: ring_ok_def)
  have qt: "(?t - ?g) smod int (length q) = (?t - ?g) mod int (length q)"
    using less.prems q by (intro smod_nonneg) auto
  have qt0: "(?t - ?g) mod int (length q) \<ge> 0" using q by simp
  show ?case
  proof (cases "int len \<le> ?h - ?t")
    case False
    then show ?thesis
      using less.prems len qt qt0
      by (subst push_loop.simps) (auto intro!: exI [of _ ?t])
  next
    case True
    define st' where "st' = st\<lparr>st_tail := ?t + int len\<rparr>"
    define nt' where "nt' = min nt (?t + int len - bytedelay st)"
    define a where "a = nat (?t - ?g)"
    have a: "?t - ?g = int a" using less.prems by (simp add: a_def)
    have st': "st_tail st' = ?t + int len" "bytedelay st' = bytedelay st" by (simp_all add: st'_def)
    have a': "nat (st_tail st' - (maxd - bytedelay st')) = a + len" using st' a by linarith
    have "\<exists>out t. push_loop q ?h maxd len st' nt' =
        Some (out, st'\<lparr>st_tail := t\<rparr>, if t = st_tail st' then nt' else min nt' (st_tail st' + int len - bytedelay st')) \<and>
      (t = st_tail st' \<or> st_tail st' + int len \<le> t) \<and> st_tail st' \<le> t \<and> t \<le> ?h \<and> ?h - t < int len \<and>
      concat out = take (nat (t - st_tail st')) (drop (nat (st_tail st' - (maxd - bytedelay st'))) s)"
      by (rule less.hyps) (use less.prems True len st' in auto)
    then obtain out t where p: "push_loop q ?h maxd len st' nt' =
        Some (out, st'\<lparr>st_tail := t\<rparr>, if t = st_tail st' then nt' else min nt' (st_tail st' + int len - bytedelay st'))"
      and t: "st_tail st' \<le> t" "t \<le> ?h" "?h - t < int len"
      and o: "concat out = take (nat (t - st_tail st')) (drop (a + len) s)"
      unfolding a' by blast
    have m: "nat ((?t - ?g) mod int (length q)) = a mod length q" unfolding a by (simp flip: zmod_int)
    have e: "push_loop q ?h maxd len st nt = Some (ring_get q (a mod length q) len @ out, st\<lparr>st_tail := t\<rparr>, nt')"
      using True len qt qt0 p m st' t(1)
      by (subst push_loop.simps) (auto simp: st'_def nt'_def Let_def)
    have g: "concat (ring_get q (a mod length q) len) = take len (drop a s)"
      using less.prems True a len by (intro ring_get_ok [OF r]) linarith+
    have "nat (t - ?t) = len + nat (t - st_tail st')" using t st' by simp
    then have "concat (ring_get q (a mod length q) len @ out) = take (nat (t - ?t)) (drop a s)"
      by (simp add: g o take_add add.commute)
    then show ?thesis
      using e t st' len
      by (intro exI [of _ "ring_get q (a mod length q) len @ out"] exI [of _ t]) (auto simp: nt'_def a)
  qed
qed

lemma push_loop_inv:
  assumes i: "sp_inv b w maxd s r st" and x: "length x \<le> w" and ring: "ring_ok q (s @ x)"
    and b: "0 < b" and cap: "int w + int b + maxd \<le> int (length q)"
  shows "\<exists>out st' nt'. push_loop q (int (length (s @ x))) maxd b st nt = Some (out, st', nt') \<and>
    sp_inv b w maxd (s @ x) (r @ concat out) st' \<and> bytedelay st' = bytedelay st \<and>
    (nt' = nt \<and> (bytedelay st = maxd \<longrightarrow> st' = st) \<or>
     (\<exists>v. nt' = min nt v \<and> int (length s) - maxd < v \<and> v \<le> int (length (s @ x))))"
proof (cases "st_tail st < maxd - bytedelay st")
  case True
  have r: "r = []" "st_tail st = int (length s)" "0 \<le> bytedelay st" "0 \<le> st_tail st"
    using i True by (auto simp: sp_inv_def Let_def)
  have w: "push_loop q (int (length (s @ x))) maxd b st nt = Some ([], st\<lparr>st_tail := int (length (s @ x))\<rparr>, nt)"
    using True r cap b by (intro push_loop_waits) auto
  let ?h = "int (length (s @ x))" and ?g = "maxd - bytedelay st"
  have "sp_inv b w maxd (s @ x) [] (st\<lparr>st_tail := ?h\<rparr>)"
  proof (cases "?h < ?g")
    case False
    then have "int (nat (?h - ?g)) \<le> ?h - ?g" "nat (?h - ?g) < w"
      using True r x by (auto simp: nat_less_iff)
    then show ?thesis using False True r b by (auto simp: sp_inv_def Let_def intro!: exI [of _ "nat (?h - ?g)"])
  qed (use True r b in \<open>auto simp: sp_inv_def Let_def\<close>)
  then show ?thesis using w r True by (auto simp: )
next
  case False
  let ?g = "maxd - bytedelay st" and ?t = "st_tail st" and ?h = "int (length (s @ x))"
  have g: "0 \<le> bytedelay st" "0 \<le> ?g" "?g \<le> ?t" "?t \<le> int (length s)" "int (length s) - ?t < int b"
    using i False by (auto simp: sp_inv_def Let_def)
  obtain p where p: "int p \<le> ?t - ?g" "if ?g = 0 then p = 0 else p < w" "r = take (nat (?t - ?g) - p) (drop p s)"
    using i False by (auto simp: sp_inv_def Let_def)
  obtain out t where o: "push_loop q ?h maxd b st nt =
      Some (out, st\<lparr>st_tail := t\<rparr>, if t = ?t then nt else min nt (?t + int b - bytedelay st))"
    and t: "t = ?t \<or> ?t + int b \<le> t" "?t \<le> t" "t \<le> ?h" "?h - t < int b"
    and c: "concat out = take (nat (t - ?t)) (drop (nat (?t - ?g)) (s @ x))"
    using push_loop_ok [OF ring b, of maxd st nt] g cap x by auto
  have "r @ concat out = take (nat (t - ?g) - p) (drop p (s @ x))"
  proof -
    define y where "y = s @ x"
    have "r = take (nat (?t - ?g) - p) (drop p y)"
      using p(1) g unfolding p(3) y_def by (simp add: drop_append)
    moreover have "concat out = take (nat (t - ?t)) (drop (nat (?t - ?g) - p) (drop p y))"
      using c p(1) unfolding y_def [symmetric] by simp
    moreover have "nat (t - ?g) - p = nat (?t - ?g) - p + nat (t - ?t)" using t p(1) by simp
    ultimately show ?thesis unfolding y_def [symmetric] by (simp add: take_add)
  qed
  then have "sp_inv b w maxd (s @ x) (r @ concat out) (st\<lparr>st_tail := t\<rparr>)"
    using g t p(1,2) by (auto simp: sp_inv_def Let_def intro!: exI [of _ p])
  then show ?thesis
    using o g t
    by (intro exI [of _ out] exI [of _ "st\<lparr>st_tail := t\<rparr>"]) (auto intro!: exI [of _ "?t + int b - bytedelay st"])
qed

lemma received_append: "received k (xs @ ys) = received k xs @ received k ys"
  by (simp add: received_def)

lemma received_wrote: "received k (map (\<lambda>b. (j, Wrote b)) out) = (if j = k then concat out else [])"
  by (induction out) (auto simp: received_def)

lemma bytedelay_settle [simp]: "bytedelay (settle p st) = bytedelay st"
  by (simp add: settle_def)

lemma push_each_inv:
  assumes "length x \<le> w" and "ring_ok (queue m) (s @ x)" and "0 < b"
    and "int w + int b + maxbytedelay m \<le> int (length (queue m))" and "head m = int (length (s @ x))"
    and max: "int (length (s @ x)) < LONG_MAX"
    and "distinct (map fst ss)" and "\<forall>k \<in> set (map fst ss). getBufferSize e k = b"
    and "\<forall>(k, st) \<in> set ss. sp_inv b w (maxbytedelay m) s (R k) (settle (ml_tail m) st)"
    and "nt = LONG_MAX \<or> past_ok s x (maxbytedelay m) nt"
  shows "\<exists>ss' cs nt'. push_each e m ss nt = Some (ss', cs, nt') \<and> map fst ss' = map fst ss \<and>
    (\<forall>(k, st) \<in> set ss'. sp_inv b w (maxbytedelay m) (s @ x) (R k @ received k cs) st) \<and>
    (\<forall>k. k \<notin> set (map fst ss) \<longrightarrow> received k cs = []) \<and>
    (\<forall>(k, st) \<in> set ss. \<exists>st'. (k, st') \<in> set ss' \<and> bytedelay st' = bytedelay st) \<and>
    (nt' = nt \<and> (\<forall>(k, st) \<in> set ss. bytedelay st = maxbytedelay m \<longrightarrow> (k, settle (ml_tail m) st) \<in> set ss') \<or>
     past_ok s x (maxbytedelay m) nt')"
  using assms(7-)
proof (induction ss arbitrary: nt)
  case Nil
  then show ?case by (simp add: received_def)
next
  case (Cons a ss)
  obtain k st where a: "a = (k, st)" by force
  obtain out st1 nt1 where p: "push_loop (queue m) (head m) (maxbytedelay m) b (settle (ml_tail m) st) nt = Some (out, st1, nt1)"
    and i: "sp_inv b w (maxbytedelay m) (s @ x) (R k @ concat out) st1" "bytedelay st1 = bytedelay st"
    and n: "nt1 = nt \<and> (bytedelay st = maxbytedelay m \<longrightarrow> st1 = settle (ml_tail m) st) \<or>
      (\<exists>v. nt1 = min nt v \<and> int (length s) - maxbytedelay m < v \<and> v \<le> int (length (s @ x)))"
    using push_loop_inv [OF _ assms(1-4), of "R k" "settle (ml_tail m) st" nt] Cons.prems(3) assms(5) by (auto simp: a)
  have n': "nt1 = nt \<and> (bytedelay st = maxbytedelay m \<longrightarrow> st1 = settle (ml_tail m) st) \<or> past_ok s x (maxbytedelay m) nt1"
    using n Cons.prems(4) max unfolding past_ok_def by (auto simp: min_def split: if_splits)
  then have g: "nt1 = LONG_MAX \<or> past_ok s x (maxbytedelay m) nt1" using Cons.prems(4) by blast
  obtain ss' cs nt' where r: "push_each e m ss nt1 = Some (ss', cs, nt')" "map fst ss' = map fst ss"
    and j: "\<forall>(k, st) \<in> set ss'. sp_inv b w (maxbytedelay m) (s @ x) (R k @ received k cs) st"
    and o: "\<forall>k. k \<notin> set (map fst ss) \<longrightarrow> received k cs = []"
    and d: "\<forall>(k, st) \<in> set ss. \<exists>st'. (k, st') \<in> set ss' \<and> bytedelay st' = bytedelay st"
    and t: "nt' = nt1 \<and> (\<forall>(k, st) \<in> set ss. bytedelay st = maxbytedelay m \<longrightarrow> (k, settle (ml_tail m) st) \<in> set ss') \<or>
      past_ok s x (maxbytedelay m) nt'"
    using Cons.IH [OF _ _ _ g] Cons.prems by (auto simp: a)
  have k: "k \<notin> set (map fst ss)" using Cons.prems(1) by (simp add: a)
  have e: "push_each e m (a # ss) nt = Some ((k, st1) # ss', map (\<lambda>b. (k, Wrote b)) out @ cs, nt')"
    using p r Cons.prems(2) by (simp add: a)
  have l: "l \<noteq> k" if "(l, st) \<in> set ss'" for l st
    using that k unfolding r(2) [symmetric] by force
  have "\<forall>(l, st) \<in> set ((k, st1) # ss'). sp_inv b w (maxbytedelay m) (s @ x)
      (R l @ received l (map (\<lambda>b. (k, Wrote b)) out @ cs)) st"
    using i k o by (auto simp: received_append received_wrote dest: l j [rule_format])
  then show ?case
    unfolding e using r(2) o d i(2) n' t
    by (simp add: a received_append received_wrote) blast
qed

lemma settle_id: "0 \<le> st_tail st \<Longrightarrow> settle p st = st"
  by (simp add: settle_def LONG_MIN_def)

lemma sp_inv_tail: "sp_inv b w maxd s r st \<Longrightarrow> 0 \<le> st_tail st \<and> st_tail st \<le> int (length s) \<and> int (length s) - st_tail st < int b"
  by (auto simp: sp_inv_def Let_def)

lemma update_simps [simp]:
  "head (update m) = head m" "queue (update m) = queue m" "calls (update m) = calls m" "ml_tail (update m) = ml_tail m"
  "line_speakers (update m) = line_speakers m" "maxbytedelay (update m) = maxbytedelay m"
  by (simp_all add: update_def)

lemma push_line_inv:
  assumes i: "line_inv b w n s m" and x: "length x \<le> w" and ring: "ring_ok q (s @ x)" and b: "0 < b"
    and cap: "int w + int b + maxbytedelay m \<le> int (length q)" and max: "int (length (s @ x)) < LONG_MAX"
    and size: "\<forall>k \<in> set (getSpeakers m). getBufferSize e k = b"
  shows "\<exists>m'. push e (m\<lparr>queue := q, head := int (length (s @ x))\<rparr>) = Some m' \<and> line_inv b w n (s @ x) m' \<and>
    queue m' = q \<and> maxbytedelay m' = maxbytedelay m \<and> getSpeakers m' = getSpeakers m \<and>
    (\<forall>(k, st) \<in> set (line_speakers m). \<exists>st'. (k, st') \<in> set (line_speakers m') \<and> bytedelay st' = bytedelay st)"
proof -
  let ?m = "m\<lparr>queue := q, head := int (length (s @ x))\<rparr>" and ?d = "maxbytedelay m"
  have sp: "\<forall>(k, st) \<in> set (line_speakers m). sp_inv b w ?d s (received k (drop n (calls m))) (settle (ml_tail m) st)"
    and n: "n \<le> length (calls m)" and dis: "distinct (map fst (line_speakers m))"
    and tl: "ml_tail m \<le> int (length (s @ x))"
    using i by (auto simp: line_inv_def getSpeakers_def)
  obtain k st where lead: "(k, st) \<in> set (line_speakers m)" "bytedelay st = ?d"
      "st_tail (settle (ml_tail m) st) - ml_tail m \<le> int w + ?d"
    using i by (auto simp: line_inv_def)
  obtain ss' cs nt' where p: "push_each e ?m (line_speakers m) LONG_MAX = Some (ss', cs, nt')"
      "map fst ss' = map fst (line_speakers m)"
    and i': "\<forall>(k, st) \<in> set ss'. sp_inv b w ?d (s @ x) (received k (drop n (calls m)) @ received k cs) st"
    and d: "\<forall>(k, st) \<in> set (line_speakers m). \<exists>st'. (k, st') \<in> set ss' \<and> bytedelay st' = bytedelay st"
    and t: "nt' = LONG_MAX \<and> (\<forall>(k, st) \<in> set (line_speakers m). bytedelay st = ?d \<longrightarrow> (k, settle (ml_tail m) st) \<in> set ss') \<or>
      past_ok s x ?d nt'"
    using push_each_inv [of x w ?m s b "line_speakers m" e "\<lambda>k. received k (drop n (calls m))" LONG_MAX]
      x ring b cap max dis size sp by (auto simp: getSpeakers_def)
  define m' where "m' = update (if nt' \<noteq> LONG_MAX then call cs (?m\<lparr>line_speakers := ss'\<rparr>)\<lparr>ml_tail := nt'\<rparr>
    else call cs (?m\<lparr>line_speakers := ss'\<rparr>))"
  have m': "head m' = int (length (s @ x))" "queue m' = q" "calls m' = calls m @ cs" "line_speakers m' = ss'"
    "maxbytedelay m' = ?d" "ml_tail m' = (if nt' = LONG_MAX then ml_tail m else nt')"
    by (auto simp: m'_def call_def)
  have set: "settle v st = st" "st_tail st \<le> int (length (s @ x))" if "(k, st) \<in> set ss'" for v k st
    using sp_inv_tail i' that by (fastforce intro: settle_id)+
  have tl': "ml_tail m' \<le> int (length (s @ x)) \<and> (\<exists>(k, st) \<in> set ss'. bytedelay st = ?d \<and> st_tail st - ml_tail m' \<le> int w + ?d)"
  proof (cases "nt' = LONG_MAX")
    case True
    then have "(k, settle (ml_tail m) st) \<in> set ss'" using t lead max by (auto simp: past_ok_def)
    then show ?thesis using True lead tl m'(6) by (auto intro!: bexI [of _ "(k, settle (ml_tail m) st)"])
  next
    case False
    obtain st' where st': "(k, st') \<in> set ss'" "bytedelay st' = ?d" using d lead by force
    have "past_ok s x ?d nt'" using t False by blast
    then show ?thesis using False st' set(2) [OF st'(1)] x m'(6) by (auto simp: past_ok_def intro!: bexI [of _ "(k, st')"])
  qed
  then obtain l st2 where l: "(l, st2) \<in> set ss'" "bytedelay st2 = ?d" "st_tail st2 - ml_tail m' \<le> int w + ?d"
    by auto
  have "line_inv b w n (s @ x) m'"
    using i' set n dis p(2) ring tl' l unfolding line_inv_def m' getSpeakers_def
    by (auto simp: received_append intro!: bexI [OF _ l(1)])
  moreover have "push e ?m = Some m'"
    using p(1) by (simp add: push_def m'_def Let_def)
  ultimately show ?thesis using m' p(2) d by (auto simp: getSpeakers_def)
qed

lemma settle_start: "st_tail st = LONG_MIN \<or> st_tail st = 0 \<Longrightarrow> 0 \<le> bytedelay st \<Longrightarrow> st_tail (settle 0 st) = 0"
  by (auto simp: settle_def)

lemma line_ready_inv:
  assumes r: "line_ready b w m"
  shows "line_inv b w (length (calls m)) [] m"
proof -
  have s: "st_tail (settle 0 st) = 0" "0 \<le> bytedelay st" "bytedelay st \<le> maxbytedelay m"
    if "(k, st) \<in> set (line_speakers m)" for k st
    using r that by (fastforce simp: line_ready_def list_all_iff intro: settle_start)+
  have "sp_inv b w (maxbytedelay m) [] [] (settle 0 st)" if "(k, st) \<in> set (line_speakers m)" for k st
    using s [OF that] r by (auto simp: sp_inv_def Let_def line_ready_def)
  moreover obtain k st where "(k, st) \<in> set (line_speakers m)" "bytedelay st = maxbytedelay m"
    using r by (auto simp: line_ready_def list_ex_iff)
  moreover have "0 \<le> maxbytedelay m" "queue m \<noteq> []"
    using s [OF calculation(2)] r by (auto simp: line_ready_def)
  ultimately show ?thesis
    using r s by (auto simp: line_inv_def line_ready_def received_def ring_ok_def intro!: bexI [of _ "(k, st)"])
qed

lemma int_of_long_small: "0 \<le> x \<Longrightarrow> x < 2147483648 \<Longrightarrow> int_of_long x = x"
  by (simp add: int_of_long_def signed_of_int signed_take_bit_int_eq_self)

lemma isValid_well: "speakers_well b e m \<Longrightarrow> getSpeakers m \<noteq> [] \<Longrightarrow> isValid e m = (True, m)"
  by (cases "getSpeakers m") (auto simp: isValid_def speakers_well_def)

lemma write_line_inv:
  assumes i: "line_inv b w n s m" and len: "off + len \<le> length buf" "len \<le> w" and b: "0 < b"
    and cap: "2 * int w + int b + maxbytedelay m \<le> int (length (queue m))" "length (queue m) \<le> INT_MAX"
    and max: "int (length s + len) < LONG_MAX" and well: "speakers_well b e m"
  shows "\<exists>m'. write_line e buf off len m = Some m' \<and> line_inv b w n (s @ take len (drop off buf)) m' \<and>
    length (queue m') = length (queue m) \<and> maxbytedelay m' = maxbytedelay m \<and> getSpeakers m' = getSpeakers m \<and>
    (\<forall>(k, st) \<in> set (line_speakers m). \<exists>st'. (k, st') \<in> set (line_speakers m') \<and> bytedelay st' = bytedelay st)"
proof -
  let ?x = "take len (drop off buf)"
  have h: "head m = int (length s)" "ring_ok (queue m) s" "ml_tail m \<le> head m" using i by (auto simp: line_inv_def)
  obtain k st where lead: "(k, st) \<in> set (line_speakers m)" "bytedelay st = maxbytedelay m"
      "st_tail (settle (ml_tail m) st) - ml_tail m \<le> int w + maxbytedelay m"
      "sp_inv b w (maxbytedelay m) s (received k (drop n (calls m))) (settle (ml_tail m) st)"
    using i by (fastforce simp: line_inv_def)
  have gap: "head m - ml_tail m < int w + maxbytedelay m + int b" "0 \<le> maxbytedelay m"
    using lead sp_inv_tail [OF lead(4)] h by (auto simp: sp_inv_def Let_def)
  have L: "len \<le> length (queue m)" using cap(1) len(2) gap(2) by linarith
  obtain q where q: "ring_put buf off len (length s mod length (queue m)) (queue m) = Some q"
      "length q = length (queue m)" "ring_ok q (s @ ?x)"
    using ring_put_ok [OF h(2) len(1) L] by blast
  have "getSpeakers m \<noteq> []" using lead(1) by (auto simp: getSpeakers_def)
  then have v: "isValid e m = (True, m)" using well by (rule isValid_well [rotated])
  have a: "int_of_long (head m - ml_tail m) = head m - ml_tail m"
    using gap cap h(3) by (intro int_of_long_small) (auto simp: INT_MAX_def)
  have qh: "nat (head m smod int (length (queue m))) = length s mod length (queue m)"
    using h(2) by (simp add: h(1) ring_ok_def smod_nonneg flip: zmod_int)
  have x: "length ?x = len" "int (length (s @ ?x)) = head m + int len" using len(1) h(1) by simp_all
  have "write_line e buf off len m = push e (m\<lparr>queue := q, head := int (length (s @ ?x))\<rparr>)"
    unfolding x(2) using v a gap cap len(2) q(1) by (simp add: write_line_def qh)
  moreover have "\<forall>k \<in> set (getSpeakers m). getBufferSize e k = b"
    using well by (simp add: speakers_well_def list_all_iff)
  ultimately show ?thesis
    using push_line_inv [OF i _ q(3) b, of e] cap(1) len q(2) max x by auto
qed

lemma line_writes_inv:
  assumes "line_inv b w n s m" and "writes_ok w ws" and "0 < b"
    and "2 * int w + int b + maxbytedelay m \<le> int (length (queue m))" and "length (queue m) \<le> INT_MAX"
    and "int (length s + length (stream_of ws)) < LONG_MAX" and "speakers_well b e m"
  shows "\<exists>m'. line_writes e ws m = Some m' \<and> line_inv b w n (s @ stream_of ws) m' \<and> maxbytedelay m' = maxbytedelay m \<and>
    (\<forall>(k, st) \<in> set (line_speakers m). \<exists>st'. (k, st') \<in> set (line_speakers m') \<and> bytedelay st' = bytedelay st)"
  using assms
proof (induction ws arbitrary: m s)
  case Nil
  then show ?case by (auto simp: stream_of_def)
next
  case (Cons a ws)
  obtain buf off len where a: "a = (buf, off, len)" by (cases a) auto
  let ?x = "take len (drop off buf)"
  have w: "off + len \<le> length buf" "len \<le> w" "writes_ok w ws" "stream_of (a # ws) = ?x @ stream_of ws"
    using Cons.prems(2) by (auto simp: writes_ok_def stream_of_def a)
  then have x: "length ?x = len" by simp
  obtain m1 where m1: "write_line e buf off len m = Some m1" "line_inv b w n (s @ ?x) m1"
      "length (queue m1) = length (queue m)" "maxbytedelay m1 = maxbytedelay m" "getSpeakers m1 = getSpeakers m"
      "\<forall>(k, st) \<in> set (line_speakers m). \<exists>st'. (k, st') \<in> set (line_speakers m1) \<and> bytedelay st' = bytedelay st"
    using write_line_inv [OF Cons.prems(1) w(1,2) Cons.prems(3-5) _ Cons.prems(7)] Cons.prems(6) w(4) x by auto
  obtain m' where "line_writes e ws m1 = Some m'" "line_inv b w n ((s @ ?x) @ stream_of ws) m'" "maxbytedelay m' = maxbytedelay m1"
      "\<forall>(k, st) \<in> set (line_speakers m1). \<exists>st'. (k, st') \<in> set (line_speakers m') \<and> bytedelay st' = bytedelay st"
    using Cons.IH [OF m1(2) w(3) Cons.prems(3)] Cons.prems(4-7) m1(3-5) w(4) by (auto simp: speakers_well_def)
  then show ?case
    using m1 w(4) by (simp add: a) (fastforce dest: bspec)
qed

lemma sp_inv_heard:
  assumes "sp_inv b w maxd s r st"
  shows "\<exists>p n. (if bytedelay st = maxd then p = 0 else p \<le> w) \<and> p + n \<le> length s \<and> r = take n (drop p s) \<and>
    int (length s) < int (p + n) + int b + (maxd - bytedelay st)"
proof (cases "st_tail st < maxd - bytedelay st")
  case True
  then show ?thesis using assms by (auto simp: sp_inv_def Let_def intro!: exI [of _ 0])
next
  case False
  let ?g = "maxd - bytedelay st" and ?t = "st_tail st"
  obtain p where p: "int p \<le> ?t - ?g" "if ?g = 0 then p = 0 else p < w" "r = take (nat (?t - ?g) - p) (drop p s)"
    using assms False by (auto simp: sp_inv_def Let_def)
  then have "(if bytedelay st = maxd then p = 0 else p \<le> w)" "int (p + (nat (?t - ?g) - p)) = ?t - ?g"
    by (auto split: if_splits)
  then show ?thesis
    using p assms by (intro exI [of _ p] exI [of _ "nat (?t - ?g) - p"]) (auto simp: sp_inv_def Let_def)
qed

text \<open>What is written to a line that is ready is heard by every speaker, in order and without gaps.\<close>

lemma line_streams:
  assumes ready: "line_ready b w m" and ok: "writes_ok w ws" and well: "speakers_well b e m"
    and max: "int (length (stream_of ws)) < LONG_MAX"
  shows "\<exists>m'. line_writes e ws m = Some m' \<and> (\<forall>(k, st) \<in> set (line_speakers m). \<exists>p n.
    (if bytedelay st = maxbytedelay m then p = 0 else p \<le> w) \<and> p + n \<le> length (stream_of ws) \<and>
    received k (drop (length (calls m)) (calls m')) = take n (drop p (stream_of ws)) \<and>
    int (length (stream_of ws)) < int (p + n) + int b + (maxbytedelay m - bytedelay st))"
proof -
  obtain m' where w: "line_writes e ws m = Some m'" and i: "line_inv b w (length (calls m)) (stream_of ws) m'"
    and d: "maxbytedelay m' = maxbytedelay m"
      "\<forall>(k, st) \<in> set (line_speakers m). \<exists>st'. (k, st') \<in> set (line_speakers m') \<and> bytedelay st' = bytedelay st"
    using line_writes_inv [OF line_ready_inv [OF ready] ok _ _ _ _ well] ready max by (auto simp: line_ready_def)
  have "\<exists>p n. (if bytedelay st = maxbytedelay m then p = 0 else p \<le> w) \<and> p + n \<le> length (stream_of ws) \<and>
    received k (drop (length (calls m)) (calls m')) = take n (drop p (stream_of ws)) \<and>
    int (length (stream_of ws)) < int (p + n) + int b + (maxbytedelay m - bytedelay st)"
    if st: "(k, st) \<in> set (line_speakers m)" for k st
  proof -
    obtain st' where st': "(k, st') \<in> set (line_speakers m')" "bytedelay st' = bytedelay st" using d(2) st by fastforce
    have "sp_inv b w (maxbytedelay m) (stream_of ws) (received k (drop (length (calls m)) (calls m'))) (settle (ml_tail m') st')"
      using i st'(1) d(1) by (auto simp: line_inv_def)
    from sp_inv_heard [OF this] show ?thesis using st'(2) by simp
  qed
  with w show ?thesis by blast
qed

end
