(* ===== verification/JavaPlayer.thy ===== *)
theory JavaPlayer
  imports MultiLine "HOL-Library.AList"
begin

text \<open>
  The player of the Java side, \<^verbatim>\<open>src/src/com/nixus/raop/player/PlayerImpl.java\<close>, with its line.  The thread that plays is a
  step function: each step is one pass of the inner loop, or one test of the outer one.  What the file gives
  to a pass is an argument, as is the environment of the speakers; the operations other threads call are
  functions of the state.
\<close>

datatype player_phase = Outer | Inner | Ended

record player =
  stopped :: bool
  cancelled :: bool
  pl_volume :: int
  revision :: int
  streamoffset :: int
  pl_line :: multiline
  volume_prop :: "jstring option"
  speaker_props :: "(nat \<times> nat) list"    \<comment> \<open>the properties speaker.1, speaker.2, ...; a speaker stands for its name\<close>
  pl_events :: "string list"
  phase :: player_phase

definition BUFSIZE :: nat where
  "BUFSIZE = 4096"

definition fire :: "string \<Rightarrow> player \<Rightarrow> player" where
  "fire ev p = p\<lparr>pl_events := pl_events p @ [ev]\<rparr>"

definition notifyPlayChanged :: "player \<Rightarrow> player" where
  "notifyPlayChanged p = fire ''playChange'' (p\<lparr>revision := revision p + 1\<rparr>)"

definition notifyStateChanged :: "player \<Rightarrow> player" where
  "notifyStateChanged p = fire ''stateChange'' (p\<lparr>revision := revision p + 1\<rparr>)"

definition pl_setVolume :: "speaker_env \<Rightarrow> int \<Rightarrow> player \<Rightarrow> player" where
  "pl_setVolume e v p =
     (let v = max 0 (min 100 v);
          p = p\<lparr>pl_line := line_setVolume e v (pl_line p)\<rparr>
      in if v \<noteq> pl_volume p then notifyStateChanged (p\<lparr>pl_volume := v, volume_prop := Some (toString v)\<rparr>) else p)"

subsection \<open>Other threads\<close>

definition pl_interrupt :: "player \<Rightarrow> player" where
  "pl_interrupt p = p\<lparr>stopped := True, cancelled := True\<rparr>"

definition pl_stop :: "player \<Rightarrow> player" where
  "pl_stop p = p\<lparr>stopped := True\<rparr>"

definition play :: "player \<Rightarrow> player" where
  "play p = p\<lparr>cancelled := False, stopped := False\<rparr>"

definition setEnabled :: "bool \<Rightarrow> player \<Rightarrow> player" where
  "setEnabled enabled p = p\<lparr>stopped := \<not> enabled\<rparr>"

definition isEnabled :: "player \<Rightarrow> bool" where
  "isEnabled p \<longleftrightarrow> \<not> stopped p"

text \<open>Up to the \<open>join\<close>, which waits for the thread to end.\<close>

definition stopService :: "player \<Rightarrow> player" where
  "stopService p = p\<lparr>cancelled := True\<rparr>"

function clear_from :: "nat \<Rightarrow> (nat \<times> nat) list \<Rightarrow> (nat \<times> nat) list" where
  "clear_from j ps = (if map_of ps j = None then ps else clear_from (Suc j) (AList.delete j ps))"
  by pat_completeness auto

termination
  by (relation "measure (\<lambda>(j, ps). length ps)") (auto simp: AList.delete_eq intro!: length_filter_less dest: map_of_SomeD)

declare clear_from.simps [simp del]

definition updateSpeakerProperties :: "player \<Rightarrow> player" where
  "updateSpeakerProperties p =
     (let ks = getSpeakers (pl_line p);
          ps = fold (\<lambda>(j, k). AList.update j k) (zip [1..<Suc (length ks)] ks) (speaker_props p)
      in notifyStateChanged (p\<lparr>speaker_props := clear_from (Suc (length ks)) ps\<rparr>))"

text \<open>The collection is a list, to which one can always add.\<close>

definition addSpeaker :: "speaker_env \<Rightarrow> nat \<Rightarrow> player \<Rightarrow> player" where
  "addSpeaker e k p = updateSpeakerProperties
     (p\<lparr>pl_line := snd (setSpeakers e (getSpeakers (pl_line p) @ [k]) (pl_line p))\<rparr>)"

definition removeSpeaker :: "speaker_env \<Rightarrow> nat \<Rightarrow> player \<Rightarrow> player" where
  "removeSpeaker e k p = (let ks = getSpeakers (pl_line p) in
     if k \<in> set ks then updateSpeakerProperties (p\<lparr>pl_line := snd (setSpeakers e (remove1 k ks) (pl_line p))\<rparr>) else p)"

text \<open>The start, up to that of the thread.  The names of pending speakers are an empty list, so that nothing is done with
  them here or later.\<close>

definition startService :: "player \<Rightarrow> player" where
  "startService p = p\<lparr>cancelled := False,
     pl_volume := (case Option.bind (volume_prop p) (parseInt 10) of None \<Rightarrow> 50 | Some v \<Rightarrow> v)\<rparr>"

text \<open>An event of a speaker of this player.\<close>

definition handleEvent :: "string \<Rightarrow> player \<Rightarrow> player" where
  "handleEvent ev p = (if ev = ''speakerError'' then fire ''error'' (pl_stop p) else p)"

subsection \<open>The thread that plays\<close>

text \<open>\<open>bs\<close> is what \<open>read\<close> puts into the buffer, \<open>None\<close> the end of the file.  The result \<open>None\<close> is an exception.\<close>

definition player_pass :: "speaker_env \<Rightarrow> bytes option \<Rightarrow> player \<Rightarrow> player option" where
  "player_pass e bs p =
     (let p = pl_setVolume e (pl_volume p) p in
      if \<not> hasSpeakers (pl_line p) then Some (fire ''error'' (p\<lparr>cancelled := True\<rparr>))
      else case bs of
          Some bs \<Rightarrow> map_option (\<lambda>m. p\<lparr>streamoffset := streamoffset p + int (length bs), pl_line := m\<rparr>)
                       (write_line e bs 0 (length bs) (pl_line p))
        | None \<Rightarrow> Some (fire ''stopPlaying'' p))"

text \<open>The end of the thread after an exception, and after the loops.\<close>

definition play_failed :: "speaker_env \<Rightarrow> player \<Rightarrow> player" where
  "play_failed e p = (if line_isOpen (pl_line p) then p\<lparr>pl_line := close_line (flush_line e (pl_line p)), phase := Ended\<rparr>
     else p\<lparr>phase := Ended\<rparr>)"

definition play_done :: "speaker_env \<Rightarrow> player \<Rightarrow> player option" where
  "play_done e p = (if line_isOpen (pl_line p)
     then map_option (\<lambda>m. p\<lparr>pl_line := close_line m, phase := Ended\<rparr>) (drain_line e (pl_line p))
     else Some (p\<lparr>phase := Ended\<rparr>))"

text \<open>The start of the thread; a file that is not there is an exception.\<close>

definition play_start :: "speaker_env \<Rightarrow> bool \<Rightarrow> player \<Rightarrow> player" where
  "play_start e found p =
     (let p = fire ''started'' p in
      if found then p\<lparr>streamoffset := 0, pl_line := open_line e 44100 16 2 True False (pl_line p), phase := Outer\<rparr>
      else play_failed e p)"

definition player_step :: "speaker_env \<Rightarrow> bytes option \<Rightarrow> player \<Rightarrow> player option" where
  "player_step e bs p = (case phase p of
       Outer \<Rightarrow> if cancelled p then play_done e p else Some (p\<lparr>phase := Inner\<rparr>)
     | Inner \<Rightarrow> if stopped p then Some (p\<lparr>phase := Outer\<rparr>)
         else (case player_pass e bs p of None \<Rightarrow> Some (play_failed e p) | Some p \<Rightarrow> Some p)
     | Ended \<Rightarrow> Some p)"

subsection \<open>What is proved\<close>

text \<open>A line whose speakers are set before it is opened.\<close>

definition opened :: "speaker_env \<Rightarrow> nat list \<Rightarrow> multiline" where
  "opened e ks = open_line e 44100 16 2 True False (snd (setSpeakers e ks new_line))"

text \<open>Speakers of the class \<open>SpeakerImpl\<close> that work, with delays that the ring has room for.\<close>

definition speakers_fit :: "speaker_env \<Rightarrow> nat list \<Rightarrow> bool" where
  "speakers_fit e ks \<longleftrightarrow> list_all (\<lambda>k. getBufferSize e k = 1408 \<and> \<not> getError e k \<and> 0 \<le> getDelay e k \<and> getDelay e k \<le> 3900) ks"

definition delay_of :: "speaker_env \<Rightarrow> nat \<Rightarrow> int" where
  "delay_of e k = getDelay e k * 176400 div 1000 div 1408 * 1408"

text \<open>The pieces one speaker was given.\<close>

definition pieces :: "nat \<Rightarrow> (nat \<times> speaker_call) list \<Rightarrow> bytes list" where
  "pieces k cs = concat (map (\<lambda>(j, c). case c of Wrote b \<Rightarrow> if j = k then [b] else [] | _ \<Rightarrow> []) cs)"

fun run_player :: "speaker_env \<Rightarrow> bytes option list \<Rightarrow> player \<Rightarrow> player option" where
  "run_player e [] p = Some p"
| "run_player e (bs # bss) p = Option.bind (player_step e bs p) (run_player e bss)"

text \<open>Buffers that are not empty and fit into the ring.\<close>

definition sizes_ok :: "speaker_env \<Rightarrow> multiline \<Rightarrow> bool" where
  "sizes_ok e m \<longleftrightarrow> list_all (\<lambda>k. 0 < getBufferSize e k \<and> getBufferSize e k \<le> length (queue m)) (getSpeakers m)"

lemma sdiv_nonneg: "0 \<le> a \<Longrightarrow> 0 \<le> b \<Longrightarrow> a sdiv b = a div (b :: int)"
  by (simp add: signed_divide_int_def sgn_if)

lemma openSpeaker_fit:
  assumes "speakers_fit e [k]" and "bytespersecond m = 176400"
  shows "\<exists>cs. openSpeaker e k m = (Some (delay_of e k), call cs m)"
proof -
  have d: "0 \<le> getDelay e k * 176400" "getDelay e k * 176400 < 2147483648" "getBufferSize e k = 1408" "\<not> getError e k"
    using assms(1) by (auto simp: speakers_fit_def)
  have "int_of_long (getDelay e k * 176400) sdiv 1000 sdiv 1408 * 1408 = delay_of e k"
    using d(1) by (simp add: int_of_long_small [OF d(1,2)] sdiv_nonneg delay_of_def pos_imp_zdiv_nonneg_iff)
  then show ?thesis
    using d(3,4) assms(2) unfolding openSpeaker_def 
    by (intro exI [of _ "[(k, Open_sp (sampleRate m) (bitsPerChannel m) (channels m) (is_signed m) (big_endian m)),
      (k, Gain_sp (speaker_volume e k (ml_volume m)))]"]) (simp add: Let_def call_def)
qed

lemma delay_of_bounds: "speakers_fit e [k] \<Longrightarrow> 0 \<le> delay_of e k \<and> delay_of e k \<le> 687960"
proof -
  assume "speakers_fit e [k]"
  then have d: "0 \<le> getDelay e k" "getDelay e k \<le> 3900" by (auto simp: speakers_fit_def)
  define x where "x = getDelay e k * 176400 div 1000"
  have "0 \<le> x" "x \<le> 687960" using d by (auto simp: x_def)
  moreover have "x div 1408 * 1408 \<le> x" by presburger
  ultimately show ?thesis by (simp add: delay_of_def x_def [symmetric])
qed

lemma open_each_fit:
  assumes "speakers_fit e ks" and "bytespersecond m = 176400"
  shows "\<exists>m' cs. open_each e (map (\<lambda>k. (k, new_state)) ks) m =
      (map (\<lambda>k. (k, new_state\<lparr>bytedelay := delay_of e k\<rparr>)) ks, m') \<and>
    m' = (call cs m)\<lparr>maxbytedelay := fold max (map (delay_of e) ks) (maxbytedelay m)\<rparr>"
  using assms
proof (induction ks arbitrary: m)
  case Nil
  then show ?case by (auto simp: call_def intro!: exI [of _ "[]"])
next
  case (Cons k ks)
  obtain cs where o: "openSpeaker e k m = (Some (delay_of e k), call cs m)"
    using openSpeaker_fit [of e k m] Cons.prems by (auto simp: speakers_fit_def)
  let ?m = "(call cs m)\<lparr>maxbytedelay := max (maxbytedelay m) (delay_of e k)\<rparr>"
  obtain m' cs' where r: "open_each e (map (\<lambda>k. (k, new_state)) ks) ?m =
      (map (\<lambda>k. (k, new_state\<lparr>bytedelay := delay_of e k\<rparr>)) ks, m')"
    "m' = (call cs' ?m)\<lparr>maxbytedelay := fold max (map (delay_of e) ks) (maxbytedelay ?m)\<rparr>"
    using Cons.IH [of ?m] Cons.prems by (auto simp: speakers_fit_def call_def)
  show ?case
    using o r by (auto simp: call_def max.commute intro!: exI [of _ "cs @ cs'"])
qed

lemma fold_max_bounds:
  "fold max xs a \<ge> (a :: int) \<and> (\<forall>x \<in> set xs. x \<le> fold max xs a) \<and> (fold max xs a = a \<or> fold max xs a \<in> set xs)"
  by (induction xs arbitrary: a) (auto simp: max_def split: if_splits, (meson dual_order.trans linear)+)

lemma set_new_line:
  assumes "ks \<noteq> []" and "distinct ks"
  shows "snd (setSpeakers e ks new_line) = new_line\<lparr>line_speakers := map (\<lambda>k. (k, new_state)) ks\<rparr>"
proof -
  have f: "fold (\<lambda>(k, st) x. max 0 (bytedelay st)) (map (\<lambda>k. (k, new_state)) xs) 0 = 0" for xs :: "nat list"
    by (induction xs) (auto simp: new_state_def)
  have "getSpeakers new_line = []" "maxbytedelay new_line = 0" "\<not> line_isOpen new_line" "line_speakers new_line = []" "calls new_line = []"
    by (auto simp: new_line_def getSpeakers_def line_isOpen_def)
  then show ?thesis
    using assms f by (simp add: setSpeakers_def distinct_remdups_id call_def)
qed

lemma opened_fit:
  assumes "ks \<noteq> []" and "distinct ks" and fit: "speakers_fit e ks"
  shows "line_speakers (opened e ks) = map (\<lambda>k. (k, new_state\<lparr>bytedelay := delay_of e k\<rparr>)) ks \<and>
    maxbytedelay (opened e ks) = fold max (map (delay_of e) ks) 0 \<and>
    head (opened e ks) = 0 \<and> ml_tail (opened e ks) = 0 \<and> queue (opened e ks) = replicate 704000 0"
proof -
  let ?m = "new_line\<lparr>line_speakers := map (\<lambda>k. (k, new_state)) ks, sampleRate := 44100, bitsPerChannel := 16, channels := 2,
    is_signed := True, big_endian := False, maxbytedelay := 0, bytespersecond := 176400\<rparr>"
  obtain cs where "open_each e (map (\<lambda>k. (k, new_state)) ks) ?m =
      (map (\<lambda>k. (k, new_state\<lparr>bytedelay := delay_of e k\<rparr>)) ks,
       (call cs ?m)\<lparr>maxbytedelay := fold max (map (delay_of e) ks) 0\<rparr>)"
    using open_each_fit [OF fit, of ?m] by auto
  then show ?thesis
    unfolding opened_def set_new_line [OF assms(1,2)] by (simp add: open_line_def call_def new_line_def)
qed

lemma opened_ready:
  assumes "ks \<noteq> []" and "distinct ks" and fit: "speakers_fit e ks"
  shows "line_ready 1408 BUFSIZE (opened e ks)"
proof -
  have d: "0 \<le> delay_of e k \<and> delay_of e k \<le> 687960" if "k \<in> set ks" for k
    using fit that by (intro delay_of_bounds) (auto simp: speakers_fit_def list_all_iff)
  define D where "D = fold max (map (delay_of e) ks) 0"
  note D = fold_max_bounds [of 0 "map (delay_of e) ks", folded D_def]
  have "D \<le> 687960" using D d by auto
  moreover have "\<exists>k \<in> set ks. delay_of e k = D" using D d assms(1) by (cases ks) force+
  ultimately show ?thesis
    using opened_fit [OF assms, folded D_def] D d assms(2)
    by (auto simp: line_ready_def getSpeakers_def list_all_iff list_ex_iff new_state_def BUFSIZE_def INT_MAX_def comp_def)
qed

lemma concat_pieces: "concat (pieces k cs) = received k cs"
  by (induction cs) (auto simp: pieces_def received_def split: speaker_call.splits)

lemma pieces_become_packets:
  assumes "hold_ok s" and "holdlen s = 0" and "write_each (map (\<lambda>b. (b, 0, length b)) (pieces k cs)) s = (ps, s')"
  shows "concat ps @ held s' = received k cs \<and> (\<forall>q \<in> set ps. length q = 1408)"
  using write_each_stream [OF assms(1) _ assms(3)] assms(2)
  by (auto simp: comp_def held_def simp flip: concat_pieces)


subsection \<open>The properties of the speakers\<close>

lemma clear_from_below: "i < j \<Longrightarrow> map_of (clear_from j ps) i = map_of ps i"
proof (induction j ps rule: clear_from.induct)
  case (1 j ps)
  then show ?case by (subst clear_from.simps) (auto simp: delete_conv')
qed

lemma clear_from_at: "map_of (clear_from j ps) j = None"
  by (subst clear_from.simps) (simp add: clear_from_below delete_conv')

text \<open>The properties name the speakers in their order, and the list of them ends there.\<close>

lemma updateSpeakerProperties_names:
  fixes p defines "ks \<equiv> getSpeakers (pl_line p)" and "ps \<equiv> speaker_props (updateSpeakerProperties p)"
  shows "i < length ks \<Longrightarrow> map_of ps (Suc i) = Some (ks ! i)" and "map_of ps (Suc (length ks)) = None"
proof -
  let ?js = "[1..<Suc (length ks)]"
  have ps: "ps = clear_from (Suc (length ks)) (AList.updates ?js ks (speaker_props p))"
    by (simp add: ps_def updateSpeakerProperties_def ks_def notifyStateChanged_def fire_def Let_def AList.updates_def case_prod_unfold)
  show "map_of ps (Suc (length ks)) = None" unfolding ps by (rule clear_from_at)
  assume i: "i < length ks"
  have z: "map_of (zip ?js ks) (?js ! i) = Some (ks ! i)" using i by (intro map_of_zip_nth) auto
  have "map_of (rev (zip ?js ks)) = map_of (zip ?js ks)"
    by (subst map_of_inject_set) (simp_all add: rev_map [symmetric] del: upt_Suc)
  then show "map_of ps (Suc i) = Some (ks ! i)"
    using z i unfolding ps by (simp add: clear_from_below updates_conv' map_upds_def map_add_def nth_upt del: upt_Suc)
qed

subsection \<open>The end of the player\<close>

lemma push_loop_some: "0 < len \<Longrightarrow> len \<le> length q \<Longrightarrow> \<exists>r. push_loop q h maxd len st nt = Some r"
proof (induction q h maxd len st nt rule: push_loop.induct)
  case (1 q h maxd len st nt)
  then show ?case by (subst push_loop.simps) (auto simp: Let_def; blast)
qed

lemma push_each_some:
  assumes "\<forall>k \<in> set (map fst ss). 0 < getBufferSize e k \<and> getBufferSize e k \<le> length (queue m)"
  shows "\<exists>ss' cs nt'. push_each e m ss nt = Some (ss', cs, nt') \<and> map fst ss' = map fst ss"
  using assms
proof (induction ss arbitrary: nt)
  case (Cons a ss)
  obtain k st where a: "a = (k, st)" by force
  obtain out st1 nt1 where p: "push_loop (queue m) (head m) (maxbytedelay m) (getBufferSize e k) (settle (ml_tail m) st) nt = Some (out, st1, nt1)"
    using push_loop_some Cons.prems by (metis a fst_conv list.set_intros(1) list.simps(9) prod_cases3)
  then show ?case using Cons.IH [of nt1] Cons.prems by (auto simp: a)
qed simp

lemma push_some:
  assumes "sizes_ok e m"
  shows "\<exists>m'. push e m = Some m' \<and> sizes_ok e m'"
proof -
  obtain ss cs nt where p: "push_each e m (line_speakers m) LONG_MAX = Some (ss, cs, nt)"
      "map fst ss = map fst (line_speakers m)"
    using push_each_some [of "line_speakers m" e m LONG_MAX] assms
    by (auto simp: sizes_ok_def getSpeakers_def list_all_iff)
  obtain m' where m': "push e m = Some m'" using p(1) by (auto simp: push_def Let_def)
  then have "queue m' = queue m" "line_speakers m' = ss"
    using p(1) by (auto simp: push_def Let_def call_def)
  then show ?thesis using m' p(2) assms by (simp add: sizes_ok_def getSpeakers_def)
qed

lemma length_zero_fill [simp]: "length (queue (zero_fill n h m)) = length (queue m)"
proof -
  have "length (fold (\<lambda>j q. q[f j q := 0]) js q) = length q" for f :: "nat \<Rightarrow> bytes \<Rightarrow> nat" and js and q :: bytes
    by (induction js arbitrary: q) auto
  then show ?thesis by (simp add: zero_fill_def)
qed

lemma drain_loop_some:
  "0 < minbuf \<Longrightarrow> sizes_ok e m \<Longrightarrow> \<exists>m'. drain_loop e minbuf newhead h m = Some m'"
proof (induction e minbuf newhead h m rule: drain_loop.induct)
  case (1 e minbuf newhead h m)
  have "sizes_ok e (zero_fill minbuf h m)"
    using "1.prems"(2) by (auto simp: sizes_ok_def getSpeakers_def) (simp add: zero_fill_def)
  then obtain m' where "push e (zero_fill minbuf h m) = Some m'" "sizes_ok e m'" using push_some by blast
  then show ?case using 1 by (subst drain_loop.simps) auto
qed

lemma fold_min_pos: "0 < (a :: nat) \<Longrightarrow> \<forall>x \<in> set xs. 0 < x \<Longrightarrow> 0 < fold min xs a"
  by (induction xs arbitrary: a) auto

lemma drain_line_some:
  assumes "sizes_ok e m"
  shows "\<exists>m'. drain_line e m = Some m'"
proof -
  have "0 < fold min (map (getBufferSize e) (getSpeakers m)) INT_MAX"
    using assms by (intro fold_min_pos) (auto simp: sizes_ok_def list_all_iff INT_MAX_def)
  then show ?thesis using drain_loop_some [OF _ assms] by (auto simp: drain_line_def Let_def)
qed

lemma play_done_some:
  assumes "sizes_ok e (pl_line p)"
  shows "\<exists>p'. play_done e p = Some p' \<and> phase p' = Ended \<and> \<not> line_isOpen (pl_line p')"
  using drain_line_some [OF assms] by (auto simp: play_done_def close_line_def line_isOpen_def update_def Let_def)


text \<open>Cancelling alone does not end the thread.  Without speakers each pass of the loop reports the error and sets the
  flag again, but the inner loop only looks at whether the player is stopped: it goes on for any number of passes.\<close>

lemma cancelled_player_goes_on:
  assumes "\<not> stopped p" and "phase p = Inner" and "\<not> hasSpeakers (pl_line p)" and "0 \<le> pl_volume p" and "pl_volume p \<le> 100"
  shows "\<exists>p'. run_player e bss (stopService p) = Some p' \<and> phase p' = Inner \<and> cancelled p' \<and>
    pl_events p' = pl_events p @ replicate (length bss) ''error''"
  using assms
proof (induction bss arbitrary: p)
  case Nil
  then show ?case by (simp add: stopService_def)
next
  case (Cons bs bss)
  let ?p = "stopService p"
  define q where "q = fire ''error'' (pl_setVolume e (pl_volume p) ?p\<lparr>cancelled := True\<rparr>)"
  have v: "max 0 (min 100 (pl_volume p)) = pl_volume p" using Cons.prems by simp
  have h: "hasSpeakers (pl_line (pl_setVolume e (pl_volume p) ?p)) = hasSpeakers (pl_line p)"
    by (simp add: pl_setVolume_def v stopService_def line_setVolume_def hasSpeakers_def call_def Let_def)
  have s: "player_step e bs ?p = Some q"
    using Cons.prems h by (simp add: player_step_def stopService_def player_pass_def q_def Let_def)
  have q: "\<not> stopped q" "phase q = Inner" "\<not> hasSpeakers (pl_line q)" "pl_volume q = pl_volume p" "stopService q = q"
      "pl_events q = pl_events p @ [''error'']"
    using Cons.prems h by (auto simp: q_def fire_def pl_setVolume_def v stopService_def Let_def)
  show ?case using s Cons.IH [of q] q Cons.prems by auto
qed

lemma fold_drop_speaker: "fold drop_speaker ks xs = filter (\<lambda>(j, st). j \<notin> set ks) xs"
  by (induction ks arbitrary: xs) (auto simp: drop_speaker_def intro!: filter_cong)

lemma received_other: "\<forall>(j, c) \<in> set cs. \<not> (\<exists>b. c = Wrote b) \<Longrightarrow> received k cs = []"
  by (auto simp: received_def split: speaker_call.splits)

text \<open>Speakers are only taken away.\<close>

lemma setSpeakers_fewer:
  assumes "news \<noteq> []" and "set news \<subseteq> set (getSpeakers m)"
  shows "line_speakers (snd (setSpeakers e news m)) = filter (\<lambda>(j, st). j \<in> set news) (line_speakers m) \<and>
    received k (calls (snd (setSpeakers e news m))) = received k (calls m)"
proof -
  have add: "filter (\<lambda>k. k \<notin> set (getSpeakers m)) (remdups news) = []" using assms(2) by (auto simp: filter_empty_conv)
  have "filter (\<lambda>(j, st). j \<notin> set (filter (\<lambda>k. k \<notin> set news) (getSpeakers m))) (line_speakers m) =
      filter (\<lambda>(j, st). j \<in> set news) (line_speakers m)"
    by (intro filter_cong) (force simp: getSpeakers_def)+
  moreover have "received k (map (\<lambda>k. (k, Close_sp)) ks) = []" for ks by (rule received_other) auto
  ultimately show ?thesis
    using assms(1) by (simp add: setSpeakers_def add fold_drop_speaker Let_def call_def received_append)
qed

lemma valid_loop_failed:
  assumes "\<forall>k \<in> set ks. getError e k" and "hasSpeakers m"
  shows "\<exists>m'. valid_loop e ks m = (False, m') \<and> hasSpeakers m' \<and> set (getSpeakers m') \<subseteq> set (getSpeakers m) \<and>
    (\<forall>k. received k (calls m') = received k (calls m))"
  using assms
proof (induction ks arbitrary: m)
  case (Cons k ks)
  define m1 where "m1 = snd (setSpeakers e (remove1 k (getSpeakers m)) m)"
  have m1: "hasSpeakers m1 \<and> set (getSpeakers m1) \<subseteq> set (getSpeakers m) \<and> (\<forall>k. received k (calls m1) = received k (calls m))"
  proof (cases "remove1 k (getSpeakers m)")
    case Nil
    then have "m1 = m" by (simp add: m1_def setSpeakers_def)
    then show ?thesis using Cons.prems(2) by simp
  next
    case (Cons a as)
    then have a: "a \<in> set (remove1 k (getSpeakers m))" by simp
    then have "a \<in> set (getSpeakers m)" using set_remove1_subset by fast
    then obtain st where "(a, st) \<in> set (line_speakers m)" by (auto simp: getSpeakers_def)
    then show ?thesis
      using setSpeakers_fewer [of "remove1 k (getSpeakers m)" m e] Cons a set_remove1_subset [of k "getSpeakers m"]
      by (auto simp: m1_def hasSpeakers_def getSpeakers_def filter_empty_conv)
  qed
  then show ?case using Cons.IH [of m1] Cons.prems by (auto simp: m1_def [symmetric])
qed simp

text \<open>C36. When all speakers have failed, the player does not notice: the last of them stays in the line, for the collection
  without it is empty and is refused, so that the test for speakers succeeds, what is read is thrown away, and
  no error is reported.\<close>

theorem failed_speakers_unnoticed:
  assumes sp: "hasSpeakers (pl_line p)" and err: "\<forall>k \<in> set (getSpeakers (pl_line p)). getError e k"
    and vol: "0 \<le> pl_volume p" "pl_volume p \<le> 100"
  shows "\<exists>p'. player_pass e (Some bs) p = Some p' \<and> hasSpeakers (pl_line p') \<and>
    (\<forall>k \<in> set (getSpeakers (pl_line p')). getError e k) \<and> cancelled p' = cancelled p \<and> pl_events p' = pl_events p \<and>
    (\<forall>k. received k (calls (pl_line p')) = received k (calls (pl_line p)))"
proof -
  define m where "m = line_setVolume e (pl_volume p) (pl_line p)"
  have v: "max 0 (min 100 (pl_volume p)) = pl_volume p" using vol by simp
  have m: "getSpeakers m = getSpeakers (pl_line p)" "hasSpeakers m" "received k (calls m) = received k (calls (pl_line p))" for k
    using sp received_other [of "map (\<lambda>k. (k, Gain_sp (speaker_volume e k (pl_volume p)))) (getSpeakers (pl_line p))" k]
    by (auto simp: m_def line_setVolume_def call_def getSpeakers_def hasSpeakers_def received_append)
  obtain m' where m': "isValid e m = (False, m')" "hasSpeakers m'" "set (getSpeakers m') \<subseteq> set (getSpeakers m)"
      "\<forall>k. received k (calls m') = received k (calls m)"
    using valid_loop_failed [of "getSpeakers m" e m] m err by (auto simp: isValid_def)
  have "player_pass e (Some bs) p = Some (p\<lparr>streamoffset := streamoffset p + int (length bs), pl_line := m'\<rparr>)"
    using m(2) m'(1) by (simp add: player_pass_def pl_setVolume_def v m_def [symmetric] write_line_def Let_def)
  then show ?thesis using m m' err by auto
qed

subsection \<open>Two flaws of the line\<close>

definition small_line :: "int \<Rightarrow> (nat \<times> line_state) list \<Rightarrow> multiline" where
  "small_line bps ss = \<lparr>ml_volume = 0, msdelay = 0, queue = replicate 16 0, head = 0, ml_tail = 0, line_speakers = ss,
     sampleRate = 1, bitsPerChannel = 8, channels = 1, is_signed = True, big_endian = False, bytespersecond = bps,
     maxbytedelay = 0, calls = []\<rparr>"

definition small_env :: speaker_env where
  "small_env = \<lparr>getBufferSize = (\<lambda>_. 2), getDelay = (\<lambda>_. 4), getVolumeAdjustment = (\<lambda>_. 0), getError = (\<lambda>_. False),
     sp_isOpen = (\<lambda>_. True)\<rparr>"

lemmas flaw_simps = int_of_long_small ring_put_def arraycopy_def push_def push_loop.simps settle_def LONG_MIN_def LONG_MAX_def
  signed_modulo_int_def signed_divide_int_def sgn_if ring_get_def call_def update_def received_def drain_line_def
  drain_loop.simps reset_tails_def zero_fill_def INT_MAX_def getSpeakers_def

text \<open>The end of the padding is computed from the position after the first buffer of the last write, not after the
  last one; the rest of a buffer that was begun is not sent when the line is drained.\<close>

lemma drain_loses_end:
  "map_option (\<lambda>m. received 0 (calls m))
     (Option.bind (write_line small_env [1, 2, 3, 4, 5] 0 5 (small_line 1000 [(0, new_state)])) (drain_line small_env)) =
   Some [1, 2, 3, 4]"
  by (simp add: write_line_def isValid_def getSpeakers_def small_env_def small_line_def new_state_def flaw_simps)

text \<open>A speaker that is added to an open line gets its delay after the largest delay was determined: it is given bytes that
  were not written yet.\<close>

lemma late_speaker_ahead:
  "map_option (\<lambda>m. received 0 (calls m))
     (write_line small_env [1, 2, 3, 4, 5, 6] 0 6 (snd (setSpeakers small_env [0] (small_line 1000 [])))) =
   Some [5, 6, 0, 0, 0, 0]"
  by (simp add: write_line_def isValid_def getSpeakers_def small_env_def small_line_def new_state_def flaw_simps
      setSpeakers_def line_isOpen_def openSpeaker_def set_delay_def speaker_volume_def numeral_2_eq_2)

subsection \<open>Instances\<close>

definition two_speakers :: speaker_env where
  "two_speakers = \<lparr>getBufferSize = (\<lambda>_. 1408), getDelay = (\<lambda>k. if k = 0 then 725 else 0), getVolumeAdjustment = (\<lambda>_. 0),
     getError = (\<lambda>_. False), sp_isOpen = (\<lambda>_. True)\<rparr>"


definition small_player :: "multiline \<Rightarrow> player" where
  "small_player m = \<lparr>stopped = False, cancelled = False, pl_volume = 50, revision = 0, streamoffset = 0, pl_line = m,
     volume_prop = None, speaker_props = [], pl_events = [], phase = Inner\<rparr>"


theorem failed_speakers_unnoticed_witness:
  "\<exists>p'. player_pass (small_env\<lparr>getError := \<lambda>_. True\<rparr>) (Some [1, 2]) (small_player (small_line 1000 [(0, new_state), (1, new_state)])) =
      Some p' \<and> hasSpeakers (pl_line p') \<and> pl_events p' = []"
  using failed_speakers_unnoticed [of "small_player (small_line 1000 [(0, new_state), (1, new_state)])" "small_env\<lparr>getError := \<lambda>_. True\<rparr>" "[1, 2]"]
  by (auto simp: small_player_def small_line_def hasSpeakers_def)

end
