(* ===== verification/Matcher.thy ===== *)
theory Matcher
  imports JavaText "HOL-Library.AList"
begin

text \<open>
  Filters for services: \<^verbatim>\<open>src/src/com/nixus/raop/core/AbstractMatcher.java\<close> and \<^verbatim>\<open>ServiceMatcher.java\<close>.  The constructor reads a filter
  character by character and turns it into a list in postfix order with a stack of operators; \<open>matches\<close> evaluates the
  list.  \<open>None\<close> is an exception.  Letters and digits outside ASCII are those of a parameter, as are floating point
  numbers and regular expressions.
\<close>

text \<open>An element of the list \<open>test\<close>; the operators and the bracket also stand on the stack.\<close>

datatype mitem = MTest jstring jstring jstring | MAnd | MOr | MOpen

record mstate =
  m_test :: "mitem list"
  m_stack :: "mitem list"
  lastc :: jchar
  lasti :: nat
  quotechar :: jchar
  m_key :: "jstring option"
  m_op :: "jstring option"
  m_val :: "jstring option"

definition isLetterOrDigit :: "(jchar \<Rightarrow> bool) \<Rightarrow> jchar \<Rightarrow> bool" where
  "isLetterOrDigit u c \<longleftrightarrow> (48 \<le> c \<and> c \<le> 57) \<or> (65 \<le> c \<and> c \<le> 90) \<or> (97 \<le> c \<and> c \<le> 122) \<or> (128 \<le> c \<and> u c)"

definition special :: "jchar \<Rightarrow> bool" where
  "special c \<longleftrightarrow> c \<in> set (J ''()!=<>~'' @ [39, 34, 0])"

definition is_quote :: "jchar \<Rightarrow> bool" where
  "is_quote c \<longleftrightarrow> c = 39 \<or> c = 34"

definition strip_quotes :: "jstring \<Rightarrow> jstring" where
  "strip_quotes t = (if length t > 1 \<and> is_quote (hd t) \<and> hd t = last t then butlast (tl t) else t)"

definition lower :: "jchar \<Rightarrow> jchar" where
  "lower c = (if 65 \<le> c \<and> c \<le> 90 then c + 32 else c)"

definition known_op :: "jstring \<Rightarrow> bool" where
  "known_op op \<longleftrightarrow> op \<in> set (map J [''='', ''!='', ''>'', ''>='', ''<='', ''<'', ''=~'', ''!~''])"

fun pop_to_open :: "mitem list \<Rightarrow> mitem list \<Rightarrow> (mitem list \<times> mitem list) option" where
  "pop_to_open [] test = None"
| "pop_to_open (x # st) test = (if x = MOpen then Some (st, test) else pop_to_open st (test @ [x]))"

fun push_join :: "bool \<Rightarrow> mitem list \<Rightarrow> mitem list \<Rightarrow> mitem list \<times> mitem list" where
  "push_join isand [] test = ([if isand then MAnd else MOr], test)"
| "push_join isand (x # st) test =
     (if x = MOpen \<or> (x = MOr \<and> isand) then ((if isand then MAnd else MOr) # x # st, test)
      else push_join isand st (test @ [x]))"

text \<open>What is done with a token; the first argument says whether the index is zero.\<close>

definition handle_token :: "bool \<Rightarrow> jstring \<Rightarrow> mstate \<Rightarrow> mstate option" where
  "handle_token first token s =
     (if token = [] \<and> first then Some s
      else if token = [40] then Some (s\<lparr>m_stack := MOpen # m_stack s\<rparr>)
      else if token = [41] then
        map_option (\<lambda>(st, test). s\<lparr>m_stack := st, m_test := test\<rparr>) (pop_to_open (m_stack s) (m_test s))
      else case (m_key s, m_op s, m_val s) of
          (None, _, _) \<Rightarrow> Some (s\<lparr>m_key := Some (strip_quotes token)\<rparr>)
        | (Some k, None, _) \<Rightarrow> Some (s\<lparr>m_op := Some token\<rparr>)
        | (Some k, Some op, None) \<Rightarrow>
            if token = [61] \<or> token = [126] then Some (s\<lparr>m_op := Some (op @ token)\<rparr>)
            else if known_op op then
              Some (s\<lparr>m_val := Some (strip_quotes token), m_test := m_test s @ [MTest k op (strip_quotes token)]\<rparr>)
            else None
        | (Some k, Some op, Some v) \<Rightarrow>
            let isand = (map lower token = J ''and'')
            in if isand \<or> map lower token = J ''or'' then
                 let (st, test) = push_join isand (m_stack s) (m_test s)
                 in Some (s\<lparr>m_stack := st, m_test := test, m_key := None, m_op := None, m_val := None\<rparr>)
               else None)"

text \<open>Blanks before the index are left out of the token; a token that starts behind its end is an exception.\<close>

fun back_over_blanks :: "jstring \<Rightarrow> jchar \<Rightarrow> nat \<Rightarrow> nat option" where
  "back_over_blanks f c 0 = (if c = 32 then None else Some 0)"
| "back_over_blanks f c (Suc e) = (if c = 32 then if e = 0 then None else back_over_blanks f (f ! (e - 1)) e else Some (Suc e))"

definition unescape :: "jchar \<Rightarrow> jchar" where
  "unescape c = (if c = 110 then 10 else if c = 114 then 13 else if c = 116 then 9 else c)"

text \<open>One turn of the loop: how many characters it skips, and the state.\<close>

definition filter_turn :: "(jchar \<Rightarrow> bool) \<Rightarrow> jstring \<Rightarrow> nat \<Rightarrow> mstate \<Rightarrow> (nat \<times> mstate) option" where
  "filter_turn u f i s =
     (let c = (if i = length f then 0 else f ! i) in
      if c = 92 then
        if Suc i < length f then Some (1, s\<lparr>lastc := unescape (f ! Suc i)\<rparr>) else None
      else if is_quote c \<and> quotechar s = c then Some (0, s\<lparr>quotechar := 0, lastc := c\<rparr>)
      else if quotechar s = 0 \<and>
          ((i > 0 \<and> isLetterOrDigit u c \<and> \<not> isLetterOrDigit u (lastc s)) \<or> special c) then
        Option.bind (back_over_blanks f (lastc s) i) (\<lambda>e.
          if lasti s > e then None
          else
            let token = take (e - lasti s) (drop (lasti s) f);
                s = s\<lparr>lasti := i, quotechar := (if is_quote c then c else quotechar s)\<rparr>
            in map_option (\<lambda>s. (0, s\<lparr>lastc := c\<rparr>)) (handle_token (i = 0) token s))
      else Some (0, s\<lparr>lastc := c\<rparr>))"

function filter_loop :: "(jchar \<Rightarrow> bool) \<Rightarrow> jstring \<Rightarrow> nat \<Rightarrow> mstate \<Rightarrow> mstate option" where
  "filter_loop u f i s = (if i \<le> length f then
     (case filter_turn u f i s of None \<Rightarrow> None | Some (n, s) \<Rightarrow> filter_loop u f (Suc (i + n)) s) else Some s)"
  by pat_completeness auto

termination
  by (relation "measure (\<lambda>(u, f, i, s). Suc (length f) - i)") auto

declare filter_loop.simps [simp del]

definition start_state :: mstate where
  "start_state = \<lparr>m_test = [], m_stack = [], lastc = 0, lasti = 0, quotechar = 0, m_key = None, m_op = None, m_val = None\<rparr>"

text \<open>The list of tests; the filter that matches everything has none.\<close>

definition compile_filter :: "(jchar \<Rightarrow> bool) \<Rightarrow> jstring \<Rightarrow> mitem list option option" where
  "compile_filter u f =
     (let f = jtrim f in
      if f = J ''*'' then Some None
      else Option.bind (filter_loop u f 0 start_state) (\<lambda>s.
        let test = m_test s @ m_stack s in if test = [] then None else Some (Some test)))"

text \<open>The evaluation, with the outcome of a single test as a parameter.  A bracket that was never closed is not a test.\<close>

fun eval_items :: "(jstring \<Rightarrow> jstring \<Rightarrow> jstring \<Rightarrow> bool) \<Rightarrow> mitem list \<Rightarrow> bool list \<Rightarrow> bool option" where
  "eval_items t [] (x # work) = Some x"
| "eval_items t [] [] = None"
| "eval_items t (MOr # xs) (a # b # work) = eval_items t xs ((a \<or> b) # work)"
| "eval_items t (MAnd # xs) (a # b # work) = eval_items t xs ((a \<and> b) # work)"
| "eval_items t (MTest k op v # xs) work = eval_items t xs (t k op v # work)"
| "eval_items t (MOpen # xs) work = None"
| "eval_items t (_ # xs) work = None"

definition matches :: "(jstring \<Rightarrow> jstring \<Rightarrow> jstring \<Rightarrow> bool) \<Rightarrow> mitem list option \<Rightarrow> bool option" where
  "matches t test = (case test of None \<Rightarrow> Some True | Some xs \<Rightarrow> eval_items t xs [])"

subsection \<open>Tests of a service\<close>

text \<open>The library: floating point numbers, regular expressions (of a pattern that is one), digits outside ASCII, and
  the classes of the program.\<close>

record 'f mlib =
  parseFloat :: "jstring \<Rightarrow> 'f option"
  compareFloat :: "'f \<Rightarrow> 'f \<Rightarrow> int"
  floatText :: "'f \<Rightarrow> jstring"
  regex :: "jstring \<Rightarrow> jstring \<Rightarrow> bool"          \<comment> \<open>text, pattern\<close>
  other_digit :: "jchar \<Rightarrow> bool"
  assignable :: "jstring \<Rightarrow> jstring \<Rightarrow> bool option"  \<comment> \<open>no such class: none\<close>

fun jcompare :: "jstring \<Rightarrow> jstring \<Rightarrow> int" where
  "jcompare [] [] = 0"
| "jcompare [] (d # t) = - int (length (d # t))"
| "jcompare (c # s) [] = int (length (c # s))"
| "jcompare (c # s) (d # t) = (if c = d then jcompare s t else int (unat c) - int (unat d))"

definition starts_with_digit :: "(jchar \<Rightarrow> bool) \<Rightarrow> jstring \<Rightarrow> bool" where
  "starts_with_digit u s \<longleftrightarrow> s \<noteq> [] \<and> ((48 \<le> hd s \<and> hd s \<le> 57) \<or> (128 \<le> hd s \<and> u (hd s)))"

text \<open>The value of the test compared with that of the property, and both as text.  Numbers are compared as numbers if both
  can be read.\<close>

definition compare_values :: "'f mlib \<Rightarrow> jstring \<Rightarrow> jstring \<Rightarrow> int \<times> jstring \<times> jstring" where
  "compare_values lib testval propval =
     (let strings = (jcompare testval propval, testval, propval) in
      if starts_with_digit (other_digit lib) propval \<and> starts_with_digit (other_digit lib) testval then
        if 46 \<in> set propval \<or> 46 \<in> set testval then
          (case (parseFloat lib propval, parseFloat lib testval) of
             (Some p, Some t) \<Rightarrow> (compareFloat lib t p, floatText lib t, floatText lib p)
           | _ \<Rightarrow> strings)
        else
          (case (parseInt 10 propval, parseInt 10 testval) of
             (Some p, Some t) \<Rightarrow> (if t < p then - 1 else if t = p then 0 else 1, toString t, toString p)
           | _ \<Rightarrow> strings)
      else strings)"

definition test_value :: "'f mlib \<Rightarrow> jstring \<Rightarrow> jstring \<Rightarrow> jstring \<Rightarrow> bool" where
  "test_value lib op testval propval =
     (let (c, t, p) = compare_values lib testval propval in
      if op = J ''='' then c = 0
      else if op = J ''!='' then c \<noteq> 0
      else if op = J ''<'' then c > 0
      else if op = J ''<='' then c \<ge> 0
      else if op = J ''>='' then c \<le> 0
      else if op = J ''>'' then c < 0
      else if op = J ''=~'' then regex lib p t
      else \<not> regex lib p t)"

record mservice =
  ms_class :: jstring
  ms_context :: bool
  ms_alive :: bool
  ms_props :: "jstring \<Rightarrow> jstring option"

text \<open>The test of a property of a service; a property that is null counts as empty.\<close>

definition service_test :: "'f mlib \<Rightarrow> mservice \<Rightarrow> jstring \<Rightarrow> jstring \<Rightarrow> jstring \<Rightarrow> bool" where
  "service_test lib sv key op val =
     (if key = J ''class'' then
        if op = J ''='' \<or> op = J ''!='' then
          (case assignable lib val (ms_class sv) of None \<Rightarrow> op = J ''!='' | Some b \<Rightarrow> b = (op = J ''=''))
        else test_value lib op val (J ''class '' @ ms_class sv)
      else if \<not> ms_context sv then test_value lib op val []
      else if key = J ''alive'' then test_value lib op val (if ms_alive sv then J ''true'' else J ''false'')
      else test_value lib op val (case ms_props sv key of None \<Rightarrow> [] | Some v \<Rightarrow> v))"

text \<open>The properties that the tests for equality name, in the order of the list; every test is made.\<close>

definition filter_properties :: "mitem list \<Rightarrow> (jstring \<times> jstring) list" where
  "filter_properties xs = fold (\<lambda>x ps. case x of MTest k op v \<Rightarrow> if op = J ''='' then AList.update k v ps else ps | _ \<Rightarrow> ps) xs []"

text \<open>The first service that a filter matches, if the test of its class succeeds.\<close>

fun find_service :: "'f mlib \<Rightarrow> (mservice \<Rightarrow> bool) \<Rightarrow> mitem list option \<Rightarrow> mservice list \<Rightarrow> mservice option option" where
  "find_service lib typ test [] = Some None"
| "find_service lib typ test (sv # svs) =
     (if \<not> typ sv then find_service lib typ test svs
      else case matches (service_test lib sv) test of
          None \<Rightarrow> None
        | Some True \<Rightarrow> Some (Some sv)
        | Some False \<Rightarrow> find_service lib typ test svs)"

text \<open>\<open>getService\<close> up to the factories, which it asks when no service is found; \<open>getServices\<close> returns all.\<close>

definition search_service :: "(jchar \<Rightarrow> bool) \<Rightarrow> 'f mlib \<Rightarrow> (mservice \<Rightarrow> bool) \<Rightarrow> jstring option \<Rightarrow> mservice list \<Rightarrow> mservice option option" where
  "search_service u lib typ filt svs = (case filt of
       None \<Rightarrow> find_service lib typ None svs
     | Some f \<Rightarrow> Option.bind (compile_filter u f) (\<lambda>test. find_service lib typ test svs))"

fun collect_services :: "'f mlib \<Rightarrow> (mservice \<Rightarrow> bool) \<Rightarrow> mitem list option \<Rightarrow> mservice list \<Rightarrow> mservice list option" where
  "collect_services lib typ test [] = Some []"
| "collect_services lib typ test (sv # svs) =
     (if \<not> typ sv then collect_services lib typ test svs
      else Option.bind (matches (service_test lib sv) test) (\<lambda>b.
        map_option (\<lambda>all. if b then sv # all else all) (collect_services lib typ test svs)))"

definition get_services :: "(jchar \<Rightarrow> bool) \<Rightarrow> 'f mlib \<Rightarrow> (mservice \<Rightarrow> bool) \<Rightarrow> jstring option \<Rightarrow> mservice list \<Rightarrow> mservice list option" where
  "get_services u lib typ filt svs = (case filt of
       None \<Rightarrow> collect_services lib typ None svs
     | Some f \<Rightarrow> Option.bind (compile_filter u f) (\<lambda>test. collect_services lib typ test svs))"

subsection \<open>Filters as they are meant\<close>

datatype fexp = FTest jstring jstring jstring | FAnd fexp fexp | FOr fexp fexp

primrec sem :: "(jstring \<Rightarrow> jstring \<Rightarrow> jstring \<Rightarrow> bool) \<Rightarrow> fexp \<Rightarrow> bool" where
  "sem t (FTest k op v) = t k op v"
| "sem t (FAnd a b) = (sem t a \<and> sem t b)"
| "sem t (FOr a b) = (sem t a \<or> sem t b)"

primrec postfix :: "fexp \<Rightarrow> mitem list" where
  "postfix (FTest k op v) = [MTest k op v]"
| "postfix (FAnd a b) = postfix a @ postfix b @ [MAnd]"
| "postfix (FOr a b) = postfix a @ postfix b @ [MOr]"

datatype lexeme = LWord jstring | LSym jchar | LQuoted jstring

fun lex_text :: "lexeme \<Rightarrow> jstring" where
  "lex_text (LWord w) = w"
| "lex_text (LSym c) = [c]"
| "lex_text (LQuoted v) = 39 # v @ [39]"

text \<open>A text is lexemes, with or without a blank behind each of them.\<close>

definition piece :: "lexeme \<times> bool \<Rightarrow> jstring" where
  "piece x = lex_text (fst x) @ (if snd x then [32] else [])"

definition lexeme_string :: "(lexeme \<times> bool) list \<Rightarrow> jstring" where
  "lexeme_string xs = concat (map piece xs)"

definition spaced :: "(lexeme \<times> bool) list \<Rightarrow> (lexeme \<times> bool) list" where
  "spaced xs = butlast xs @ [(fst (last xs), True)]"

definition bracketed :: "bool \<Rightarrow> (lexeme \<times> bool) list \<Rightarrow> (lexeme \<times> bool) list" where
  "bracketed b xs = (if b then (LSym 40, False) # xs @ [(LSym 41, False)] else xs)"

text \<open>A filter written down: brackets only where they are needed.  The level is 0 below \<open>or\<close>, 1 below \<open>and\<close>, 2 behind an
  \<open>and\<close>.\<close>

primrec lexemes :: "nat \<Rightarrow> fexp \<Rightarrow> (lexeme \<times> bool) list" where
  "lexemes n (FTest k op v) = (LWord k, False) # map (\<lambda>c. (LSym c, False)) op @ [(LQuoted v, False)]"
| "lexemes n (FAnd a b) = bracketed (n > 1) (spaced (lexemes 1 a) @ (LWord (J ''and''), True) # lexemes 2 b)"
| "lexemes n (FOr a b) = bracketed (n > 0) (spaced (lexemes 0 a) @ (LWord (J ''or''), True) # lexemes 1 b)"

definition filter_text :: "fexp \<Rightarrow> jstring" where
  "filter_text e = lexeme_string (lexemes 0 e)"

text \<open>Names are letters and digits, values anything without an apostrophe and a backslash.\<close>

primrec fexp_ok :: "(jchar \<Rightarrow> bool) \<Rightarrow> fexp \<Rightarrow> bool" where
  "fexp_ok u (FTest k op v) = (k \<noteq> [] \<and> list_all (isLetterOrDigit u) k \<and> known_op op \<and> 39 \<notin> set v \<and> 92 \<notin> set v)"
| "fexp_ok u (FAnd a b) = (fexp_ok u a \<and> fexp_ok u b)"
| "fexp_ok u (FOr a b) = (fexp_ok u a \<and> fexp_ok u b)"

end
