(* ===== verification/MatcherLaws.thy ===== *)
theory MatcherLaws
  imports Matcher
begin

text \<open>
  A filter that is written down as \<^verbatim>\<open>AbstractMatcher.java\<close> documents it is compiled to its postfix form and matches what it
  says.  First the reader of characters: it delivers the lexemes.  Then the stack of operators.
\<close>

subsection \<open>Lexemes\<close>

fun lexeme_ok :: "(jchar \<Rightarrow> bool) \<Rightarrow> lexeme \<Rightarrow> bool" where
  "lexeme_ok u (LWord w) \<longleftrightarrow> w \<noteq> [] \<and> list_all (isLetterOrDigit u) w"
| "lexeme_ok u (LSym c) \<longleftrightarrow> special c \<and> \<not> is_quote c \<and> c \<noteq> 0"
| "lexeme_ok u (LQuoted v) \<longleftrightarrow> 39 \<notin> set v \<and> 92 \<notin> set v"

text \<open>Two words in a row need the blank.\<close>

fun lexemes_ok :: "(jchar \<Rightarrow> bool) \<Rightarrow> (lexeme \<times> bool) list \<Rightarrow> bool" where
  "lexemes_ok u [] \<longleftrightarrow> True"
| "lexemes_ok u [(l, b)] \<longleftrightarrow> lexeme_ok u l \<and> \<not> b"
| "lexemes_ok u ((l, b) # (l', b') # xs) \<longleftrightarrow> lexeme_ok u l \<and> ((\<exists>w w'. l = LWord w \<and> l' = LWord w') \<longrightarrow> b) \<and> lexemes_ok u ((l', b') # xs)"

fun run_tokens :: "jstring list \<Rightarrow> mstate \<Rightarrow> mstate option" where
  "run_tokens [] s = Some s"
| "run_tokens (t # ts) s = Option.bind (handle_token False t s) (run_tokens ts)"

definition relex :: "jchar \<Rightarrow> nat \<Rightarrow> jchar \<Rightarrow> mstate \<Rightarrow> mstate" where
  "relex c i q s = s\<lparr>lastc := c, lasti := i, quotechar := q\<rparr>"

lemma relex_simps [simp]:
  "lastc (relex c i q s) = c" "lasti (relex c i q s) = i" "quotechar (relex c i q s) = q"
  "(relex c i q s)\<lparr>lastc := d\<rparr> = relex d i q s" "(relex c i q s)\<lparr>lasti := j\<rparr> = relex c j q s"
  "(relex c i q s)\<lparr>quotechar := p\<rparr> = relex c i p s"
  by (simp_all add: relex_def)

lemma handle_token_relex: "handle_token b t (relex c i q s) = map_option (relex c i q) (handle_token b t s)"
  by (cases "m_key s"; cases "m_op s"; cases "m_val s"; cases "pop_to_open (m_stack s) (m_test s)")
    (simp_all add: handle_token_def relex_def Let_def option.map_comp comp_def split_def)

lemma run_tokens_relex: "run_tokens ts (relex c i q s) = map_option (relex c i q) (run_tokens ts s)"
proof (induction ts arbitrary: s)
  case (Cons t ts)
  then show ?case by (cases "handle_token False t s") (simp_all add: handle_token_relex)
qed simp

lemma alnum_plain: "isLetterOrDigit u c \<Longrightarrow> \<not> special c \<and> \<not> is_quote c \<and> c \<noteq> 92 \<and> c \<noteq> 32 \<and> c \<noteq> 0"
  by (auto simp: isLetterOrDigit_def special_def is_quote_def J_def)

lemma blank_plain: "\<not> special 32 \<and> \<not> is_quote 32 \<and> \<not> isLetterOrDigit u 32"
  by (simp add: isLetterOrDigit_def special_def is_quote_def J_def)

lemma special_plain: "special c \<Longrightarrow> \<not> isLetterOrDigit u c \<and> c \<noteq> 92 \<and> c \<noteq> 32"
  by (auto simp: isLetterOrDigit_def special_def J_def)

text \<open>A turn without a token.\<close>

lemma filter_loop_quiet:
  assumes "i < length f" and "f ! i \<noteq> 92" and "\<not> (is_quote (f ! i) \<and> quotechar s = f ! i)"
    and "quotechar s \<noteq> 0 \<or> \<not> special (f ! i) \<and> (i = 0 \<or> \<not> isLetterOrDigit u (f ! i) \<or> isLetterOrDigit u (lastc s))"
  shows "filter_loop u f i s = filter_loop u f (Suc i) (s\<lparr>lastc := f ! i\<rparr>)"
  using assms by (subst filter_loop.simps) (auto simp: filter_turn_def Let_def)

lemma filter_loop_word:
  assumes "f = pre @ w @ post" and "list_all (isLetterOrDigit u) w" and "isLetterOrDigit u (lastc s) \<or> pre = []" and "quotechar s = 0"
  shows "filter_loop u f (length pre) s = filter_loop u f (length pre + length w) (s\<lparr>lastc := last (lastc s # w)\<rparr>)"
  using assms
proof (induction w arbitrary: pre s)
  case (Cons c w)
  have c: "isLetterOrDigit u c" using Cons.prems by simp
  have "filter_loop u f (length pre) s = filter_loop u f (Suc (length pre)) (s\<lparr>lastc := c\<rparr>)"
    using Cons.prems alnum_plain [OF c] by (subst filter_loop_quiet) auto
  also have "\<dots> = filter_loop u f (length (pre @ [c]) + length w) (s\<lparr>lastc := last (c # w)\<rparr>)"
    using Cons.IH [of "pre @ [c]" "s\<lparr>lastc := c\<rparr>"] Cons.prems c by simp
  finally show ?case by (simp split: if_splits)
qed simp

lemma filter_loop_quoted:
  assumes "f = pre @ v @ post" and "39 \<notin> set v" and "92 \<notin> set v" and "quotechar s = 39"
  shows "filter_loop u f (length pre) s = filter_loop u f (length pre + length v) (s\<lparr>lastc := last (lastc s # v)\<rparr>)"
  using assms
proof (induction v arbitrary: pre s)
  case (Cons c v)
  have "filter_loop u f (length pre) s = filter_loop u f (Suc (length pre)) (s\<lparr>lastc := c\<rparr>)"
    using Cons.prems by (subst filter_loop_quiet) auto
  also have "\<dots> = filter_loop u f (length (pre @ [c]) + length v) (s\<lparr>lastc := last (c # v)\<rparr>)"
    using Cons.IH [of "pre @ [c]" "s\<lparr>lastc := c\<rparr>"] Cons.prems by simp
  finally show ?case by (simp split: if_splits)
qed simp

lemma lex_text_nonempty: "lexeme_ok u l \<Longrightarrow> lex_text l \<noteq> [] \<and> last (lex_text l) \<noteq> 32"
  by (cases l) (auto simp: special_def J_def list_all_iff dest: alnum_plain last_in_set)

text \<open>The token that is pending at an index.\<close>

lemma back_to_lexeme:
  assumes "f = pre @ piece (l, b) @ post" and "lexeme_ok u l"
  shows "back_over_blanks f (last (piece (l, b))) (length (pre @ piece (l, b))) = Some (length pre + length (lex_text l))"
proof -
  have l: "lex_text l \<noteq> []" "last (lex_text l) \<noteq> 32" using lex_text_nonempty [OF assms(2)] by auto
  obtain x y where xy: "lex_text l = x @ [y]" "y \<noteq> 32" using l by (metis append_butlast_last_id)
  show ?thesis using xy assms(1) by (cases b) (auto simp: piece_def nth_append)
qed

lemma piece_last: "lexeme_ok u l \<Longrightarrow> piece (l, b) \<noteq> []"
  using lex_text_nonempty by (auto simp: piece_def)

text \<open>The turn at the start of the next lexeme, or at the end.\<close>

lemma filter_loop_token:
  assumes f: "f = pre @ piece (l, b) @ post" and l: "lexeme_ok u l" and i: "i = length (pre @ piece (l, b))"
    and c: "c = (if post = [] then 0 else hd post)"
    and e: "special c \<or> isLetterOrDigit u c \<and> \<not> isLetterOrDigit u (last (piece (l, b)))"
  shows "filter_loop u f i (relex (last (piece (l, b))) (length pre) 0 s) =
    Option.bind (handle_token False (lex_text l) s)
      (\<lambda>s. filter_loop u f (Suc i) (relex c i (if is_quote c then c else 0) s))"
proof -
  have fi: "(if i = length f then 0 else f ! i) = c"
    using c by (cases post) (simp_all add: f i nth_append)
  have c': "c \<noteq> 92" "\<not> (is_quote c \<and> 0 = c)" using e special_plain alnum_plain by (auto simp: is_quote_def)
  have i0: "0 < i" "i \<le> length f" using piece_last [OF l] by (auto simp: i f)
  have tok: "take (length pre + length (lex_text l) - length pre) (drop (length pre) f) = lex_text l"
    by (simp add: f piece_def)
  have e': "0 = (0 :: jchar) \<and> (0 < i \<and> isLetterOrDigit u c \<and> \<not> isLetterOrDigit u (last (piece (l, b))) \<or> special c)"
    using e i0 by blast
  have "filter_turn u f i (relex (last (piece (l, b))) (length pre) 0 s) =
      map_option (\<lambda>s. (0, relex c i (if is_quote c then c else 0) s)) (handle_token False (lex_text l) s)"
    unfolding filter_turn_def fi Let_def relex_simps if_not_P [OF c'(1)] if_not_P [OF c'(2)] if_P [OF e']
    using i0 by (simp add: back_to_lexeme [OF f l, folded i] tok [simplified] handle_token_relex option.map_comp comp_def)
  then show ?thesis
    using i0 by (subst filter_loop.simps) (cases "handle_token False (lex_text l) s"; simp)
qed

lemma filter_loop_rest:
  assumes f: "f = pre @ piece (l, b) @ post" and l: "lexeme_ok u l" and c: "c = hd (lex_text l)"
  shows "filter_loop u f (Suc (length pre)) (relex c (length pre) (if is_quote c then c else 0) s) =
    filter_loop u f (length (pre @ piece (l, b))) (relex (last (piece (l, b))) (length pre) 0 s)"
proof -
  let ?i = "length (pre @ lex_text l)" and ?c = "last (lex_text l)"
  have "filter_loop u f (Suc (length pre)) (relex c (length pre) (if is_quote c then c else 0) s) =
      filter_loop u f ?i (relex ?c (length pre) 0 s)"
  proof (cases l)
    case (LWord w)
    then obtain w' where w: "w = c # w'" "isLetterOrDigit u c" "list_all (isLetterOrDigit u) w'"
      using l c by (cases w) auto
    then show ?thesis
      using filter_loop_word [of f "pre @ [c]" w' _ u "relex c (length pre) 0 s"] alnum_plain [OF w(2)] LWord
      by (simp add: f piece_def)
  next
    case (LSym d)
    then show ?thesis using l c by simp
  next
    case (LQuoted v)
    let ?j = "length pre + Suc (length v)"
    have v: "39 \<notin> set v" "92 \<notin> set v" "c = 39" "is_quote 39" using l c LQuoted by (simp_all add: is_quote_def)
    have "filter_loop u f (Suc (length pre)) (relex 39 (length pre) 39 s) = filter_loop u f ?j (relex (last (39 # v)) (length pre) 39 s)"
      using filter_loop_quoted [of f "pre @ [39]" v "[39] @ (if b then [32] else []) @ post" "relex 39 (length pre) 39 s" u] v LQuoted
      by (simp add: f piece_def)
    moreover have j: "f ! ?j = 39" "?j < length f" using LQuoted by (simp_all add: f piece_def nth_append)
    have "filter_turn u f ?j (relex x (length pre) 39 s) = Some (0, relex 39 (length pre) 0 s)" for x
      unfolding filter_turn_def using j v(4) by simp
    then have "filter_loop u f ?j (relex x (length pre) 39 s) = filter_loop u f (Suc ?j) (relex 39 (length pre) 0 s)" for x
      using j(2) by (subst filter_loop.simps) simp
    ultimately show ?thesis using v(3,4) LQuoted by simp
  qed
  also have "\<dots> = filter_loop u f (length (pre @ piece (l, b))) (relex (last (piece (l, b))) (length pre) 0 s)"
  proof (cases b)
    case True
    then have "?i < length f" "f ! ?i = 32" by (simp_all add: f piece_def nth_append)
    then have "filter_loop u f ?i (relex ?c (length pre) 0 s) = filter_loop u f (Suc ?i) ((relex ?c (length pre) 0 s)\<lparr>lastc := 32\<rparr>)"
      using blank_plain [of u] by (subst filter_loop_quiet) simp_all
    then show ?thesis using True by (simp add: piece_def)
  qed (simp add: piece_def)
  finally show ?thesis .
qed

lemma alnum_above: "isLetterOrDigit u c \<Longrightarrow> 32 < c \<and> c \<noteq> 42"
  unfolding isLetterOrDigit_def word_less_nat_alt word_le_nat_alt by auto

lemma special_above: "special c \<Longrightarrow> c \<noteq> 0 \<Longrightarrow> 32 < c \<and> c \<noteq> 42"
  by (auto simp: special_def J_def)

lemma lexeme_starts:
  assumes "lexeme_ok u l"
  shows "special (hd (lex_text l)) \<or> isLetterOrDigit u (hd (lex_text l))" "32 < hd (lex_text l)" "32 < last (lex_text l)"
    "hd (lex_text l) \<noteq> 42"
proof -
  have "(special (hd (lex_text l)) \<or> isLetterOrDigit u (hd (lex_text l))) \<and> 32 < hd (lex_text l) \<and> 32 < last (lex_text l) \<and>
    hd (lex_text l) \<noteq> 42"
  proof (cases l)
    case (LWord w)
    then have "isLetterOrDigit u (hd w)" "isLetterOrDigit u (last w)" using assms by (auto simp: list_all_iff)
    then show ?thesis using LWord alnum_above by simp
  next
    case (LSym c)
    then show ?thesis using assms special_above by simp
  qed (simp add: special_def J_def)
  then show "special (hd (lex_text l)) \<or> isLetterOrDigit u (hd (lex_text l))" "32 < hd (lex_text l)" "32 < last (lex_text l)"
    "hd (lex_text l) \<noteq> 42" by blast+
qed

text \<open>Where the next lexeme starts there is a token.\<close>

lemma next_starts:
  assumes "lexemes_ok u ((l, b) # (l', b') # xs)"
  shows "special (hd (lex_text l')) \<or> isLetterOrDigit u (hd (lex_text l')) \<and> \<not> isLetterOrDigit u (last (piece (l, b)))"
proof (cases l')
  case (LWord w)
  have q: "special 39" by (simp add: special_def J_def)
  have "b \<or> \<not> (\<exists>w. l = LWord w)" using assms LWord by auto
  then have "\<not> isLetterOrDigit u (last (piece (l, b)))"
    using assms blank_plain [of u] special_plain [of _ u] q by (cases l) (auto simp: piece_def)
  then show ?thesis using lexeme_starts(1) [of u l'] assms by (cases xs) auto
qed (use assms in \<open>cases xs; auto simp: special_def J_def\<close>)+

lemma lexemes_ok_hd: "lexemes_ok u ((l, b) # xs) \<Longrightarrow> lexeme_ok u l"
  by (cases xs) auto

lemma lexeme_string_Cons: "lexeme_string (x # xs) = piece x @ lexeme_string xs"
  by (simp add: lexeme_string_def)

lemma hd_piece: "lexeme_ok u l \<Longrightarrow> hd (piece (l, b) @ ys) = hd (lex_text l)"
  using lex_text_nonempty by (auto simp: piece_def)

lemma filter_loop_lexemes:
  assumes "f = pre @ lexeme_string ((l, b) # xs)" and "lexemes_ok u ((l, b) # xs)"
  shows "filter_loop u f (length (pre @ piece (l, b))) (relex (last (piece (l, b))) (length pre) 0 s) =
    map_option (relex 0 (length f) 0) (run_tokens (map (lex_text \<circ> fst) ((l, b) # xs)) s)"
  using assms
proof (induction xs arbitrary: pre l b s)
  case Nil
  have "filter_loop u f (length f) (relex (last (piece (l, b))) (length pre) 0 s) =
      Option.bind (handle_token False (lex_text l) s) (\<lambda>s. filter_loop u f (Suc (length f)) (relex 0 (length f) 0 s))"
    using Nil filter_loop_token [of f pre l b "[]" u "length f" 0 s]
    by (simp add: lexeme_string_def special_def is_quote_def)
  moreover have "filter_loop u f (Suc (length f)) t = Some t" for t by (subst filter_loop.simps) simp
  moreover have "length (pre @ piece (l, b)) = length f" using Nil by (simp add: lexeme_string_def)
  ultimately show ?case by (cases "handle_token False (lex_text l) s") (simp_all only: run_tokens.simps list.map comp_apply fst_conv
      bind.bind_lunit bind.bind_lzero option.map)
next
  case (Cons x xs)
  obtain l' b' where x: "x = (l', b')" by force
  let ?pre = "pre @ piece (l, b)"
  have ok: "lexeme_ok u l" "lexeme_ok u l'" using Cons.prems(2) lexemes_ok_hd by (auto simp: x)
  have f: "f = pre @ piece (l, b) @ piece (l', b') @ lexeme_string xs"
    using Cons.prems(1) by (simp add: x lexeme_string_Cons)
  let ?c = "hd (lex_text l')"
  have "filter_loop u f (length ?pre) (relex (last (piece (l, b))) (length pre) 0 s) =
      Option.bind (handle_token False (lex_text l) s)
        (\<lambda>s. filter_loop u f (Suc (length ?pre)) (relex ?c (length ?pre) (if is_quote ?c then ?c else 0) s))"
    using next_starts [of u l b l' b' xs] Cons.prems(2) piece_last [OF ok(2)] hd_piece [OF ok(2)]
    by (intro filter_loop_token [OF f ok(1)]) (simp_all add: x)
  also have "\<dots> = Option.bind (handle_token False (lex_text l) s)
      (\<lambda>s. filter_loop u f (length (?pre @ piece (l', b'))) (relex (last (piece (l', b'))) (length ?pre) 0 s))"
    by (subst filter_loop_rest [OF _ ok(2) refl, of f ?pre b' "lexeme_string xs"]) (simp_all only: f append_assoc)
  also have "\<dots> = Option.bind (handle_token False (lex_text l) s)
      (\<lambda>s. map_option (relex 0 (length f) 0) (run_tokens (map (lex_text \<circ> fst) ((l', b') # xs)) s))"
    by (subst Cons.IH) (use f Cons.prems(2) in \<open>simp_all add: lexeme_string_Cons x\<close>)
  finally show ?case by (cases "handle_token False (lex_text l) s") (simp_all add: x comp_def)
qed

lemma filter_loop_first:
  assumes f: "f = piece (l, b) @ post" and l: "lexeme_ok u l" and c: "c = hd (lex_text l)"
  shows "filter_loop u f 0 start_state = filter_loop u f (Suc 0) (relex c 0 (if is_quote c then c else 0) start_state)"
proof -
  have f0: "f ! 0 = c" "f \<noteq> []" using f piece_last [OF l] hd_piece [OF l, of b post] c by (auto simp: hd_conv_nth)
  have s: "start_state = relex 0 0 0 start_state" by (simp add: start_state_def relex_def)
  have c': "c \<noteq> 92" "\<not> (is_quote c \<and> 0 = c)"
    using lexeme_starts(1) [OF l] special_plain alnum_plain unfolding c by (auto simp: is_quote_def)
  have "filter_turn u f 0 (relex 0 0 0 start_state) = Some (0, relex c 0 (if is_quote c then c else 0) start_state)"
  proof (cases "special c")
    case True
    then show ?thesis using f0 c' by (simp add: filter_turn_def handle_token_def)
  next
    case False
    then have "\<not> is_quote c" by (auto simp: is_quote_def special_def J_def)
    then show ?thesis using False f0 c' by (simp add: filter_turn_def)
  qed
  then show ?thesis by (subst s, subst filter_loop.simps) simp
qed

text \<open>The reader delivers the lexemes of a text.\<close>

lemma filter_loop_text:
  assumes "lexemes_ok u xs" and "xs \<noteq> []"
  shows "filter_loop u (lexeme_string xs) 0 start_state =
    map_option (relex 0 (length (lexeme_string xs)) 0) (run_tokens (map (lex_text \<circ> fst) xs) start_state)"
proof -
  obtain l b ys where xs: "xs = (l, b) # ys" using assms(2) by (cases xs) auto
  have l: "lexeme_ok u l" using assms(1) lexemes_ok_hd by (auto simp: xs)
  have f: "lexeme_string xs = piece (l, b) @ lexeme_string ys" by (simp add: xs lexeme_string_Cons)
  show ?thesis
    using filter_loop_first [OF f l refl] filter_loop_rest [of "lexeme_string xs" "[]" l b "lexeme_string ys" u "hd (lex_text l)" start_state] l f
      filter_loop_lexemes [of "lexeme_string xs" "[]" l b ys u start_state] assms(1)
    by (simp add: xs)
qed

subsection \<open>The text of a filter\<close>

definition blank_between :: "lexeme \<times> bool \<Rightarrow> lexeme \<times> bool \<Rightarrow> bool" where
  "blank_between x y \<longleftrightarrow> (\<exists>w w'. fst x = LWord w \<and> fst y = LWord w') \<longrightarrow> snd x"

definition chain :: "(jchar \<Rightarrow> bool) \<Rightarrow> (lexeme \<times> bool) list \<Rightarrow> bool" where
  "chain u xs \<longleftrightarrow> xs \<noteq> [] \<and> list_all (\<lambda>x. lexeme_ok u (fst x)) xs \<and> successively blank_between xs"

lemma chain_lexemes_ok: "chain u xs \<Longrightarrow> \<not> snd (last xs) \<Longrightarrow> lexemes_ok u xs"
proof (induction u xs rule: lexemes_ok.induct)
  case (3 u l b l' b' xs)
  then show ?case by (auto simp: chain_def blank_between_def)
qed (auto simp: chain_def)

lemma chain_append:
  "chain u xs \<Longrightarrow> chain u ys \<Longrightarrow> blank_between (last xs) (hd ys) \<Longrightarrow> chain u (xs @ ys)"
  by (auto simp: chain_def successively_append_iff)

lemma chain_single: "lexeme_ok u (fst x) \<Longrightarrow> chain u [x]"
  by (simp add: chain_def)

lemma blank_betweenI [intro]: "snd x \<Longrightarrow> blank_between x y" "fst x = LSym c \<Longrightarrow> blank_between x y" "fst y = LSym c \<Longrightarrow> blank_between x y"
    "fst y = LQuoted v \<Longrightarrow> blank_between x y"
  by (auto simp: blank_between_def)

lemma chain_spaced: "chain u xs \<Longrightarrow> chain u (spaced xs)"
proof -
  assume c: "chain u xs"
  then obtain ys l b where xs: "xs = ys @ [(l, b)]" by (cases xs rule: rev_cases) (auto simp: chain_def)
  have s: "spaced xs = ys @ [(l, True)]" by (simp add: spaced_def xs)
  show ?thesis
    using c unfolding s by (auto simp: chain_def xs successively_append_iff blank_between_def)
qed

lemma spaced_last: "snd (last (spaced xs))" "xs \<noteq> [] \<Longrightarrow> map fst (spaced xs) = map fst xs" "spaced xs \<noteq> []"
  by (cases xs rule: rev_cases; simp add: spaced_def)+

lemma chain_joined:
  assumes "chain u xs" and "chain u ys" and "list_all (isLetterOrDigit u) w" and "w \<noteq> []"
  shows "chain u (spaced xs @ (LWord w, True) # ys)"
proof -
  have "chain u ([(LWord w, True)] @ ys)" using assms by (intro chain_append chain_single) auto
  then show ?thesis using chain_append [OF chain_spaced [OF assms(1)], of "[(LWord w, True)] @ ys"] spaced_last(1) [of xs]
    by auto
qed

lemma chain_bracketed:
  assumes "chain u xs"
  shows "chain u (bracketed b xs)"
proof -
  have s: "lexeme_ok u (LSym 40)" "lexeme_ok u (LSym 41)" by (simp_all add: special_def is_quote_def J_def)
  have "chain u ([(LSym 40, False)] @ (xs @ [(LSym 41, False)]))"
    using s assms by (intro chain_append chain_single) auto
  then show ?thesis using assms by (auto simp: bracketed_def)
qed

lemma known_op_cases:
  assumes "known_op op"
  obtains "op = [61]" | "op = [33, 61]" | "op = [62]" | "op = [62, 61]" | "op = [60, 61]" | "op = [60]" | "op = [61, 126]" | "op = [33, 126]"
  using assms by (auto simp: known_op_def J_def)

lemma chain_test:
  assumes "fexp_ok u (FTest k op v)"
  shows "chain u (lexemes n (FTest k op v))"
proof -
  have "known_op op" using assms by simp
  then show ?thesis
    by (rule known_op_cases) (use assms in \<open>simp_all add: chain_def blank_between_def special_def is_quote_def J_def\<close>)
qed

lemma joiners: "list_all (isLetterOrDigit u) (J ''and'')" "list_all (isLetterOrDigit u) (J ''or'')" "J ''and'' \<noteq> []" "J ''or'' \<noteq> []"
  by (simp_all add: J_def isLetterOrDigit_def)

lemma chain_lexemes: "fexp_ok u e \<Longrightarrow> chain u (lexemes n e)"
proof (induction e arbitrary: n)
  case (FTest k op v)
  then show ?case by (rule chain_test)
qed (auto intro!: chain_bracketed chain_joined simp: joiners)

lemma lexemes_nonempty: "lexemes n e \<noteq> []"
  by (cases e) (simp_all add: bracketed_def)

lemma lexemes_end: "\<not> snd (last (lexemes n e))"
  by (induction e arbitrary: n) (simp_all add: bracketed_def lexemes_nonempty)

subsection \<open>The stack of operators\<close>

abbreviation tokens :: "(lexeme \<times> bool) list \<Rightarrow> jstring list" where
  "tokens xs \<equiv> map lex_text (map fst xs)"

definition ready :: "mstate \<Rightarrow> bool" where
  "ready s \<longleftrightarrow> m_key s = None \<and> m_op s = None \<and> m_val s = None"

definition full :: "mstate \<Rightarrow> bool" where
  "full s \<longleftrightarrow> m_key s \<noteq> None \<and> m_op s \<noteq> None \<and> m_val s \<noteq> None"

text \<open>What may be on top of the stack before an expression of a level, and what it may leave there.\<close>

definition stack_fits :: "nat \<Rightarrow> mitem list \<Rightarrow> bool" where
  "stack_fits n st \<longleftrightarrow> st = [] \<or> hd st = MOpen \<or> (n = 1 \<and> hd st = MOr) \<or> n > 1"

definition leaves :: "nat \<Rightarrow> mitem list \<Rightarrow> bool" where
  "leaves n ops \<longleftrightarrow> (if n = 0 then set ops \<subseteq> {MAnd, MOr} else if n = 1 then ops = [] \<or> ops = [MAnd] else ops = [])"

text \<open>The tokens put the tests of an expression, in postfix order, behind those before; the operators that are not there yet
  are on the stack.\<close>

definition delivers :: "nat \<Rightarrow> jstring list \<Rightarrow> fexp \<Rightarrow> bool" where
  "delivers n ts e \<longleftrightarrow> (\<forall>s. ready s \<longrightarrow> stack_fits n (m_stack s) \<longrightarrow> (\<exists>s' ops. run_tokens ts s = Some s' \<and> full s' \<and>
     m_stack s' = ops @ m_stack s \<and> m_test s' @ ops = m_test s @ postfix e \<and> leaves n ops))"

lemma run_tokens_append: "run_tokens (xs @ ys) s = Option.bind (run_tokens xs s) (run_tokens ys)"
proof (induction xs arbitrary: s)
  case (Cons x xs)
  then show ?case by (cases "handle_token False x s") simp_all
qed simp

lemma test_tokens:
  assumes "ready s" and "fexp_ok u (FTest k op v)"
  shows "run_tokens (tokens (lexemes n (FTest k op v))) s =
    Some (s\<lparr>m_key := Some k, m_op := Some op, m_val := Some v, m_test := m_test s @ [MTest k op v]\<rparr>)"
proof -
  have k: "k \<noteq> []" "isLetterOrDigit u (hd k)" using assms(2) by (auto simp: list_all_iff)
  then have k': "k \<noteq> [40]" "k \<noteq> [41]" "strip_quotes k = k"
    using alnum_plain [OF k(2)] by (auto simp: special_def J_def strip_quotes_def)
  have v: "strip_quotes (39 # v @ [39]) = v" by (simp add: strip_quotes_def is_quote_def)
  have op: "known_op op" using assms(2) by simp
  then show ?thesis
    by (rule known_op_cases) (use assms(1) k k' v op in \<open>simp_all add: ready_def handle_token_def\<close>)
qed

lemma pop_operators: "set ops \<subseteq> {MAnd, MOr} \<Longrightarrow> pop_to_open (ops @ MOpen # st) test = Some (st, test @ ops)"
  by (induction ops arbitrary: test) auto

lemma push_or: "set ops \<subseteq> {MAnd, MOr} \<Longrightarrow> stack_fits 0 st \<Longrightarrow> push_join False (ops @ st) test = (MOr # st, test @ ops)"
proof (induction ops arbitrary: test)
  case Nil
  then show ?case by (cases st) (auto simp: stack_fits_def)
qed auto

lemma push_and: "ops = [] \<or> ops = [MAnd] \<Longrightarrow> stack_fits 1 st \<Longrightarrow> push_join True (ops @ st) test = (MAnd # st, test @ ops)"
  by (cases st) (auto simp: stack_fits_def)

lemma join_token:
  assumes "full s" and "w = (if isand then J ''and'' else J ''or'')" and "push_join isand (m_stack s) (m_test s) = (st, test)"
  shows "\<exists>s'. handle_token False w s = Some s' \<and> ready s' \<and> m_stack s' = st \<and> m_test s' = test"
proof -
  have "map lower (J ''and'') = J ''and''" "map lower (J ''or'') = J ''or''" "J ''or'' \<noteq> J ''and''"
    "J ''and'' \<noteq> [40]" "J ''and'' \<noteq> [41]" "J ''or'' \<noteq> [40]" "J ''or'' \<noteq> [41]" "J ''and'' \<noteq> []" "J ''or'' \<noteq> []"
    by (simp_all add: J_def lower_def)
  then show ?thesis using assms by (cases isand) (auto simp: handle_token_def full_def ready_def)
qed

lemma delivers_test: "fexp_ok u (FTest k op v) \<Longrightarrow> delivers n (tokens (lexemes n (FTest k op v))) (FTest k op v)"
  unfolding delivers_def by (intro allI impI, subst test_tokens) (auto simp: full_def leaves_def)

lemma delivers_and:
  assumes a: "delivers 1 ta a" and b: "delivers 2 tb b"
  shows "delivers 1 (ta @ J ''and'' # tb) (FAnd a b)"
  unfolding delivers_def
proof (intro allI impI)
  fix s assume s: "ready s" "stack_fits 1 (m_stack s)"
  obtain s1 ops where s1: "run_tokens ta s = Some s1" "full s1" "m_stack s1 = ops @ m_stack s"
      "m_test s1 @ ops = m_test s @ postfix a" "leaves 1 ops"
    using a s by (auto simp: delivers_def)
  have "push_join True (m_stack s1) (m_test s1) = (MAnd # m_stack s, m_test s1 @ ops)"
    using s1(5) s(2) unfolding s1(3) by (intro push_and) (simp_all add: leaves_def)
  then obtain s2 where s2: "handle_token False (J ''and'') s1 = Some s2" "ready s2" "m_stack s2 = MAnd # m_stack s"
      "m_test s2 = m_test s1 @ ops"
    using join_token [OF s1(2), of "J ''and''" True] by auto
  obtain s3 where "run_tokens tb s2 = Some s3" "full s3" "m_stack s3 = m_stack s2" "m_test s3 = m_test s2 @ postfix b"
    using b s2(2) by (auto simp: delivers_def stack_fits_def leaves_def)
  then show "\<exists>s' ops. run_tokens (ta @ J ''and'' # tb) s = Some s' \<and> full s' \<and> m_stack s' = ops @ m_stack s \<and>
      m_test s' @ ops = m_test s @ postfix (FAnd a b) \<and> leaves 1 ops"
    using s1 s2 by (intro exI [of _ s3] exI [of _ "[MAnd]"]) (simp add: run_tokens_append leaves_def)
qed

lemma delivers_or:
  assumes a: "delivers 0 ta a" and b: "delivers 1 tb b"
  shows "delivers 0 (ta @ J ''or'' # tb) (FOr a b)"
  unfolding delivers_def
proof (intro allI impI)
  fix s assume s: "ready s" "stack_fits 0 (m_stack s)"
  obtain s1 ops where s1: "run_tokens ta s = Some s1" "full s1" "m_stack s1 = ops @ m_stack s"
      "m_test s1 @ ops = m_test s @ postfix a" "leaves 0 ops"
    using a s by (auto simp: delivers_def)
  have "push_join False (m_stack s1) (m_test s1) = (MOr # m_stack s, m_test s1 @ ops)"
    using s1(5) s(2) unfolding s1(3) by (intro push_or) (simp_all add: leaves_def)
  then obtain s2 where s2: "handle_token False (J ''or'') s1 = Some s2" "ready s2" "m_stack s2 = MOr # m_stack s"
      "m_test s2 = m_test s1 @ ops"
    using join_token [OF s1(2), of "J ''or''" False] by auto
  have "stack_fits 1 (m_stack s2)" by (simp add: s2(3) stack_fits_def)
  then obtain s3 ops' where "run_tokens tb s2 = Some s3" "full s3" "m_stack s3 = ops' @ m_stack s2"
      "m_test s3 @ ops' = m_test s2 @ postfix b" "leaves 1 ops'"
    using b s2(2) by (auto simp: delivers_def)
  then show "\<exists>s' ops. run_tokens (ta @ J ''or'' # tb) s = Some s' \<and> full s' \<and> m_stack s' = ops @ m_stack s \<and>
      m_test s' @ ops = m_test s @ postfix (FOr a b) \<and> leaves 0 ops"
    using s1 s2 by (intro exI [of _ s3] exI [of _ "ops' @ [MOr]"]) (auto simp: run_tokens_append leaves_def)
qed

lemma delivers_bracket:
  assumes e: "delivers n ts e" and n: "n \<le> 1"
  shows "delivers m ([40] # ts @ [[41]]) e"
  unfolding delivers_def
proof (intro allI impI)
  fix s assume s: "ready s"
  define s0 where "s0 = s\<lparr>m_stack := MOpen # m_stack s\<rparr>"
  have "handle_token False [40] s = Some s0" "ready s0" "stack_fits n (m_stack s0)"
    using s by (simp_all add: handle_token_def s0_def ready_def stack_fits_def)
  moreover from this obtain s1 ops where s1: "run_tokens ts s0 = Some s1" "full s1" "m_stack s1 = ops @ MOpen # m_stack s"
      "m_test s1 @ ops = m_test s @ postfix e" "leaves n ops"
    using e by (auto simp: delivers_def s0_def)
  moreover have "set ops \<subseteq> {MAnd, MOr}" using s1(5) n by (auto simp: leaves_def split: if_splits)
  then have "handle_token False [41] s1 = Some (s1\<lparr>m_stack := m_stack s, m_test := m_test s @ postfix e\<rparr>)"
    using s1(4) by (simp add: handle_token_def s1(3) pop_operators)
  ultimately show "\<exists>s' ops. run_tokens ([40] # ts @ [[41]]) s = Some s' \<and> full s' \<and> m_stack s' = ops @ m_stack s \<and>
      m_test s' @ ops = m_test s @ postfix e \<and> leaves m ops"
    by (intro exI [of _ "s1\<lparr>m_stack := m_stack s, m_test := m_test s @ postfix e\<rparr>"] exI [of _ "[]"])
      (simp add: run_tokens_append full_def leaves_def)
qed

lemma delivers_lower: "delivers 1 ts e \<Longrightarrow> delivers 0 ts e"
  unfolding delivers_def
proof (intro allI impI)
  assume d: "\<forall>s. ready s \<longrightarrow> stack_fits 1 (m_stack s) \<longrightarrow> (\<exists>s' ops. run_tokens ts s = Some s' \<and> full s' \<and>
    m_stack s' = ops @ m_stack s \<and> m_test s' @ ops = m_test s @ postfix e \<and> leaves 1 ops)"
  fix s assume "ready s" "stack_fits 0 (m_stack s)"
  then have "ready s" "stack_fits 1 (m_stack s)" by (auto simp: stack_fits_def)
  then obtain s' ops where "run_tokens ts s = Some s'" "full s'" "m_stack s' = ops @ m_stack s"
      "m_test s' @ ops = m_test s @ postfix e" "leaves 1 ops" using d by blast
  moreover from this have "leaves 0 ops" by (auto simp: leaves_def)
  ultimately show "\<exists>s' ops. run_tokens ts s = Some s' \<and> full s' \<and> m_stack s' = ops @ m_stack s \<and>
      m_test s' @ ops = m_test s @ postfix e \<and> leaves 0 ops" by blast
qed

lemma tokens_bracketed: "tokens (bracketed b xs) = (if b then [40] # tokens xs @ [[41]] else tokens xs)"
  by (simp add: bracketed_def)

lemma tokens_spaced: "xs \<noteq> [] \<Longrightarrow> tokens (spaced xs @ (LWord w, True) # ys) = tokens xs @ w # tokens ys"
proof -
  assume "xs \<noteq> []"
  then have "tokens (spaced xs) = tokens xs" by (rule arg_cong [OF spaced_last(2)])
  then show ?thesis by simp
qed

lemma delivers_lexemes: "fexp_ok u e \<Longrightarrow> delivers n (tokens (lexemes n e)) e"
proof (induction e arbitrary: n)
  case (FTest k op v)
  then show ?case by (rule delivers_test)
next
  case (FAnd a b)
  then have d: "delivers 1 (tokens (lexemes 1 a) @ J ''and'' # tokens (lexemes 2 b)) (FAnd a b)" by (intro delivers_and) auto
  consider "n > 1" | "n = 1" | "n = 0" by linarith
  then show ?case
    using d delivers_bracket [OF d] delivers_lower [OF d]
    by cases (simp_all only: lexemes.simps tokens_bracketed tokens_spaced [OF lexemes_nonempty] if_True if_False less_irrefl not_less_zero order.refl)
next
  case (FOr a b)
  then have d: "delivers 0 (tokens (lexemes 0 a) @ J ''or'' # tokens (lexemes 1 b)) (FOr a b)" by (intro delivers_or) auto
  then show ?case
    using delivers_bracket [OF d, of n]
    by (cases "n = 0") (simp_all only: lexemes.simps tokens_bracketed tokens_spaced [OF lexemes_nonempty] if_True if_False neq0_conv not_less_zero zero_le)
qed

subsection \<open>Compilation and evaluation\<close>

lemma jtrim_unchanged:
  assumes "32 < hd s" and "32 < last s"
  shows "jtrim s = s"
proof (cases "s = []")
  case False
  then have "dropWhile (\<lambda>c. c \<le> 32) s = s" using assms(1) by (cases s) (auto simp: not_le)
  moreover have "dropWhile (\<lambda>c. c \<le> 32) (rev s) = rev s"
    using False assms(2) by (cases s rule: rev_cases) (auto simp: not_le)
  ultimately show ?thesis by (simp add: jtrim_def)
qed (simp add: jtrim_def)

lemma lexeme_string_snoc: "lexeme_string (xs @ [x]) = lexeme_string xs @ piece x"
  by (simp add: lexeme_string_def)

lemma filter_text_ends:
  assumes "fexp_ok u e"
  shows "32 < hd (filter_text e)" "32 < last (filter_text e)" "hd (filter_text e) \<noteq> 42"
proof -
  have all: "lexeme_ok u (fst x)" if "x \<in> set (lexemes 0 e)" for x
    using chain_lexemes [OF assms, of 0] that by (auto simp: chain_def list_all_iff)
  obtain l b ys where f: "lexemes 0 e = (l, b) # ys" using lexemes_nonempty by (cases "lexemes 0 e") auto
  then have l: "lexeme_ok u l" using all [of "(l, b)"] by simp
  then show "32 < hd (filter_text e)" "hd (filter_text e) \<noteq> 42"
    using lexeme_starts [OF l] hd_piece [OF l] by (simp_all add: filter_text_def f lexeme_string_Cons)
  obtain zs m c where t: "lexemes 0 e = zs @ [(m, c)]" using lexemes_nonempty by (cases "lexemes 0 e" rule: rev_cases) auto
  then have m: "lexeme_ok u m" and c: "\<not> c" using all [of "(m, c)"] lexemes_end [of 0 e] by simp_all
  then show "32 < last (filter_text e)"
    using lexeme_starts [OF m] lex_text_nonempty [OF m] by (simp add: filter_text_def t lexeme_string_snoc piece_def)
qed

lemma compile_filter_text:
  assumes e: "fexp_ok u e"
  shows "compile_filter u (filter_text e) = Some (Some (postfix e))"
proof -
  have "ready start_state" "stack_fits 0 (m_stack start_state)" "m_test start_state = []" "m_stack start_state = []"
    by (simp_all add: start_state_def ready_def stack_fits_def)
  then obtain s where s: "run_tokens (tokens (lexemes 0 e)) start_state = Some s" "m_test s @ m_stack s = postfix e"
    using delivers_lexemes [OF e, of 0] by (auto simp: delivers_def)
  have "filter_loop u (filter_text e) 0 start_state = Some (relex 0 (length (filter_text e)) 0 s)"
    using filter_loop_text [OF chain_lexemes_ok [OF chain_lexemes [OF e, of 0] lexemes_end] lexemes_nonempty] s(1)
    by (simp add: filter_text_def)
  moreover have "jtrim (filter_text e) = filter_text e" by (rule jtrim_unchanged) (rule filter_text_ends [OF e])+
  moreover have "filter_text e \<noteq> J ''*''" using filter_text_ends(3) [OF e] by (auto simp: J_def)
  moreover have "postfix e \<noteq> []" by (cases e) simp_all
  ultimately show ?thesis using s(2) by (auto simp add: compile_filter_def relex_def Let_def)
qed

lemma eval_postfix: "eval_items t (postfix e @ xs) work = eval_items t xs (sem t e # work)"
  by (induction e arbitrary: xs work) (simp_all add: conj_commute disj_commute)

lemma matches_postfix: "matches t (Some (postfix e)) = Some (sem t e)"
  using eval_postfix [of t e "[]" "[]"] by (simp add: matches_def)

lemma find_service_postfix:
  "find_service lib typ (Some (postfix e)) svs = Some (List.find (\<lambda>sv. typ sv \<and> sem (service_test lib sv) e) svs)"
  by (induction svs) (simp_all add: matches_postfix split: bool.split)

lemma collect_services_postfix:
  "collect_services lib typ (Some (postfix e)) svs = Some (filter (\<lambda>sv. typ sv \<and> sem (service_test lib sv) e) svs)"
  by (induction svs) (simp_all add: matches_postfix)



subsection \<open>A name with an apostrophe\<close>

text \<open>The finder of speakers writes the name it has found between apostrophes.  A name with an apostrophe of its own gives a
  filter that is not read: the constructor throws.\<close>

lemma apostrophe_not_read: "compile_filter (\<lambda>_. False) (J ''name='Joe's' '') = None"
  by (simp add: compile_filter_def J_def jtrim_def filter_loop.simps filter_turn_def is_quote_def isLetterOrDigit_def special_def
    start_state_def handle_token_def known_op_def strip_quotes_def lower_def Let_def)

end
