(* ===== verification/Spec2Isabelle.thy ===== *)
theory Spec2Isabelle
  imports PlayerInv RaopHelper AudioFlinger AirtunesSend AirtunesTime AirtunesSession JavaPlayer MatcherLaws
begin

text \<open>
  Verification of waveplay, an Android application that streams what the device plays to AirTunes speakers.

  \<^bold>\<open>The program.\<close>  The application (Java, \<^verbatim>\<open>src/src/com/nixus/raop\<close>) finds speakers and starts a task for
  each one the user selects.  A task runs the native player (C, \<^verbatim>\<open>src/jni/raop_play\<close>), which opens an RTSP session with
  the speaker, listens on a local socket for samples, frames, encrypts and sends them, and asks the
  application before each round whether to go on.  The samples come from the mixer of the device: the
  repository's change to AudioFlinger (C++, \<^verbatim>\<open>src/audioflinger\<close>) hands the mix to that socket while the file
  \<^verbatim>\<open>/data/raop_switch\<close> holds a number other than zero.  The application writes the file.  Beside the native player there
  is a sender of its own in Java (\<^verbatim>\<open>speaker/airport\<close>), with its packets, queue and timing.

  \<^bold>\<open>Theories and sources.\<close>
  \<^item> \<open>Prelude\<close>: words, bytes, lists and loops.  \<open>OsWorld\<close>: the system calls as a trace with the answers of the
    environment, in the state monad.  \<open>CString\<close>: the C library on strings.  \<open>JavaText\<close>: Java strings.
  \<^item> \<open>Base64\<close>: \<^verbatim>\<open>base64.c\<close>.  Decoding inverts encoding; the encoder stays inside its block.
  \<^item> \<open>AesSpec\<close>, \<open>AesTables\<close>, \<open>AesField\<close>, \<open>AesGen\<close>, \<open>AesLaws\<close>, \<open>Aes\<close>, \<open>AesKey\<close>: \<^verbatim>\<open>aes.c\<close>.  The generated tables are the
    fixed ones, the key schedule and both routines compute FIPS-197 for all key sizes, one undoes the other.
  \<^item> \<open>AexclLib\<close>: \<^verbatim>\<open>aexcl_lib.c\<close>, \<^verbatim>\<open>aexcl_lib.h\<close>.  The line reader stays in its buffer and delivers lines.
  \<^item> \<open>AudioStream\<close>, \<open>PcmStream\<close>: \<^verbatim>\<open>audio_stream.c\<close>, \<^verbatim>\<open>pcm_stream.c\<close>.  A chunk is the frame its fields describe;
    opening a source is all or nothing.
  \<^item> \<open>FdEvents\<close>: the table of watched descriptors of \<^verbatim>\<open>raop_play.c\<close>, with the locale \<open>fd_table\<close>.
  \<^item> \<open>RtspClient\<close>: \<^verbatim>\<open>rtsp_client.c\<close>.  The text of a request, the reading of a response, sequence numbers.
  \<^item> \<open>RaopClient\<close>: \<^verbatim>\<open>raop_client.c\<close>.  Encryption of a chunk, network time, delivery of packets, titles.
  \<^item> \<open>RaopPlay\<close>: \<^verbatim>\<open>raop_play.c\<close>.  \<open>Keeps\<close>, \<open>PlayerInv\<close>: a calculus of what computations keep, and with it the invariant
    of every state the player reaches, and how a stop takes effect.
  \<^item> \<open>PropertyManager\<close>: \<^verbatim>\<open>core/PropertyManager.java\<close>.  The store is a map, on lists changed in place; lines survive being
    written and read; the locale is \<open>property_map\<close>.
  \<^item> \<open>RaopHelper\<close>: \<^verbatim>\<open>RaopHelper.java\<close>, with the interleavings of buttons and tasks.
  \<^item> \<open>AudioFlinger\<close>: the repository's part of \<^verbatim>\<open>AudioFlinger.cpp\<close>.
  \<^item> \<open>Airtunes\<close>, \<open>AirtunesSend\<close>, \<open>AirtunesTime\<close>: \<^verbatim>\<open>AirtunesManager.java\<close>, the connection state of
    \<^verbatim>\<open>AirtunesSpeaker.java\<close>, the buffering of \<^verbatim>\<open>SpeakerImpl.java\<close>.  The bits of a packet, the slots of the
    queue under two threads, numbering, timing, and a speaker that expires.
  \<^item> \<open>AirtunesRtsp\<close>, \<open>AirtunesSession\<close>: the RTSP session of \<^verbatim>\<open>AirtunesSpeaker.java\<close>.  Its base 64 is that of the C code,
    connecting finds the ports of a speaker, a dead network ends a session with an error.
  \<^item> \<open>MultiLine\<close>, \<open>JavaPlayer\<close>: \<^verbatim>\<open>player/MultiLine.java\<close>, \<^verbatim>\<open>player/PlayerImpl.java\<close>.  What is read reaches every speaker in
    order; an interrupted player ends; failed speakers are not noticed.
  \<^item> \<open>Matcher\<close>, \<open>MatcherLaws\<close>: filters for services, \<^verbatim>\<open>core/AbstractMatcher.java\<close>, \<^verbatim>\<open>core/ServiceMatcher.java\<close> and the search of
    \<^verbatim>\<open>core/ServiceContextImpl.java\<close>.  Reading the text of an expression gives its tests in postfix order, and the search
    finds what the expression describes.
  \<^item> This theory: what spans the components.  The arguments the application hands to the player, the effect of a
    stop on player and mixer, and what is left when a player ends on its own.

  \<^bold>\<open>How code is modelled.\<close>  A function of the source is a definition of the same name, its state a record passed along,
  its structs records, its enums datatypes.  C and Java integers are words of their width where they can
  wrap and integers elsewhere.  Undefined behaviour of C (a null or wild pointer, a read past an array) and an
  exception of Java are \<open>None\<close> or a value that says so; a write past a block of the heap is counted, because
  the code goes on.  A system call appends to a trace and takes its answer from the environment, over which the
  theorems quantify.  Code that is not in the sources is a parameter: RSA of OpenSSL (the function \<open>rsa\<close> of the
  session), the cipher of the Java platform, Unicode classes, the answers of sockets.

  \<^bold>\<open>Bounds and fuel.\<close>  The loops that read a response get as many passes as the world has characters
  to read, which \<open>response_loops_end\<close> shows to be enough.  The builder of a chunk gets more passes than samples
  (\<open>auds_write_pcm_frame\<close>).  The main loop of the player may run for ever and is a step function with the
  reachability relation \<open>reaches\<close>; \<open>run_main\<close> runs a number of steps.  All other loops are total.  Floating point
  in the network time is integer arithmetic rounded to 53 bits, as the C code computes it.

  \<^bold>\<open>Not modelled.\<close>  OpenSSL and libsamplerate are vendored libraries: the player calls \<^verbatim>\<open>RSA_public_encrypt\<close> of the first, a
  parameter here, and nothing of the second.  The rest of AudioFlinger is Android's.  jmDNS
  (\<^verbatim>\<open>src/src/javax/jmdns\<close>) is a vendored library for finding services on the network.  The activity and the preferences
  (\<^verbatim>\<open>MainActivity.java\<close>) are calls of the Android framework.  The factories and the life cycle of services
  (\<^verbatim>\<open>ServiceContextImpl.java\<close>, \<^verbatim>\<open>Finder.java\<close>, \<^verbatim>\<open>zeroconf\<close>) mostly create and start objects by their class, which has no
  counterpart in a shallow embedding.
\<close>

subsection \<open>From the application to the player\<close>

text \<open>The strings of the application as the native player gets them, in the modified UTF-8 of the Java virtual
  machine: a zero has two bytes, so that it does not end the string.\<close>

definition utf_char :: "jchar \<Rightarrow> nat list" where
  "utf_char c = (let n = unat c in
     if 0 < n \<and> n < 128 then [n]
     else if n < 2048 then [192 + n div 64, 128 + n mod 64]
     else [224 + n div 4096, 128 + n div 64 mod 64, 128 + n mod 64])"

definition utf_chars :: "jstring \<Rightarrow> string" where
  "utf_chars s = map char_of (concat (map utf_char s))"

text \<open>What the application's \<open>isActivated\<close> hands to the native one.\<close>

definition active_answer :: "jstring \<Rightarrow> helper \<Rightarrow> int" where
  "active_answer a h = (case java_isActivated a h of Some True \<Rightarrow> 1 | _ \<Rightarrow> 0)"

text \<open>Words that the player takes for options.\<close>

definition option_words :: "string list" where
  "option_words = [''-i'', ''--port'', ''--vol'', ''-e'', ''--proto'', ''--help'', ''-h'']"

lemma utf_chars_J: "list_all (\<lambda>c. 0 < (of_char c :: nat) \<and> of_char c < (128 :: nat)) s \<Longrightarrow> utf_chars (J s) = s"
  by (induction s) (simp_all add: utf_chars_def utf_char_def J_def unat_of_nat)

lemma utf_chars_words:
  "utf_chars (J ''raop-play'') = ''raop-play''" "utf_chars (J ''--port'') = ''--port''" "utf_chars (J ''--proto'') = ''--proto''"
  "utf_chars (J ''socket://'') = ''socket://''" "utf_chars (J ''udp'') = ''udp''"
  by (simp_all add: utf_chars_J)

lemma parse_task_args:
  assumes "utf_chars (task_address t) \<notin> set option_words"
  shows "parse_args (6 + k) (tl (map utf_chars (task_args t)) @ ms) default_options =
    parse_args k ms (default_options\<lparr>o_host := Some (utf_chars (task_address t)), o_fname := Some ''socket://'',
      o_port := atoi (utf_chars (task_port t)), o_udp := (utf_chars (task_proto t) = ''udp'')\<rparr>)"
  using assms
  by (simp add: task_args_def utf_chars_words option_words_def default_options_def numeral_eq_Suc)

text \<open>C31. The arguments of a task mean what the application means: the options the player reads from the seven
  strings are the address as the host, \<open>socket://\<close> as the source, the port, and the protocol.  But the player is called with
  a count of eight, and reading the string that was not handed over is undefined behaviour on every such call.\<close>

theorem task_args_options:
  assumes "utf_chars (task_address t) \<notin> set option_words"
  shows "parse_args 6 (tl (map utf_chars (task_args t))) default_options =
      Parsed (default_options\<lparr>o_host := Some (utf_chars (task_address t)), o_fname := Some ''socket://'',
        o_port := atoi (utf_chars (task_port t)), o_udp := (utf_chars (task_proto t) = ''udp'')\<rparr>) \<and>
    run_state (raopPlay rsa n (map utf_chars (task_args t))) w = (None, w)"
proof
  show "parse_args 6 (tl (map utf_chars (task_args t))) default_options =
      Parsed (default_options\<lparr>o_host := Some (utf_chars (task_address t)), o_fname := Some ''socket://'',
        o_port := atoi (utf_chars (task_port t)), o_udp := (utf_chars (task_proto t) = ''udp'')\<rparr>)"
    using parse_task_args [OF assms, of 0 "[]"] by simp
  have "parse_args 7 (tl (map utf_chars (task_args t))) default_options = Args_undefined"
    using parse_task_args [OF assms, of 1 "[]"] by simp
  moreover have "take 7 (map utf_chars (task_args t)) = map utf_chars (task_args t)" by (simp add: task_args_def)
  ultimately show "run_state (raopPlay rsa n (map utf_chars (task_args t))) w = (None, w)"
    by (simp add: raopPlay_def main_def)
qed

theorem task_args_options_witness:
  "parse_args 6 (tl (map utf_chars (task_args \<lparr>task_address = J ''10.0.0.7'', task_proto = J ''udp'', task_port = J ''5000'',
       task_phase = Queued\<rparr>))) default_options =
     Parsed (default_options\<lparr>o_host := Some ''10.0.0.7'', o_fname := Some ''socket://'', o_port := 5000, o_udp := True\<rparr>)"
proof -
  let ?t = "\<lparr>task_address = J ''10.0.0.7'', task_proto = J ''udp'', task_port = J ''5000'', task_phase = Queued\<rparr>"
  have u: "utf_chars (J ''10.0.0.7'') = ''10.0.0.7''" "utf_chars (J ''5000'') = ''5000''" "utf_chars (J ''udp'') = ''udp''"
    by (simp_all add: utf_chars_J)
  have a: "atoi ''5000'' = 5000" by code_simp
  have "utf_chars (task_address ?t) \<notin> set option_words" by (simp add: u option_words_def)
  from conjunct1 [OF task_args_options [OF this]] show ?thesis by (simp add: u a)
qed

subsection \<open>Stopping\<close>

lemma stopped_answer:
  assumes "run_actions xs (stopStreaming a h) = Some h'" and "\<And>x. x \<in> set xs \<Longrightarrow> \<not> starts_task_of a x h'"
  shows "active_answer a h' = 0"
proof -
  have "java_isActivated a (stopStreaming a h) = Some False"
    by (simp add: java_isActivated_def stopStreaming_def Let_def)
  from stopped_run [OF assms(1) this assms(2)] show ?thesis by (simp add: active_answer_def)
qed

lemma write_with_switch_off:
  assumes "dumpSwitchFile f = Some s" and "dumpSocketWatchDog f \<ge> 10 \<or> scan_d s = Some 0"
  shows "\<exists>f'. threadLoop_write b mix count f = Some (sink_answer b, [Sink_write (take (count * 4) mix)], f')"
  using assms by (auto simp: threadLoop_write_def read_switch_def)

text \<open>C4. Pressing stop reaches both sides.  The next buffer of the mixer goes to the local hardware, whatever
  the state of the bridge; and for as long as no task of the address starts, whatever else happens in the application, the
  native player gets the answer that ends its loop at the next test, with result 0.  What the player closes on the way
  is the RTSP connection and the descriptors of the audio source; its stream, control and timing sockets stay
  open.\<close>

theorem stop_reaches_mixer_and_player:
  assumes "switch_writable h" and "dumpSwitchFile f = Some (switch_file (stopStreaming a h))"
    and "run_actions xs (stopStreaming a h) = Some h'" and "\<And>x. x \<in> set xs \<Longrightarrow> \<not> starts_task_of a x h'"
    and "client d = Some c" and "answers w = active_answer a h' # as"
  shows "(\<exists>f'. threadLoop_write b mix count f = Some (sink_answer b, [Sink_write (take (count * 4) mix)], f')) \<and>
    (\<exists>w' es. run_state (main_step (utf_chars a) (Looping rval, d)) w = ((Finished 0, d), w') \<and> trace w' = trace w @ es \<and>
      closed_fds es = session_fds c @ source_fds (player_auds d))"
proof
  have "switch_file (stopStreaming a h) = ''0''"
    using assms(1) by (simp add: stopStreaming_def setRaopSwitch_def notify_def Let_def)
  then show "\<exists>f'. threadLoop_write b mix count f = Some (sink_answer b, [Sink_write (take (count * 4) mix)], f')"
    using write_with_switch_off [OF assms(2)] by (simp add: scan_d_switch)
  have "answers w = 0 # as" using assms(6) stopped_answer [OF assms(3,4)] by simp
  then show "\<exists>w' es. run_state (main_step (utf_chars a) (Looping rval, d)) w = ((Finished 0, d), w') \<and> trace w' = trace w @ es \<and>
      closed_fds es = session_fds c @ source_fds (player_auds d)"
    using loop_test_ends [OF assms(5), of rval w 0 as "utf_chars a"] by auto
qed

text \<open>A player that ends on its own leaves the bridge switched on: what the application writes when a task has
  ended is not a number, so the mixer keeps the switch it had read before and goes on handing its buffers to the
  socket instead of the hardware.\<close>

lemma task_end_keeps_bridge:
  assumes "switch_writable h" and "dumpSwitchFile f = Some (switch_file (onPostExecute i h))"
    and "bridging f" and "dumpSwitch f \<noteq> 0"
  shows "\<exists>n f'. threadLoop_write b mix count f = Some (n, [Send_socket (dumpSocket f) (take (count * 4) mix)], f') \<and>
    dumpSwitch f' = dumpSwitch f"
proof -
  have "switch_file (onPostExecute i h) = ''O''"
    using assms(1) by (simp add: onPostExecute_def setRaopSwitch_def notify_def set_phase_def Let_def)
  then show ?thesis
    using assms(2-4)
    by (auto simp: threadLoop_write_def read_switch_def scan_d_switch bridging_def connect_bridge_def send_bridge_def Let_def)
qed

theorem stop_reaches_mixer_and_player_witness:
  "(\<exists>f'. threadLoop_write \<lparr>socket_answer = 0, connect_answer = 0, send_answer = 0, sink_answer = 1\<rparr> [1, 2, 3, 4] 1
       (start_flinger (Some ''0'')) = Some (1, [Sink_write [1, 2, 3, 4]], f')) \<and>
   (\<exists>w'. run_state (main_step (utf_chars [49]) (Looping 0, \<lparr>client = Some zero_raopcl, player_auds = None\<rparr>))
       (idle_raop [0] [] empty_slots) = ((Finished 0, \<lparr>client = Some zero_raopcl, player_auds = None\<rparr>), w'))"
proof -
  let ?h = "stopStreaming [49] (new_helper new_manager ''1'')"
  have h: "run_actions [] ?h = Some ?h" "switch_file ?h = ''0''" "switch_writable (new_helper new_manager ''1'')"
    by (simp_all add: stopStreaming_def setRaopSwitch_def notify_def new_helper_def Let_def)
  have a: "active_answer [49] ?h = 0" using stopped_answer [OF h(1)] by simp
  have f: "dumpSwitchFile (start_flinger (Some ''0'')) = Some (switch_file ?h)" by (simp add: h(2) start_flinger_def)
  have w: "answers (idle_raop [0] [] empty_slots) = active_answer [49] ?h # []" by (simp add: a idle_raop_simps)
  show ?thesis
    using stop_reaches_mixer_and_player [OF h(3) f h(1) _ _ w, of "\<lparr>client = Some zero_raopcl, player_auds = None\<rparr>" zero_raopcl
        "\<lparr>socket_answer = 0, connect_answer = 0, send_answer = 0, sink_answer = 1\<rparr>" "[1, 2, 3, 4]" 1 0]
    by auto
qed

end
